(* ===== verification/NKN_Prelude.thy ===== *)
theory NKN_Prelude
  imports "HOL-Library.Word" "HOL-Library.Signed_Division"
begin

text \<open>
  The prelude of the development: the types that stand for Rust's machine integers, byte
  vectors and strings, the outcome of a Rust call (a value, an \<^verbatim>\<open>Err\<close>, or a panic),
  integer arithmetic under the two build profiles of Cargo, and the generic lemmas on lists,
  bytes and outcomes that the component theories share. The collection \<open>outcome_simps\<close>
  holds the rewrite rules for sequencing outcomes; \<open>arith_defs\<close> the definitions of the
  checked machine operations.
\<close>

named_theorems outcome_simps \<open>rewrite rules for sequencing of outcomes\<close>
named_theorems arith_defs \<open>definitions of the machine operations with overflow checks\<close>

section \<open>Machine integers, bytes and strings\<close>

type_synonym u8 = "8 word"
type_synonym u16 = "16 word"
type_synonym u32 = "32 word"
type_synonym u64 = "64 word"
type_synonym i32 = "32 word"
type_synonym i64 = "64 word"

type_synonym bytes = "8 word list"

text \<open>
  A Rust \<^verbatim>\<open>String\<close> is its UTF-8 bytes: \<^verbatim>\<open>len\<close> counts bytes and \<^verbatim>\<open>as_bytes\<close> is a
  change of type only. An Isabelle \<^typ>\<open>char\<close> is one byte.
\<close>

definition as_bytes :: "string \<Rightarrow> bytes" where
  "as_bytes s = map of_char s"

definition of_bytes :: "bytes \<Rightarrow> string" where
  "of_bytes bs = map (\<lambda>b. char_of (unat b)) bs"

lemma char_of_unat_of_char [simp]: "char_of (unat (of_char c :: u8)) = c"
proof -
  have "unat (of_char c :: u8) = (of_char c :: nat)"
  proof -
    have "(of_char c :: u8) = of_nat (of_char c :: nat)"
      by (simp add: of_nat_of_char)
    moreover have "(of_char c :: nat) < 256"
      by (rule nat_of_char_less_256)
    ultimately show ?thesis
      by (simp add: unat_of_nat)
  qed
  then show ?thesis by simp
qed

lemma of_bytes_as_bytes [simp]: "of_bytes (as_bytes s) = s"
  by (simp add: of_bytes_def as_bytes_def comp_def)

lemma as_bytes_of_bytes [simp]: "as_bytes (of_bytes bs) = bs"
proof -
  have "of_char (char_of (unat b) :: char) = b" for b :: u8
  proof -
    have "unat b < 256" using unsigned_less [of b] by simp
    then have "of_nat (of_char (char_of (unat b) :: char) :: nat) = b" by simp
    then show ?thesis by (simp only: of_nat_of_char)
  qed
  then show ?thesis by (simp add: as_bytes_def of_bytes_def map_idI)
qed

lemma as_bytes_inject [simp]: "as_bytes s = as_bytes t \<longleftrightarrow> s = t"
  by (metis of_bytes_as_bytes)

lemma length_as_bytes [simp]: "length (as_bytes s) = length s"
  by (simp add: as_bytes_def)

lemma length_of_bytes [simp]: "length (of_bytes bs) = length bs"
  by (simp add: of_bytes_def)

section \<open>Outcomes\<close>

text \<open>
  A call returns a value (\<open>Ok\<close>, also the result of a function that is not fallible in its
  type), an error value (\<open>Err\<close>), or panics: a failed \<^verbatim>\<open>unwrap\<close> or \<^verbatim>\<open>expect\<close>, an index out of
  range, \<^verbatim>\<open>todo!()\<close>, \<^verbatim>\<open>unreachable!()\<close>, or an arithmetic overflow in a debug build.
\<close>

datatype ('a, 'e) outcome = Ok 'a | Err 'e | Panic

text \<open>The operator \<^verbatim>\<open>?\<close>: go on with the value, return the error, propagate the panic.\<close>

fun and_then :: "('a, 'e) outcome \<Rightarrow> ('a \<Rightarrow> ('b, 'e) outcome) \<Rightarrow> ('b, 'e) outcome" where
  "and_then (Ok x) f = f x"
| "and_then (Err e) f = Err e"
| "and_then Panic f = Panic"

text \<open>\<^verbatim>\<open>unwrap\<close> and \<^verbatim>\<open>expect\<close> on an \<^verbatim>\<open>Option\<close> and on a \<^verbatim>\<open>Result\<close>.\<close>

fun unwrap :: "'a option \<Rightarrow> ('a, 'e) outcome" where
  "unwrap (Some x) = Ok x"
| "unwrap None = Panic"

fun unwrap_result :: "('a, 'd) outcome \<Rightarrow> ('a, 'e) outcome" where
  "unwrap_result (Ok x) = Ok x"
| "unwrap_result (Err e) = Panic"
| "unwrap_result Panic = Panic"

text \<open>\<^verbatim>\<open>ok_or\<close>-like conversion of a third-party \<^verbatim>\<open>Result\<close>, here \<open>option\<close>, by \<^verbatim>\<open>map_err\<close>.\<close>

fun or_err :: "'a option \<Rightarrow> 'e \<Rightarrow> ('a, 'e) outcome" where
  "or_err (Some x) e = Ok x"
| "or_err None e = Err e"

lemma and_then_Ok_iff [outcome_simps]:
  "and_then m f = Ok y \<longleftrightarrow> (\<exists>x. m = Ok x \<and> f x = Ok y)"
  by (cases m) auto

lemma and_then_Err_iff:
  "and_then m f = Err e \<longleftrightarrow> m = Err e \<or> (\<exists>x. m = Ok x \<and> f x = Err e)"
  by (cases m) auto

lemma and_then_Panic_iff:
  "and_then m f = Panic \<longleftrightarrow> m = Panic \<or> (\<exists>x. m = Ok x \<and> f x = Panic)"
  by (cases m) auto

lemma and_then_assoc:
  "and_then (and_then m f) g = and_then m (\<lambda>x. and_then (f x) g)"
  by (cases m) auto

lemma unwrap_Ok_iff [outcome_simps]: "unwrap x = Ok y \<longleftrightarrow> x = Some y"
  by (cases x) auto

lemma unwrap_not_Err [simp]: "unwrap x \<noteq> Err e"
  by (cases x) auto

lemma unwrap_Panic_iff [outcome_simps]: "unwrap x = Panic \<longleftrightarrow> x = None"
  by (cases x) auto

lemma unwrap_result_Ok_iff [outcome_simps]: "unwrap_result x = Ok y \<longleftrightarrow> x = Ok y"
  by (cases x) auto

lemma or_err_Ok_iff [outcome_simps]: "or_err x e = Ok y \<longleftrightarrow> x = Some y"
  by (cases x) auto

lemma or_err_not_Panic [simp]: "or_err x e \<noteq> Panic"
  by (cases x) auto

text \<open>A loop over a list whose body may fail: it stops at the first error or panic.\<close>

fun map_outcome :: "('a \<Rightarrow> ('b, 'e) outcome) \<Rightarrow> 'a list \<Rightarrow> ('b list, 'e) outcome" where
  "map_outcome f [] = Ok []"
| "map_outcome f (x # xs) =
     and_then (f x) (\<lambda>y. and_then (map_outcome f xs) (\<lambda>ys. Ok (y # ys)))"

lemma map_outcome_Ok_length: "map_outcome f xs = Ok ys \<Longrightarrow> length ys = length xs"
  by (induction xs arbitrary: ys) (auto simp: outcome_simps)

lemma map_outcome_Ok_nth:
  "map_outcome f xs = Ok ys \<Longrightarrow> i < length xs \<Longrightarrow> f (xs ! i) = Ok (ys ! i)"
  by (induction xs arbitrary: ys i) (auto simp: outcome_simps nth_Cons split: nat.splits)

lemma map_outcome_all_Ok:
  "(\<And>x. x \<in> set xs \<Longrightarrow> f x = Ok (g x)) \<Longrightarrow> map_outcome f xs = Ok (map g xs)"
  by (induction xs) auto

section \<open>Integer arithmetic under the two build profiles\<close>

text \<open>
  \<^verbatim>\<open>Cargo.toml\<close> keeps Cargo's profiles: a debug build panics on overflow of \<^verbatim>\<open>+\<close>, \<^verbatim>\<open>-\<close>, \<^verbatim>\<open>*\<close>, a
  release build wraps. Every definition whose arithmetic can overflow takes the profile.
\<close>

datatype profile = Debug | Release

definition overflow :: "profile \<Rightarrow> bool \<Rightarrow> 'a \<Rightarrow> ('a, 'e) outcome" where
  [arith_defs]: "overflow p bad wrapped = (if bad \<and> p = Debug then Panic else Ok wrapped)"

definition add_u :: "profile \<Rightarrow> 'n::len word \<Rightarrow> 'n word \<Rightarrow> ('n word, 'e) outcome" where
  [arith_defs]: "add_u p a b = overflow p (2 ^ LENGTH('n) \<le> unat a + unat b) (a + b)"

definition sub_u :: "profile \<Rightarrow> 'n::len word \<Rightarrow> 'n word \<Rightarrow> ('n word, 'e) outcome" where
  [arith_defs]: "sub_u p a b = overflow p (a < b) (a - b)"

definition mul_u :: "profile \<Rightarrow> 'n::len word \<Rightarrow> 'n word \<Rightarrow> ('n word, 'e) outcome" where
  [arith_defs]: "mul_u p a b = overflow p (2 ^ LENGTH('n) \<le> unat a * unat b) (a * b)"

definition in_signed_range :: "'n::len itself \<Rightarrow> int \<Rightarrow> bool" where
  "in_signed_range t k \<longleftrightarrow> - (2 ^ (LENGTH('n) - 1)) \<le> k \<and> k < 2 ^ (LENGTH('n) - 1)"

definition add_s :: "profile \<Rightarrow> 'n::len word \<Rightarrow> 'n word \<Rightarrow> ('n word, 'e) outcome" where
  [arith_defs]: "add_s p a b =
     overflow p (\<not> in_signed_range TYPE('n) (sint a + sint b)) (a + b)"

definition sub_s :: "profile \<Rightarrow> 'n::len word \<Rightarrow> 'n word \<Rightarrow> ('n word, 'e) outcome" where
  [arith_defs]: "sub_s p a b =
     overflow p (\<not> in_signed_range TYPE('n) (sint a - sint b)) (a - b)"

text \<open>Signed remainder \<^verbatim>\<open>%\<close>: truncated division, the sign of the dividend.\<close>

definition rem_s :: "'n::len word \<Rightarrow> 'n word \<Rightarrow> 'n word" where
  "rem_s a b = word_of_int (sint a smod sint b)"

lemma overflow_not_Err [simp]: "overflow p b x \<noteq> Err e"
  by (simp add: overflow_def)

lemma overflow_False [simp]: "overflow p False x = Ok x"
  by (simp add: overflow_def)

lemma overflow_Ok_iff: "overflow p b x = Ok y \<longleftrightarrow> y = x \<and> \<not> (b \<and> p = Debug)"
  by (auto simp: overflow_def)

lemma add_u_not_Err [simp]: "add_u p a b \<noteq> Err e"
  by (simp add: add_u_def)

lemma sub_u_not_Err [simp]: "sub_u p a b \<noteq> Err e"
  by (simp add: sub_u_def)

lemma add_u_exact:
  fixes a b :: "'n::len word"
  assumes "unat a + unat b < 2 ^ LENGTH('n)"
  shows "add_u p a b = Ok (a + b)" and "unat (a + b) = unat a + unat b"
  using assms by (simp_all add: add_u_def unat_word_ariths)

lemma add_u_Ok_D: "add_u p a b = Ok c \<Longrightarrow> c = a + b"
  by (simp add: add_u_def overflow_Ok_iff)

lemma add_u_Debug_Ok_D:
  fixes a b :: "'n::len word"
  shows "add_u Debug a b = Ok c \<Longrightarrow> unat c = unat a + unat b"
  by (auto simp: add_u_def overflow_Ok_iff unat_word_ariths)

lemma add_s_exact:
  fixes a b :: "'n::len word"
  shows "in_signed_range TYPE('n) (sint a + sint b) \<Longrightarrow> add_s p a b = Ok (a + b)"
  by (simp add: add_s_def)

lemma sub_s_exact:
  fixes a b :: "'n::len word"
  shows "in_signed_range TYPE('n) (sint a - sint b) \<Longrightarrow> sub_s p a b = Ok (a - b)"
  by (simp add: sub_s_def)

lemma in_signed_range_64 [simp]:
  "in_signed_range TYPE(64) k \<longleftrightarrow> - 9223372036854775808 \<le> k \<and> k < 9223372036854775808"
  by (simp add: in_signed_range_def)

lemma sint_add_64:
  "- 9223372036854775808 \<le> sint a + sint b \<Longrightarrow> sint a + sint b < 9223372036854775808 \<Longrightarrow>
     sint (a + b :: i64) = sint a + sint b"
  unfolding sint_word_ariths by (intro signed_take_bit_int_eq_self) simp_all

lemma sint_minus_64:
  "- 9223372036854775808 < sint a \<Longrightarrow> sint (- a :: i64) = - sint a"
  unfolding sint_word_ariths using sint_lt [of a]
  by (intro signed_take_bit_int_eq_self) simp_all

text \<open>A narrowing cast loses nothing on a value that fits.\<close>

lemma ucast_ucast_fits:
  fixes x :: "'a::len word"
  assumes "unat x < 2 ^ LENGTH('b::len)"
  shows "ucast (ucast x :: 'b word) = x"
proof -
  have "unat (ucast x :: 'b word) = unat x"
    using assms by (simp add: unsigned_ucast_eq unsigned_take_bit_eq take_bit_nat_eq_self)
  then have "unat (ucast (ucast x :: 'b word) :: 'a word) = unat x"
    using unsigned_less [of x] by (simp add: unsigned_ucast_eq unsigned_take_bit_eq take_bit_nat_eq_self)
  then show ?thesis by (simp add: word_unat_eq_iff)
qed

section \<open>Lists\<close>

lemma append_eq_append_length:
  "xs @ ys = us @ vs \<Longrightarrow> length xs = length us \<Longrightarrow> xs = us \<and> ys = vs"
  by simp

lemma unat_u32_less: "unat (x :: u32) < 4294967296"
  using unsigned_less [of x, where 'a = nat] by simp

lemma unat_of_nat_fits:
  "n < 2 ^ LENGTH('n) \<Longrightarrow> unat (of_nat n :: 'n::len word) = n"
  by (simp add: unsigned_of_nat take_bit_nat_eq_self)

lemma unat_add_fits:
  fixes a b :: "'n::len word"
  shows "unat a + unat b < 2 ^ LENGTH('n) \<Longrightarrow> unat (a + b) = unat a + unat b"
  by (simp add: unat_add_lem [THEN iffD1])

section \<open>Invariants of step relations\<close>

text \<open>The contract between a component's steps and its invariant, and what it gives for runs.\<close>

locale step_invariant =
  fixes step :: "'s \<Rightarrow> 's \<Rightarrow> bool" and inv :: "'s \<Rightarrow> bool"
  assumes preserved: "inv s \<Longrightarrow> step s t \<Longrightarrow> inv t"
begin

lemma run: "step\<^sup>*\<^sup>* s t \<Longrightarrow> inv s \<Longrightarrow> inv t"
  by (induction rule: rtranclp_induct) (auto intro: preserved)

end

text \<open>
  A component whose steps, from states of its invariant, are runs of an abstract specification;
  \<open>spec\<close> reads the abstract state off the concrete one.
\<close>

locale simulation = step_invariant +
  fixes abstract_step :: "'a \<Rightarrow> 'a \<Rightarrow> bool" and spec :: "'s \<Rightarrow> 'a"
  assumes simulates: "inv s \<Longrightarrow> step s t \<Longrightarrow> abstract_step\<^sup>*\<^sup>* (spec s) (spec t)"
begin

lemma simulated_run:
  assumes "step\<^sup>*\<^sup>* s t" and "inv s"
  shows "abstract_step\<^sup>*\<^sup>* (spec s) (spec t)"
  using assms
proof (induction rule: rtranclp_induct)
  case (step t u)
  then have "inv t" using run by blast
  then have "abstract_step\<^sup>*\<^sup>* (spec t) (spec u)" using step.hyps(2) by (rule simulates)
  then show ?case using step.IH [OF step.prems] by (rule rtranclp_trans [rotated])
qed simp

end

end
