(* ===== verification/Sequence.thy ===== *)
theory Sequence
  imports NKN_Prelude
begin

text \<open>
  Sequence numbers of the NCP session layer (\<^verbatim>\<open>src/utils.rs\<close>): stepping, interval membership,
  comparison, and the connection key. The sequence space is the \<open>2\<^sup>32 - 1\<close> numbers from
  \<open>MIN_SEQUENCE_ID = 1\<close> up; \<open>seq_add\<close> is its reference addition, and the lemmas show that
  the code's \<open>next_seq\<close> implements it, what \<open>seq_in_between\<close> decides, and where the
  order of \<open>compare_seq\<close> is total.
\<close>

section \<open>Definitions\<close>

abbreviation u32_MAX :: u32 where
  "u32_MAX \<equiv> 4294967295"

definition MIN_SEQUENCE_ID :: u32 where
  "MIN_SEQUENCE_ID = 1"

text \<open>
  \<open>next_seq\<close>: \<^verbatim>\<open>max\<close> is a \<^verbatim>\<open>u32\<close> computation cast to \<^verbatim>\<open>i64\<close>; the sum with \<^verbatim>\<open>step\<close> is \<^verbatim>\<open>i64\<close>
  arithmetic, which can overflow for a huge step; the remainder keeps the sign of the
  dividend, so a negative one is moved up by \<^verbatim>\<open>max\<close>.
\<close>

definition next_seq :: "profile \<Rightarrow> u32 \<Rightarrow> i64 \<Rightarrow> (u32, 'e) outcome" where
  "next_seq p seq step =
     and_then (sub_u p u32_MAX MIN_SEQUENCE_ID) (\<lambda>m0. and_then (add_u p m0 1) (\<lambda>m.
       let max = (ucast m :: i64) in
       and_then (sub_s p (ucast seq) (ucast MIN_SEQUENCE_ID)) (\<lambda>a.
       and_then (add_s p a step) (\<lambda>b.
         let res = rem_s b max;
             res = (if sint res < 0 then res + max else res)
         in Ok (ucast (res + ucast MIN_SEQUENCE_ID))))))"

definition seq_in_between :: "u32 \<Rightarrow> u32 \<Rightarrow> u32 \<Rightarrow> bool" where
  "seq_in_between seq start end =
     (if start \<le> end then start \<le> seq \<and> seq < end else start \<le> seq \<or> seq < end)"

text \<open>\<^verbatim>\<open>u32::MAX / 2\<close>; the subtractions cannot underflow, the branch has just compared.\<close>

definition compare_seq :: "u32 \<Rightarrow> u32 \<Rightarrow> int" where
  "compare_seq a b =
     (if a = b then 0
      else if a < b then (if b - a < u32_MAX div 2 then - 1 else 1)
      else (if a - b < u32_MAX div 2 then 1 else - 1))"

definition conn_key :: "string \<Rightarrow> string \<Rightarrow> string" where
  "conn_key local_client_id remote_client_id = local_client_id @ '' - '' @ remote_client_id"

record seq_elem =
  v :: u32

datatype ordering = Less | Equal | Greater

text \<open>\<open>Ord::cmp\<close> of \<^verbatim>\<open>SeqElem\<close>; \<open>partial_cmp\<close> is \<open>Some\<close> of the same value.\<close>

definition seq_cmp :: "seq_elem \<Rightarrow> seq_elem \<Rightarrow> ordering" where
  "seq_cmp x y =
     (let res = compare_seq (v x) (v y) in
      if res = 0 then Equal else if res = - 1 then Less else Greater)"

definition seq_partial_cmp :: "seq_elem \<Rightarrow> seq_elem \<Rightarrow> ordering option" where
  "seq_partial_cmp x y =
     (let res = compare_seq (v x) (v y) in
      if res = 0 then Some Equal else if res = - 1 then Some Less else Some Greater)"

section \<open>The sequence space\<close>

text \<open>The reference: addition modulo \<open>2\<^sup>32 - 1\<close> on the numbers from 1.\<close>

definition seq_add :: "u32 \<Rightarrow> int \<Rightarrow> u32" where
  "seq_add s k = word_of_int ((uint s - 1 + k) mod 4294967295 + 1)"

lemma uint_seq_add: "uint (seq_add s k) = (uint s - 1 + k) mod 4294967295 + 1"
proof -
  have "0 \<le> (uint s - 1 + k) mod 4294967295" "(uint s - 1 + k) mod 4294967295 < 4294967295"
    by simp_all
  then show ?thesis
    unfolding seq_add_def by (subst uint_word_of_int) (simp add: mod_pos_pos_trivial)
qed

lemma seq_add_not_0 [simp]: "seq_add s k \<noteq> 0"
proof
  assume "seq_add s k = 0"
  then have "uint (seq_add s k) = 0" by simp
  moreover have "0 \<le> (uint s - 1 + k) mod 4294967295" by simp
  ultimately show False by (simp add: uint_seq_add)
qed

lemma seq_add_add: "seq_add (seq_add s a) b = seq_add s (a + b)"
proof -
  have "uint (seq_add (seq_add s a) b) = uint (seq_add s (a + b))"
    unfolding uint_seq_add by (simp add: mod_add_left_eq add.assoc)
  then show ?thesis by (simp only: word_uint_eq_iff)
qed

lemma uint_u32_bounds: "0 \<le> uint (s :: u32)" "uint (s :: u32) < 4294967296"
  using uint_lt2p [of s] by simp_all

lemma u32_nonzero_uint: "(s :: u32) \<noteq> 0 \<longleftrightarrow> 1 \<le> uint s"
proof -
  have "s = 0 \<longleftrightarrow> uint s = 0" by (simp add: word_uint_eq_iff)
  then show ?thesis using uint_u32_bounds [of s] by linarith
qed

lemma seq_add_0: "s \<noteq> 0 \<Longrightarrow> seq_add s 0 = s"
proof -
  assume "s \<noteq> 0"
  then have "0 \<le> uint s - 1" "uint s - 1 < 4294967295"
    using uint_u32_bounds [of s] by (simp_all add: u32_nonzero_uint)
  then have "uint (seq_add s 0) = uint s"
    by (simp add: uint_seq_add mod_pos_pos_trivial)
  then show ?thesis by (simp only: word_uint_eq_iff)
qed

text \<open>The machine computation inside \<open>next_seq\<close>, for a step that cannot overflow \<^verbatim>\<open>i64\<close>.\<close>

lemma max_seq_eq: "sub_u p u32_MAX MIN_SEQUENCE_ID = Ok 4294967294"
  "add_u p (4294967294 :: u32) 1 = Ok u32_MAX"
  by (simp_all add: sub_u_def add_u_def MIN_SEQUENCE_ID_def overflow_def)

lemma smod_int_fix:
  fixes x m :: int
  assumes "0 < m"
  shows "(if x smod m < 0 then x smod m + m else x smod m) = x mod m"
proof -
  have "x mod m = x smod m + m * of_bool (sgn x \<noteq> sgn m \<and> \<not> m dvd x)"
    by (rule modulo_int_eq_signed_modulo_int)
  moreover have "0 \<le> x mod m" "x mod m < m" using assms by simp_all
  moreover have "x smod m < m" using smod_int_range [where a = x and b = m] assms by simp
  ultimately show ?thesis
    by (cases "sgn x \<noteq> sgn m \<and> \<not> m dvd x") auto
qed

lemma sint_word_of_int_64:
  assumes "- (9223372036854775808) \<le> k" and "k < 9223372036854775808"
  shows "sint (word_of_int k :: i64) = k"
  using assms unfolding sint_sbintrunc' by (intro signed_take_bit_int_eq_self) simp_all

lemma rem_fix_up:
  assumes x: "- (9223372036854775808) \<le> x" "x < 9223372036854775808"
  shows "(let res = rem_s (word_of_int x) (ucast u32_MAX) in
          if sint res < 0 then res + ucast u32_MAX else res) =
         (word_of_int (x mod 4294967295) :: i64)"
proof -
  have rr: "- 4294967295 < x smod 4294967295" "x smod 4294967295 < 4294967295"
    using smod_int_range [where a = x and b = 4294967295] by simp_all
  have r: "rem_s (word_of_int x) (ucast u32_MAX) = (word_of_int (x smod 4294967295) :: i64)"
    unfolding rem_s_def sint_word_of_int_64 [OF x] by simp
  have sr: "sint (word_of_int (x smod 4294967295) :: i64) = x smod 4294967295"
    using rr by (intro sint_word_of_int_64) linarith+
  have "word_of_int (x smod 4294967295) + ucast u32_MAX =
      (word_of_int (x smod 4294967295 + 4294967295) :: i64)"
    by simp
  then show ?thesis
    unfolding r Let_def sr smod_int_fix [of 4294967295 x, symmetric, simplified]
    by (simp only: if_distrib [of word_of_int] split: if_split)
qed

lemma ucast_u32_of_int: "(ucast (word_of_int k :: i64) :: u32) = word_of_int k"
  by (simp add: unsigned_of_int word_of_int_eq_iff take_bit_take_bit)

text \<open>The subtraction never overflows; the addition of \<^verbatim>\<open>step\<close> is the only place that may.\<close>

lemma next_seq_unfold:
  "next_seq p seq step =
     and_then (add_s p (word_of_int (uint seq - 1)) step) (\<lambda>b.
       Ok (ucast ((let res = rem_s b (ucast u32_MAX) in
          if sint res < 0 then res + ucast u32_MAX else res) + 1 :: i64)))"
  and sint_seq_minus_1: "sint (word_of_int (uint (seq :: u32) - 1) :: i64) = uint seq - 1"
proof -
  note b = uint_u32_bounds [of seq]
  have lo: "- 9223372036854775808 < uint seq" using b by linarith
  have sa: "sint (word_of_int (uint seq) :: i64) = uint seq"
    using b by (intro sint_word_of_int_64) linarith+
  have sub: "sub_s p (ucast seq :: i64) (ucast MIN_SEQUENCE_ID) = Ok (word_of_int (uint seq - 1))"
    using b lo sa by (subst sub_s_exact) (simp_all add: MIN_SEQUENCE_ID_def)
  show "next_seq p seq step =
     and_then (add_s p (word_of_int (uint seq - 1)) step) (\<lambda>b.
       Ok (ucast ((let res = rem_s b (ucast u32_MAX) in
          if sint res < 0 then res + ucast u32_MAX else res) + 1 :: i64)))"
    unfolding next_seq_def max_seq_eq and_then.simps sub Let_def
    by (simp add: MIN_SEQUENCE_ID_def)
  show "sint (word_of_int (uint seq - 1) :: i64) = uint seq - 1"
    using b by (intro sint_word_of_int_64) linarith+
qed

lemma next_seq_eq:
  assumes "- 4611686018427387904 \<le> sint step" and "sint step < 4611686018427387904"
  shows "next_seq p seq step = Ok (seq_add seq (sint step))"
proof -
  let ?x = "uint seq - 1 + sint step"
  have x: "- 9223372036854775808 \<le> ?x" "?x < 9223372036854775808"
    using uint_u32_bounds [of seq] assms by linarith+
  then have "in_signed_range TYPE(64) (sint (word_of_int (uint seq - 1) :: i64) + sint step)"
    unfolding sint_seq_minus_1 by simp
  then have add: "add_s p (word_of_int (uint seq - 1)) step = Ok (word_of_int ?x)" for p
    by (simp add: add_s_exact)
  show ?thesis
    unfolding next_seq_unfold add and_then.simps rem_fix_up [OF x]
    using ucast_u32_of_int [of "?x mod 4294967295 + 1"] by (simp add: seq_add_def)
qed

lemma next_seq_back:
  assumes "- 4611686018427387904 < sint a" and "sint a \<le> 4611686018427387904"
  shows "next_seq p (seq_add s (sint a)) (- a) = Ok (seq_add s 0)"
proof -
  have "sint (- a) = - sint a" using assms by (intro sint_minus_64) linarith
  then show ?thesis
    using assms by (simp add: next_seq_eq seq_add_add)
qed

section \<open>Interval membership\<close>

text \<open>
  Read as its parameters are named, \<open>seq_in_between seq start end\<close> is membership in the
  circular half-open interval: the distance from \<open>start\<close> to \<open>seq\<close>, modulo
  \<open>2\<^sup>32\<close>, is below the distance from \<open>start\<close> to \<open>end\<close>.
\<close>

lemma circular_interval_int:
  fixes x s e :: int
  assumes "0 \<le> x" "x < m" "0 \<le> s" "s < m" "0 \<le> e" "e < m"
  shows "(if s \<le> e then s \<le> x \<and> x < e else s \<le> x \<or> x < e) \<longleftrightarrow>
    (if s \<le> x then x - s else x - s + m) < (if s \<le> e then e - s else e - s + m)"
  using assms by auto

lemma seq_in_between_iff: "seq_in_between seq start end \<longleftrightarrow> seq - start < end - start"
  unfolding seq_in_between_def word_less_def word_le_def uint_sub_if'
  by (rule circular_interval_int) (use uint_u32_bounds in \<open>simp_all\<close>)

section \<open>Comparison\<close>

text \<open>The comparison on the unsigned values.\<close>

lemma compare_seq_uint:
  "compare_seq a b =
     (if uint a = uint b then 0
      else if uint a < uint b then (if uint b - uint a < 2147483647 then - 1 else 1)
      else (if uint a - uint b < 2147483647 then 1 else - 1))"
  unfolding compare_seq_def word_uint_eq_iff word_less_def uint_sub_if'
  by auto

lemma compare_seq_range: "compare_seq a b \<in> {- 1, 0, 1}"
  by (simp add: compare_seq_def)

lemma compare_seq_0_iff: "compare_seq a b = 0 \<longleftrightarrow> a = b"
  by (simp add: compare_seq_def)

lemma compare_seq_antisym: "compare_seq b a = - compare_seq a b"
  by (simp add: compare_seq_uint)

text \<open>A number at most \<open>2\<^sup>31 - 2\<close> steps ahead compares greater, across the wrap-around too.\<close>

lemma compare_seq_ahead:
  assumes "s \<noteq> 0" and "0 < k" and "k < 2147483647"
  shows "compare_seq (seq_add s k) s = 1"
proof -
  have s: "1 \<le> uint s" "uint s < 4294967296"
    using assms(1) uint_u32_bounds [of s] by (simp_all add: u32_nonzero_uint)
  show ?thesis
  proof (cases "uint s + k < 4294967296")
    case True
    then have "uint (seq_add s k) = uint s + k"
      using s assms by (simp add: uint_seq_add mod_pos_pos_trivial)
    then show ?thesis using assms by (simp add: compare_seq_uint)
  next
    case False
    have "(uint s - 1 + k) mod 4294967295 = (uint s - 1 + k - 4294967295) mod 4294967295"
      by (simp only: minus_mod_self2)
    also have "\<dots> = uint s - 1 + k - 4294967295"
      using False s assms by (intro mod_pos_pos_trivial) linarith+
    finally have "uint (seq_add s k) = uint s + k - 4294967295"
      by (simp add: uint_seq_add)
    then show ?thesis using assms s by (simp add: compare_seq_uint)
  qed
qed

text \<open>
  Inside a window of \<open>2\<^sup>31 - 1\<close> consecutive numbers the comparison is the order of the
  offsets, whatever the window's base.
\<close>

lemma compare_seq_offsets:
  assumes "s \<noteq> 0" "0 \<le> i" "i < 2147483647" "0 \<le> j" "j < 2147483647"
  shows "compare_seq (seq_add s i) (seq_add s j) = sgn (i - j)"
proof -
  have ahead: "compare_seq (seq_add s y) (seq_add s x) = 1"
    if "0 \<le> x" "x < y" "y < 2147483647" for x y
    using compare_seq_ahead [of "seq_add s x" "y - x"] that by (simp add: seq_add_add)
  show ?thesis
    using ahead [of i j] ahead [of j i] assms compare_seq_antisym [of "seq_add s j" "seq_add s i"]
    by (cases i j rule: linorder_cases) (simp_all add: compare_seq_0_iff)
qed

section \<open>Properties\<close>



text \<open>C2: in a debug build \<open>next_seq\<close> panics exactly when \<open>seq - 1 + step\<close> leaves the range of
  \<^verbatim>\<open>i64\<close>; in a release build it always returns a number.\<close>

theorem next_seq_panics:
  "(next_seq Debug s step = Panic \<longleftrightarrow>
      \<not> (- 9223372036854775808 \<le> uint s - 1 + sint step \<and>
         uint s - 1 + sint step < 9223372036854775808)) \<and>
   (\<exists>t. next_seq Release s step = Ok t)"
  unfolding next_seq_unfold
  by (simp add: add_s_def sint_seq_minus_1 [simplified] overflow_def)

text \<open>C23: \<open>seq_in_between seq start end\<close> decides membership of \<open>seq\<close> in the half-open
  circular interval from \<open>start\<close> to \<open>end\<close>: the empty interval has no member, and an interval
  and its complement partition the 32-bit numbers.\<close>

theorem seq_in_between_circular:
  "(seq_in_between seq start end \<longleftrightarrow> seq - start < end - start) \<and>
   \<not> seq_in_between seq start start \<and>
   (start \<noteq> end \<longrightarrow> seq_in_between seq start end \<noteq> seq_in_between seq end start)"
proof (intro conjI impI)
  show "seq_in_between seq start end \<longleftrightarrow> seq - start < end - start"
    by (rule seq_in_between_iff)
  show "\<not> seq_in_between seq start start"
    by (simp add: seq_in_between_iff)
  assume "start \<noteq> end"
  then show "seq_in_between seq start end \<noteq> seq_in_between seq end start"
    by (cases start "end" rule: linorder_cases)
      (auto simp: seq_in_between_def not_less not_le)
qed

theorem seq_in_between_circular_witness:
  "(1 :: u32) \<noteq> 4 \<and> seq_in_between 2 1 4 \<noteq> seq_in_between 2 4 1"
  using seq_in_between_circular [of 2 1 4] by (simp add: seq_in_between_def)

text \<open>C24: inside a window of \<open>2\<^sup>31 - 1\<close> consecutive sequence numbers, wherever it starts and
  across the wrap-around, \<open>compare_seq\<close> and the \<^verbatim>\<open>Ord\<close> instance of \<^verbatim>\<open>SeqElem\<close> order the numbers
  by their distance from the window's start.\<close>

theorem compare_seq_window:
  assumes "s \<noteq> 0" "0 \<le> i" "i < 2147483647" "0 \<le> j" "j < 2147483647"
  shows "compare_seq (seq_add s i) (seq_add s j) = sgn (i - j) \<and>
    seq_cmp \<lparr>v = seq_add s i\<rparr> \<lparr>v = seq_add s j\<rparr> =
      (if i = j then Equal else if i < j then Less else Greater) \<and>
    seq_partial_cmp \<lparr>v = seq_add s i\<rparr> \<lparr>v = seq_add s j\<rparr> =
      Some (seq_cmp \<lparr>v = seq_add s i\<rparr> \<lparr>v = seq_add s j\<rparr>)"
  using compare_seq_offsets [OF assms] by (simp add: seq_cmp_def seq_partial_cmp_def)

theorem compare_seq_window_witness:
  "compare_seq (seq_add 4294967294 0) (seq_add 4294967294 3) = sgn (0 - 3 :: int)"
  using compare_seq_window [of 4294967294 0 3] by simp

text \<open>C5: \<open>compare_seq\<close> is antisymmetric everywhere, but on the whole space it is not
  transitive, so the \<^verbatim>\<open>Ord\<close> instance of \<^verbatim>\<open>SeqElem\<close> breaks the contract that \<^verbatim>\<open>BinaryHeap\<close> relies
  on: three numbers half the space apart form a cycle.\<close>

theorem seq_cmp_not_transitive:
  "(\<forall>a b. compare_seq b a = - compare_seq a b) \<and>
   seq_cmp \<lparr>v = 1\<rparr> \<lparr>v = 1073741825\<rparr> = Less \<and>
   seq_cmp \<lparr>v = 1073741825\<rparr> \<lparr>v = 2147483649\<rparr> = Less \<and>
   seq_cmp \<lparr>v = 1\<rparr> \<lparr>v = 2147483649\<rparr> = Greater"
  by (intro conjI allI, rule compare_seq_antisym) (simp_all add: seq_cmp_def compare_seq_def)

end
