(* ===== verification/Rust_Std.thy ===== *)
theory Rust_Std
  imports NKN_Prelude
begin

text \<open>
  What the program uses of Rust's standard library on strings: \<^verbatim>\<open>str::split\<close> on a character and
  \<^verbatim>\<open>join\<close>, UTF-8 validation (\<^verbatim>\<open>str::from_utf8\<close>), the lossy conversion (\<^verbatim>\<open>String::from_utf8_lossy\<close>)
  and the decimal rendering of a non-negative number. These definitions are the standard
  library's; the component theories call them where the source does.
\<close>

section \<open>split and join\<close>

fun split_on :: "char \<Rightarrow> string \<Rightarrow> string list" where
  "split_on c [] = [[]]"
| "split_on c (x # xs) =
     (if x = c then [] # split_on c xs
      else case split_on c xs of [] \<Rightarrow> [[x]] | p # ps \<Rightarrow> (x # p) # ps)"

fun join_with :: "string \<Rightarrow> string list \<Rightarrow> string" where
  "join_with sep [] = []"
| "join_with sep [p] = p"
| "join_with sep (p # q # ps) = p @ sep @ join_with sep (q # ps)"

lemma split_on_not_Nil [simp]: "split_on c s \<noteq> []"
  by (induction s) (auto split: list.splits)

lemma split_on_absent: "c \<notin> set s \<Longrightarrow> split_on c s = [s]"
  by (induction s) auto

lemma split_on_append: "split_on c (s @ c # t) = split_on c s @ split_on c t"
  by (induction s) (auto split: list.splits)

lemma join_with_Cons: "ps \<noteq> [] \<Longrightarrow> join_with sep (p # ps) = p @ sep @ join_with sep ps"
  by (cases ps) auto

lemma join_split: "join_with [c] (split_on c s) = s"
proof (induction s)
  case (Cons x xs)
  obtain p ps where sp: "split_on c xs = p # ps"
    using split_on_not_Nil [of c xs] by (cases "split_on c xs") auto
  show ?case
  proof (cases "x = c")
    case True
    then show ?thesis using Cons by (simp add: join_with_Cons)
  next
    case False
    then show ?thesis using Cons sp by (cases ps) simp_all
  qed
qed simp

lemma split_on_pieces: "p \<in> set (split_on c s) \<Longrightarrow> c \<notin> set p"
  by (induction s arbitrary: p) (auto split: list.splits if_splits)

lemma join_with_append:
  "ps \<noteq> [] \<Longrightarrow> qs \<noteq> [] \<Longrightarrow> join_with sep (ps @ qs) = join_with sep ps @ sep @ join_with sep qs"
proof (induction ps)
  case (Cons p ps)
  then show ?case by (cases "ps = []") (simp_all add: join_with_Cons)
qed simp

section \<open>UTF-8\<close>

text \<open>
  One scanning step of \<^verbatim>\<open>core::str\<close>: how many bytes belong together at the front of a non-empty
  input, and whether they are a character. An ill-formed sequence is its longest prefix that
  could start a character; a missing byte reads as 0, which continues nothing.
\<close>

definition byte_at :: "bytes \<Rightarrow> nat \<Rightarrow> u8" where
  "byte_at bs i = (if i < length bs then bs ! i else 0)"

definition continues :: "u8 \<Rightarrow> bool" where
  "continues b \<longleftrightarrow> 0x80 \<le> b \<and> b \<le> 0xBF"

definition second3 :: "u8 \<Rightarrow> u8 \<Rightarrow> bool" where
  "second3 b c \<longleftrightarrow>
     (if b = 0xE0 then 0xA0 \<le> c \<and> c \<le> 0xBF
      else if b = 0xED then 0x80 \<le> c \<and> c \<le> 0x9F else continues c)"

definition second4 :: "u8 \<Rightarrow> u8 \<Rightarrow> bool" where
  "second4 b c \<longleftrightarrow>
     (if b = 0xF0 then 0x90 \<le> c \<and> c \<le> 0xBF
      else if b = 0xF4 then 0x80 \<le> c \<and> c \<le> 0x8F else continues c)"

definition utf8_scan :: "u8 \<Rightarrow> bytes \<Rightarrow> bool \<times> nat" where
  "utf8_scan b r =
     (if b < 0x80 then (True, 1)
      else if 0xC2 \<le> b \<and> b \<le> 0xDF then
        (if continues (byte_at r 0) then (True, 2) else (False, 1))
      else if 0xE0 \<le> b \<and> b \<le> 0xEF then
        (if \<not> second3 b (byte_at r 0) then (False, 1)
         else if \<not> continues (byte_at r 1) then (False, 2) else (True, 3))
      else if 0xF0 \<le> b \<and> b \<le> 0xF4 then
        (if \<not> second4 b (byte_at r 0) then (False, 1)
         else if \<not> continues (byte_at r 1) then (False, 2)
         else if \<not> continues (byte_at r 2) then (False, 3) else (True, 4))
      else (False, 1))"

lemma utf8_scan_pos: "0 < snd (utf8_scan b r)"
  by (simp add: utf8_scan_def)

function utf8_lossy :: "bytes \<Rightarrow> bytes" where
  "utf8_lossy [] = []"
| "utf8_lossy (b # r) =
     (let (ok, n) = utf8_scan b r in
      (if ok then take n (b # r) else [0xEF, 0xBF, 0xBD]) @ utf8_lossy (drop n (b # r)))"
  by pat_completeness auto
termination
  by (relation "measure length") (use utf8_scan_pos in \<open>auto simp: prod_eq_iff\<close>)

function utf8_valid :: "bytes \<Rightarrow> bool" where
  "utf8_valid [] = True"
| "utf8_valid (b # r) = (let (ok, n) = utf8_scan b r in ok \<and> utf8_valid (drop n (b # r)))"
  by pat_completeness auto
termination
  by (relation "measure length") (use utf8_scan_pos in \<open>auto simp: prod_eq_iff\<close>)

text \<open>\<^verbatim>\<open>str::from_utf8\<close> and \<^verbatim>\<open>String::from_utf8_lossy\<close>.\<close>

definition from_utf8 :: "bytes \<Rightarrow> string option" where
  "from_utf8 bs = (if utf8_valid bs then Some (of_bytes bs) else None)"

definition from_utf8_lossy :: "bytes \<Rightarrow> string" where
  "from_utf8_lossy bs = of_bytes (utf8_lossy bs)"

text \<open>On valid input the lossy conversion changes nothing.\<close>

lemma utf8_lossy_valid: "utf8_valid bs \<Longrightarrow> utf8_lossy bs = bs"
  by (induction bs rule: utf8_lossy.induct) (auto simp: Let_def split: prod.splits)

text \<open>A byte that starts no character becomes a replacement character by itself.\<close>

lemma utf8_lossy_stray:
  "0x80 \<le> b \<Longrightarrow> b < 0xC2 \<Longrightarrow> utf8_lossy (replicate n b) = concat (replicate n [0xEF, 0xBF, 0xBD])"
proof (induction n)
  case (Suc n)
  then have "\<not> b < 0x80" "\<not> 0xC2 \<le> b" "\<not> 0xE0 \<le> b" "\<not> 0xF0 \<le> b"
    by (simp_all add: word_less_nat_alt word_le_nat_alt)
  then have "utf8_scan b (replicate n b) = (False, 1)"
    by (simp add: utf8_scan_def)
  then show ?case using Suc by simp
qed simp

section \<open>Decimal rendering\<close>

function show_nat :: "nat \<Rightarrow> string" where
  "show_nat n = (if n < 10 then [char_of (48 + n)] else show_nat (n div 10) @ [char_of (48 + n mod 10)])"
  by pat_completeness auto
termination
  by (relation "measure id") auto

declare show_nat.simps [simp del]

abbreviation is_digit :: "char \<Rightarrow> bool" where
  "is_digit c \<equiv> 48 \<le> (of_char c :: nat) \<and> (of_char c :: nat) \<le> 57"

lemma show_nat_not_Nil [simp]: "show_nat n \<noteq> []"
  by (subst show_nat.simps) simp

lemma show_nat_digits: "c \<in> set (show_nat n) \<Longrightarrow> is_digit c"
proof (induction n rule: show_nat.induct)
  case (1 n)
  have d: "is_digit (char_of (48 + m))" if "m < 10" for m :: nat
    using that by (simp add: of_char_of)
  show ?case
  proof (cases "n < 10")
    case True
    then show ?thesis using "1.prems" d by (subst (asm) show_nat.simps) simp
  next
    case False
    then show ?thesis
      using "1.prems" "1.IH" d [of "n mod 10"] by (subst (asm) show_nat.simps) auto
  qed
qed

end
