(* ===== verification/Serialization.thy ===== *)
theory Serialization
  imports Rust_Std
begin

text \<open>
  The binary writers and readers of \<^verbatim>\<open>src/serialization.rs\<close>. A writer appends to its
  \<^verbatim>\<open>Vec<u8>\<close>; a reader drains the front of it, and panics when the vector is too short. The
  integer codecs of the \<^verbatim>\<open>bytes\<close> crate are the parameter \<open>buf_crate\<close>; what the code relies
  on is \<open>buf_laws\<close>, and \<open>be_crate\<close> is the big-endian codec the crate documents. The locale
  \<open>prefix_code\<close> is the interface that \<open>sigchain.rs\<close> relies on: an encoding whose end can be
  found without a separator.
\<close>

section \<open>The integer codecs of the bytes crate\<close>

record buf_crate =
  put_u8 :: "u8 \<Rightarrow> bytes"
  put_u16 :: "u16 \<Rightarrow> bytes"
  put_u32 :: "u32 \<Rightarrow> bytes"
  put_u64 :: "u64 \<Rightarrow> bytes"
  get_u16 :: "bytes \<Rightarrow> u16"
  get_u32 :: "bytes \<Rightarrow> u32"
  get_u64 :: "bytes \<Rightarrow> u64"

definition buf_laws :: "buf_crate \<Rightarrow> bool" where
  "buf_laws bc \<longleftrightarrow>
     (\<forall>x. put_u8 bc x = [x]) \<and>
     (\<forall>x. length (put_u16 bc x) = 2 \<and> get_u16 bc (put_u16 bc x) = x) \<and>
     (\<forall>x. length (put_u32 bc x) = 4 \<and> get_u32 bc (put_u32 bc x) = x) \<and>
     (\<forall>x. length (put_u64 bc x) = 8 \<and> get_u64 bc (put_u64 bc x) = x)"

text \<open>Big-endian digits of a word, and the word of a list of digits.\<close>

definition be_put :: "nat \<Rightarrow> 'n::len word \<Rightarrow> bytes" where
  "be_put n w = map (\<lambda>i. ucast (drop_bit (8 * i) w)) (rev [0..<n])"

definition be_get :: "bytes \<Rightarrow> 'n::len word" where
  "be_get bs = foldl (\<lambda>acc b. push_bit 8 acc + ucast b) 0 bs"

definition be_crate :: buf_crate where
  "be_crate = \<lparr>put_u8 = (\<lambda>x. [x]), put_u16 = be_put 2, put_u32 = be_put 4, put_u64 = be_put 8,
     get_u16 = be_get, get_u32 = be_get, get_u64 = be_get\<rparr>"

section \<open>Writers and readers\<close>

definition write_var_u64 :: "buf_crate \<Rightarrow> bytes \<Rightarrow> u64 \<Rightarrow> bytes" where
  "write_var_u64 bc bs val =
     bs @ (if val < 0xFD then take 1 (put_u8 bc (ucast val))
           else if val \<le> 0xFFFF then take 3 (put_u8 bc 0xFD @ put_u16 bc (ucast val))
           else if val \<le> 0xFFFFFFFF then take 5 (put_u8 bc 0xFE @ put_u32 bc (ucast val))
           else put_u8 bc 0xFF @ put_u64 bc val)"

text \<open>\<^verbatim>\<open>bytes.drain(0..n)\<close>: the front \<open>n\<close> bytes leave the vector; out of range panics.\<close>

definition drain :: "nat \<Rightarrow> bytes \<Rightarrow> (bytes \<times> bytes, 'e) outcome" where
  "drain n bs = (if n \<le> length bs then Ok (take n bs, drop n bs) else Panic)"

definition read_u8 :: "bytes \<Rightarrow> (u8 \<times> bytes, 'e) outcome" where
  "read_u8 bs = and_then (drain 1 bs) (\<lambda>(d, bs).
     and_then (unwrap (case d of [] \<Rightarrow> None | x # _ \<Rightarrow> Some x)) (\<lambda>x. Ok (x, bs)))"

definition read_u16 :: "buf_crate \<Rightarrow> bytes \<Rightarrow> (u16 \<times> bytes, 'e) outcome" where
  "read_u16 bc bs = and_then (drain 2 bs) (\<lambda>(d, bs). Ok (get_u16 bc d, bs))"

definition read_u32 :: "buf_crate \<Rightarrow> bytes \<Rightarrow> (u32 \<times> bytes, 'e) outcome" where
  "read_u32 bc bs = and_then (drain 4 bs) (\<lambda>(d, bs). Ok (get_u32 bc d, bs))"

definition read_u64 :: "buf_crate \<Rightarrow> bytes \<Rightarrow> (u64 \<times> bytes, 'e) outcome" where
  "read_u64 bc bs = and_then (drain 8 bs) (\<lambda>(d, bs). Ok (get_u64 bc d, bs))"

definition read_var_u64 :: "buf_crate \<Rightarrow> bytes \<Rightarrow> (u64 \<times> bytes, 'e) outcome" where
  "read_var_u64 bc bs = and_then (read_u8 bs) (\<lambda>(size, bs).
     if size = 0xFD then and_then (read_u16 bc bs) (\<lambda>(x, bs). Ok (ucast x, bs))
     else if size = 0xFE then and_then (read_u32 bc bs) (\<lambda>(x, bs). Ok (ucast x, bs))
     else if size = 0xFF then read_u64 bc bs
     else and_then (read_u8 bs) (\<lambda>(x, bs). Ok (ucast x, bs)))"

definition write_var_bytes :: "buf_crate \<Rightarrow> bytes \<Rightarrow> bytes \<Rightarrow> bytes" where
  "write_var_bytes bc bs val = write_var_u64 bc bs (of_nat (length val)) @ val"

definition read_var_bytes :: "buf_crate \<Rightarrow> bytes \<Rightarrow> (bytes \<times> bytes, 'e) outcome" where
  "read_var_bytes bc bs = and_then (read_var_u64 bc bs) (\<lambda>(len, bs). drain (unat len) bs)"

definition write_var_str :: "buf_crate \<Rightarrow> bytes \<Rightarrow> string \<Rightarrow> bytes" where
  "write_var_str bc bs val = write_var_u64 bc bs (of_nat (length val)) @ as_bytes val"

definition read_var_str :: "buf_crate \<Rightarrow> bytes \<Rightarrow> (string \<times> bytes, 'e) outcome" where
  "read_var_str bc bs = and_then (read_var_bytes bc bs) (\<lambda>(value, bs).
     and_then (unwrap (from_utf8 value)) (\<lambda>s. Ok (s, bs)))"

definition write_u8 :: "bytes \<Rightarrow> u8 \<Rightarrow> bytes" where
  "write_u8 bs val = bs @ [val]"

definition write_u16 :: "buf_crate \<Rightarrow> bytes \<Rightarrow> u16 \<Rightarrow> bytes" where
  "write_u16 bc bs val = bs @ put_u16 bc val"

definition write_u32 :: "buf_crate \<Rightarrow> bytes \<Rightarrow> u32 \<Rightarrow> bytes" where
  "write_u32 bc bs val = bs @ put_u32 bc val"

definition write_u64 :: "buf_crate \<Rightarrow> bytes \<Rightarrow> u64 \<Rightarrow> bytes" where
  "write_u64 bc bs val = bs @ put_u64 bc val"

definition write_bool :: "bytes \<Rightarrow> bool \<Rightarrow> bytes" where
  "write_bool bs val = write_u8 bs (if val then 1 else 0)"

definition read_bool :: "bytes \<Rightarrow> (bool \<times> bytes, 'e) outcome" where
  "read_bool bs = and_then (read_u8 bs) (\<lambda>(x, bs). Ok (x \<noteq> 0, bs))"

lemma read_u8_Nil [simp]: "read_u8 [] = Panic"
  by (simp add: read_u8_def drain_def)

section \<open>Encodings that carry their own end\<close>

locale prefix_code =
  fixes enc :: "'a \<Rightarrow> bytes" and valid :: "'a \<Rightarrow> bool"
  assumes prefix_free: "valid a \<Longrightarrow> valid b \<Longrightarrow> enc a @ r = enc b @ s \<Longrightarrow> a = b \<and> r = s"
begin

lemma cancel:
  assumes "valid a" "valid b"
  shows "enc a @ r = enc b @ s \<longleftrightarrow> a = b \<and> r = s"
  using prefix_free [OF assms] by auto

lemma enc_injective: "valid a \<Longrightarrow> valid b \<Longrightarrow> enc a = enc b \<Longrightarrow> a = b"
  using prefix_free [of a b "[]" "[]"] by simp

end

text \<open>A reader that undoes the writer on any continuation makes the writer a prefix code.\<close>

locale codec =
  fixes enc :: "'a \<Rightarrow> bytes" and dec :: "bytes \<Rightarrow> ('a \<times> bytes, unit) outcome"
    and valid :: "'a \<Rightarrow> bool"
  assumes dec_enc: "valid a \<Longrightarrow> dec (enc a @ r) = Ok (a, r)"

sublocale codec \<subseteq> prefix_code enc valid
proof
  fix a b r s
  assume "valid a" "valid b" and eq: "enc a @ r = enc b @ s"
  then have "dec (enc b @ s) = Ok (a, r)" "dec (enc b @ s) = Ok (b, s)"
    using dec_enc [of a r] dec_enc [of b s] by (simp_all only: eq)
  then show "a = b \<and> r = s" by simp
qed

text \<open>The length prefix read the way it is written: the byte below \<^verbatim>\<open>0xFD\<close> is the value.\<close>

definition var_u64_reference :: "buf_crate \<Rightarrow> bytes \<Rightarrow> (u64 \<times> bytes, 'e) outcome" where
  "var_u64_reference bc bs = and_then (read_u8 bs) (\<lambda>(size, bs).
     if size = 0xFD then and_then (read_u16 bc bs) (\<lambda>(x, bs). Ok (ucast x, bs))
     else if size = 0xFE then and_then (read_u32 bc bs) (\<lambda>(x, bs). Ok (ucast x, bs))
     else if size = 0xFF then read_u64 bc bs
     else Ok (ucast size, bs))"

definition var_bytes_reference :: "buf_crate \<Rightarrow> bytes \<Rightarrow> (bytes \<times> bytes, 'e) outcome" where
  "var_bytes_reference bc bs =
     and_then (var_u64_reference bc bs) (\<lambda>(len, bs). drain (unat len) bs)"

abbreviation fits_u64 :: "bytes \<Rightarrow> bool" where
  "fits_u64 bs \<equiv> length bs < 18446744073709551616"

text \<open>What the code gets from a \<^verbatim>\<open>bytes\<close> crate that satisfies its documented laws.\<close>

locale buf_provider =
  fixes bc :: buf_crate
  assumes laws: "buf_laws bc"
begin

lemma put_u8_eq [simp]: "put_u8 bc x = [x]"
  using laws by (simp add: buf_laws_def)

lemma length_put [simp]:
  "length (put_u16 bc x) = 2" "length (put_u32 bc y) = 4" "length (put_u64 bc z) = 8"
  using laws by (simp_all add: buf_laws_def)

lemma get_put [simp]:
  "get_u16 bc (put_u16 bc x) = x" "get_u32 bc (put_u32 bc y) = y" "get_u64 bc (put_u64 bc z) = z"
  using laws by (simp_all add: buf_laws_def)

lemma read_u8_Cons [simp]: "read_u8 (x # bs) = Ok (x, bs)"
  by (simp add: read_u8_def drain_def)

lemma drain_append: "n = length d \<Longrightarrow> drain n (d @ bs) = Ok (d, bs)"
  by (simp add: drain_def)

lemma read_word_put [simp]:
  "read_u16 bc (put_u16 bc x @ bs) = Ok (x, bs)"
  "read_u32 bc (put_u32 bc y @ bs) = Ok (y, bs)"
  "read_u64 bc (put_u64 bc z @ bs) = Ok (z, bs)"
  by (simp_all add: read_u16_def read_u32_def read_u64_def drain_append)

lemma write_var_u64_append: "write_var_u64 bc bs val = bs @ write_var_u64 bc [] val"
  by (simp add: write_var_u64_def)

lemma write_var_bytes_append: "write_var_bytes bc bs val = bs @ write_var_bytes bc [] val"
  by (simp add: write_var_bytes_def write_var_u64_append [of bs])

lemma write_var_u64_eq:
  "write_var_u64 bc [] val =
     (if val < 0xFD then [ucast val]
      else if val \<le> 0xFFFF then 0xFD # put_u16 bc (ucast val)
      else if val \<le> 0xFFFFFFFF then 0xFE # put_u32 bc (ucast val)
      else 0xFF # put_u64 bc val)"
  by (simp add: write_var_u64_def)

lemma small_marker:
  assumes "val < (0xFD :: u64)"
  shows "(ucast (ucast val :: u8) :: u64) = val"
    and "(ucast val :: u8) \<noteq> 0xFD" "(ucast val :: u8) \<noteq> 0xFE" "(ucast val :: u8) \<noteq> 0xFF"
proof -
  show eq: "(ucast (ucast val :: u8) :: u64) = val"
    using assms by (intro ucast_ucast_fits) (simp add: word_less_nat_alt)
  show "(ucast val :: u8) \<noteq> 0xFD" "(ucast val :: u8) \<noteq> 0xFE" "(ucast val :: u8) \<noteq> 0xFF"
    using assms eq by auto
qed

lemma read_large:
  assumes "\<not> val < (0xFD :: u64)"
  shows "read_var_u64 bc (write_var_u64 bc [] val @ r) = Ok (val, r)"
    and "var_u64_reference bc (write_var_u64 bc [] val @ r) = Ok (val, r)"
  using assms
  by (auto simp: write_var_u64_eq read_var_u64_def var_u64_reference_def word_le_nat_alt
      intro!: ucast_ucast_fits)

lemma reference_reads: "var_u64_reference bc (write_var_u64 bc [] val @ r) = Ok (val, r)"
proof (cases "val < 0xFD")
  case True
  then show ?thesis
    using small_marker [OF True] by (simp add: write_var_u64_eq var_u64_reference_def)
qed (rule read_large)

lemma length_prefix: "fits_u64 bs \<Longrightarrow> unat (of_nat (length bs) :: u64) = length bs"
  by (simp add: unat_of_nat)

lemma reference_reads_bytes:
  "fits_u64 bs \<Longrightarrow> var_bytes_reference bc (write_var_bytes bc [] bs @ r) = Ok (bs, r)"
  by (simp add: var_bytes_reference_def write_var_bytes_def reference_reads length_prefix drain_append)

end

sublocale buf_provider \<subseteq> u32c: codec "put_u32 bc" "read_u32 bc" "\<lambda>_. True"
  by unfold_locales simp

sublocale buf_provider \<subseteq> boolc: codec "write_bool []" read_bool "\<lambda>_. True"
  by unfold_locales (simp add: write_bool_def write_u8_def read_bool_def)

sublocale buf_provider \<subseteq> varc: codec "write_var_u64 bc []" "var_u64_reference bc" "\<lambda>_. True"
  by unfold_locales (rule reference_reads)

sublocale buf_provider \<subseteq> vbc: codec "write_var_bytes bc []" "var_bytes_reference bc" fits_u64
  by unfold_locales (rule reference_reads_bytes)

section \<open>The documented big-endian codec satisfies the laws\<close>

lemma be_put_Suc: "be_put (Suc n) w = ucast (drop_bit (8 * n) w) # be_put n w"
  by (simp add: be_put_def)

lemma take_bit_next_digit:
  fixes w :: "'n::len word"
  shows "push_bit m (take_bit k (drop_bit m w)) + take_bit m w = take_bit (m + k) w"
proof -
  have "push_bit m (drop_bit m (take_bit (m + k) w)) + take_bit m (take_bit (m + k) w) =
      take_bit (m + k) w"
    by (rule bits_ident)
  then show ?thesis by (simp add: drop_bit_take_bit)
qed

lemma be_get_put_acc:
  fixes w :: "'n::len word"
  shows "foldl (\<lambda>acc b. push_bit 8 acc + ucast b) acc (be_put n w) =
    push_bit (8 * n) acc + take_bit (8 * n) w"
proof (induction n arbitrary: acc)
  case 0
  show ?case by (simp add: be_put_def)
next
  case (Suc n)
  have digit: "ucast (ucast x :: u8) = take_bit 8 x" for x :: "'n word"
    by (simp add: unsigned_ucast_eq)
  have "push_bit (8 * n) (push_bit 8 acc + take_bit 8 (drop_bit (8 * n) w)) + take_bit (8 * n) w =
      push_bit (8 * Suc n) acc + take_bit (8 * Suc n) w"
    using take_bit_next_digit [of "8 * n" 8 w] by (simp add: push_bit_add ac_simps)
  then show ?case
    by (simp add: be_put_Suc Suc digit)
qed

lemma be_get_put: "be_get (be_put n w :: bytes) = take_bit (8 * n) (w :: 'n::len word)"
  by (simp add: be_get_def be_get_put_acc)

lemma length_be_put [simp]: "length (be_put n w) = n"
  by (simp add: be_put_def)

interpretation be: buf_provider be_crate
  by unfold_locales (simp add: buf_laws_def be_crate_def be_get_put take_bit_word_eq_self)

section \<open>Properties\<close>

text \<open>C24: a length or number from \<^verbatim>\<open>0xFD\<close> up that \<open>write_var_u64\<close> wrote is read back by
  \<open>read_var_u64\<close>, and what follows it is left in the buffer.\<close>

theorem read_var_u64_roundtrip:
  assumes "buf_laws bc" and "0xFD \<le> val"
  shows "read_var_u64 bc (write_var_u64 bc [] val @ rest) = Ok (val, rest)"
proof -
  have "buf_provider bc" using assms(1) by (rule buf_provider.intro)
  then show ?thesis using assms(2) by (simp add: buf_provider.read_large not_less)
qed

theorem read_var_u64_roundtrip_witness:
  "buf_laws be_crate \<and>
   read_var_u64 be_crate (write_var_u64 be_crate [] 70000 @ [7]) = Ok (70000, [7])"
  using read_var_u64_roundtrip [OF be.laws, of 70000 "[7]"] be.laws by simp

text \<open>C7: below \<^verbatim>\<open>0xFD\<close> the reader does not undo the writer: it drops the byte that holds the
  value and returns the byte after it, and panics when there is none.\<close>

theorem read_var_u64_small_lost:
  assumes "buf_laws bc" and "val < 0xFD"
  shows "read_var_u64 bc (write_var_u64 bc [] val @ rest) =
    (case rest of [] \<Rightarrow> Panic | b # bs \<Rightarrow> Ok (ucast b, bs))"
proof -
  have p: "buf_provider bc" using assms(1) by (rule buf_provider.intro)
  show ?thesis
    using assms(2) buf_provider.small_marker [OF p assms(2)]
    by (simp add: read_var_u64_def buf_provider.write_var_u64_eq [OF p]
        buf_provider.read_u8_Cons [OF p] split: list.splits)
qed

theorem read_var_u64_small_lost_witness:
  "buf_laws be_crate \<and> read_var_u64 be_crate (write_var_u64 be_crate [] 5 @ [9, 8]) = Ok (9, [8])"
  using read_var_u64_small_lost [OF be.laws, of 5 "[9, 8]"] be.laws by simp

text \<open>Long byte strings come back, with the rest of the buffer left in place.\<close>

lemma read_var_bytes_long:
  assumes "buf_laws bc" and "0xFD \<le> length val" and "length val < 18446744073709551616"
  shows "read_var_bytes bc (write_var_bytes bc [] val @ rest) = Ok (val, rest)"
proof -
  have p: "buf_provider bc" using assms(1) by (rule buf_provider.intro)
  have len: "unat (of_nat (length val) :: u64) = length val"
    using buf_provider.length_prefix [OF p assms(3)] .
  then have "\<not> (of_nat (length val) :: u64) < 0xFD"
    using assms(2) by (simp add: word_less_nat_alt)
  then show ?thesis
    by (simp add: read_var_bytes_def write_var_bytes_def buf_provider.read_large [OF p]
        buf_provider.drain_append [OF p] len)
qed

text \<open>C25: a byte string of at least \<^verbatim>\<open>0xFD\<close> bytes survives \<open>write_var_bytes\<close> followed by
  \<open>read_var_bytes\<close>, and text of that length \<open>write_var_str\<close> followed by \<open>read_var_str\<close>, with the rest of
  the buffer left in place.\<close>

theorem var_bytes_roundtrip:
  assumes "buf_laws bc" and "0xFD \<le> length val" and "length val < 18446744073709551616"
  shows "read_var_bytes bc (write_var_bytes bc [] val @ rest) = Ok (val, rest) \<and>
    (utf8_valid val \<longrightarrow> read_var_str bc (write_var_str bc [] (of_bytes val) @ rest) = Ok (of_bytes val, rest))"
proof -
  have "write_var_str bc [] (of_bytes val) = write_var_bytes bc [] val"
    by (simp add: write_var_str_def write_var_bytes_def)
  then show ?thesis
    by (simp add: read_var_bytes_long [OF assms] read_var_str_def from_utf8_def)
qed

theorem var_bytes_roundtrip_witness:
  "read_var_bytes be_crate (write_var_bytes be_crate [] (replicate 300 1) @ [2]) =
    Ok (replicate 300 1, [2])"
  by (rule conjunct1 [OF var_bytes_roundtrip [OF be.laws]]) simp_all

end
