(* ===== verification/External.thy ===== *)
theory External
  imports Rust_Std
begin

text \<open>
  The third-party crates the program calls, as parameters. The record \<open>crates\<close> holds one
  function per call: \<^verbatim>\<open>rust-crypto\<close> (hashes, scrypt, AES-CBC), \<^verbatim>\<open>ed25519-dalek\<close>, \<^verbatim>\<open>sodiumoxide\<close>
  (key conversion and the precomputed box), \<^verbatim>\<open>hex\<close>, \<^verbatim>\<open>bs58\<close>, \<^verbatim>\<open>regex\<close> and \<^verbatim>\<open>flate2\<close>. An \<open>option\<close>
  result is the crate's \<^verbatim>\<open>Result\<close> or \<^verbatim>\<open>Option\<close>. Each \<open>_laws\<close> predicate states documented
  behaviour of one crate; a property names the laws it needs as hypotheses. The instance
  \<open>demo\<close> satisfies all of them and is what the witnesses compute with: its hex and length
  checks are those of the crates, its hashes and ciphers are simple stand-ins with the same
  lengths and inverses.
\<close>

record crates =
  sha256 :: "bytes \<Rightarrow> bytes"
  sha512 :: "bytes \<Rightarrow> bytes"
  ripemd160 :: "bytes \<Rightarrow> bytes"
  scrypt :: "bytes \<Rightarrow> bytes \<Rightarrow> u8 \<Rightarrow> u32 \<Rightarrow> u32 \<Rightarrow> bytes"
  cbc_encrypt :: "bytes \<Rightarrow> bytes \<Rightarrow> bytes \<Rightarrow> bytes option"
  cbc_decrypt :: "bytes \<Rightarrow> bytes \<Rightarrow> bytes \<Rightarrow> bytes option"
  secret_to_public :: "bytes \<Rightarrow> bytes option"
  keypair_sign :: "bytes \<Rightarrow> bytes \<Rightarrow> bytes option"
  key_verify :: "bytes \<Rightarrow> bytes \<Rightarrow> bytes \<Rightarrow> bool option"
  to_curve25519_sk :: "bytes \<Rightarrow> bytes option"
  to_curve25519_pk :: "bytes \<Rightarrow> bytes option"
  box_precompute :: "bytes \<Rightarrow> bytes \<Rightarrow> bytes"
  nonce_from_slice :: "bytes \<Rightarrow> bytes option"
  key_from_slice :: "bytes \<Rightarrow> bytes option"
  seal_precomputed :: "bytes \<Rightarrow> bytes \<Rightarrow> bytes \<Rightarrow> bytes"
  open_precomputed :: "bytes \<Rightarrow> bytes \<Rightarrow> bytes \<Rightarrow> bytes option"
  hex_encode :: "bytes \<Rightarrow> string"
  hex_decode :: "string \<Rightarrow> bytes option"
  base58_encode :: "bytes \<Rightarrow> string"
  regex_is_match :: "string \<Rightarrow> string \<Rightarrow> bool"
  zlib :: "bytes \<Rightarrow> bytes"

section \<open>Documented behaviour\<close>

definition hex_laws :: "crates \<Rightarrow> bool" where
  "hex_laws cr \<longleftrightarrow>
     (\<forall>bs. hex_decode cr (hex_encode cr bs) = Some bs \<and>
        length (hex_encode cr bs) = 2 * length bs \<and>
        set (hex_encode cr bs) \<subseteq> set ''0123456789abcdef'')"

definition hash_laws :: "crates \<Rightarrow> bool" where
  "hash_laws cr \<longleftrightarrow> (\<forall>x. length (sha256 cr x) = 32) \<and> (\<forall>x. length (ripemd160 cr x) = 20)"

text \<open>An ed25519 key pair is the secret followed by its public key; its signatures verify.\<close>

definition ed25519_laws :: "crates \<Rightarrow> bool" where
  "ed25519_laws cr \<longleftrightarrow>
     (\<forall>sk. length sk = 32 \<longrightarrow>
        (\<exists>pk. secret_to_public cr sk = Some pk \<and> length pk = 32 \<and>
          (\<forall>m. \<exists>sig. keypair_sign cr (sk @ pk) m = Some sig \<and> length sig = 64 \<and>
             key_verify cr pk m sig = Some True)))"

text \<open>The sizes \<^verbatim>\<open>sodiumoxide\<close> checks, and opening what was sealed under the same nonce and key;
  sealing adds 16 bytes.\<close>

definition box_laws :: "crates \<Rightarrow> bool" where
  "box_laws cr \<longleftrightarrow>
     (\<forall>n. nonce_from_slice cr n = (if length n = 24 then Some n else None)) \<and>
     (\<forall>k. key_from_slice cr k = (if length k = 32 then Some k else None)) \<and>
     (\<forall>m n k. open_precomputed cr (seal_precomputed cr m n k) n k = Some m \<and>
        length (seal_precomputed cr m n k) = length m + 16) \<and>
     (\<forall>pk sk. length (box_precompute cr pk sk) = 32)"

text \<open>
  Diffie-Hellman on the converted keys: both ends of two ed25519 key pairs convert, and
  compute the same box key.
\<close>

definition exchange_laws :: "crates \<Rightarrow> bool" where
  "exchange_laws cr \<longleftrightarrow>
     (\<forall>a b pa pb. length a = 32 \<longrightarrow> length b = 32 \<longrightarrow>
        secret_to_public cr a = Some pa \<longrightarrow> secret_to_public cr b = Some pb \<longrightarrow>
        (\<exists>ca cb qa qb. to_curve25519_sk cr (a @ pa) = Some ca \<and> to_curve25519_sk cr (b @ pb) = Some cb \<and>
           to_curve25519_pk cr pa = Some qa \<and> to_curve25519_pk cr pb = Some qb \<and>
           box_precompute cr qb ca = box_precompute cr qa cb))"

text \<open>AES-256-CBC without padding: whole blocks decrypt to what was encrypted.\<close>

definition cbc_laws :: "crates \<Rightarrow> bool" where
  "cbc_laws cr \<longleftrightarrow>
     (\<forall>x key iv. length key = 32 \<longrightarrow> length iv = 16 \<longrightarrow> length x mod 16 = 0 \<longrightarrow>
        (\<exists>c. cbc_encrypt cr x key iv = Some c \<and> length c = length x \<and>
          cbc_decrypt cr c key iv = Some x))"

definition scrypt_laws :: "crates \<Rightarrow> bool" where
  "scrypt_laws cr \<longleftrightarrow> (\<forall>pw salt n r p. length (scrypt cr pw salt n r p) = 32)"

section \<open>An instance\<close>

definition hex_digit :: "nat \<Rightarrow> char" where
  "hex_digit n = ''0123456789abcdef'' ! n"

definition hex_value :: "char \<Rightarrow> nat option" where
  "hex_value c =
     (let k = of_char c :: nat in
      if 48 \<le> k \<and> k \<le> 57 then Some (k - 48)
      else if 97 \<le> k \<and> k \<le> 102 then Some (k - 87)
      else if 65 \<le> k \<and> k \<le> 70 then Some (k - 55) else None)"

fun hex_encode_std :: "bytes \<Rightarrow> string" where
  "hex_encode_std [] = []"
| "hex_encode_std (b # bs) = hex_digit (unat b div 16) # hex_digit (unat b mod 16) # hex_encode_std bs"

fun hex_decode_std :: "string \<Rightarrow> bytes option" where
  "hex_decode_std [] = Some []"
| "hex_decode_std [c] = None"
| "hex_decode_std (c # d # cs) =
     (case (hex_value c, hex_value d, hex_decode_std cs) of
        (Some x, Some y, Some bs) \<Rightarrow> Some (of_nat (16 * x + y) # bs)
      | _ \<Rightarrow> None)"

text \<open>The regular expression of \<open>remove_identifier\<close>, decided by hand; other patterns do not occur.\<close>

definition backslash :: char where
  "backslash = CHR 0x5C"

fun strip_prefix :: "string \<Rightarrow> string \<Rightarrow> string option" where
  "strip_prefix [] t = Some t"
| "strip_prefix (c # p) [] = None"
| "strip_prefix (c # p) (d # t) = (if c = d then strip_prefix p t else None)"

definition match_literal_d :: "string \<Rightarrow> bool" where
  "match_literal_d t =
     (case strip_prefix (''__'' @ [backslash]) t of
        None \<Rightarrow> False
      | Some r \<Rightarrow> (let ds = takeWhile (\<lambda>c. c = CHR ''d'') r in ds \<noteq> [] \<and> r = ds @ ''__''))"

definition identifier_pattern :: string where
  "identifier_pattern = ''^__'' @ [backslash, backslash] @ ''d+__$''"

text \<open>\<^verbatim>\<open>regex\<close>: two backslashes match one, \<^verbatim>\<open>d+\<close> one or more letters \<^verbatim>\<open>d\<close>, anchored at both ends.\<close>

definition regex_laws :: "crates \<Rightarrow> bool" where
  "regex_laws cr \<longleftrightarrow>
     (\<forall>t. regex_is_match cr identifier_pattern t \<longrightarrow>
        (\<exists>n. 1 \<le> n \<and> t = ''__'' @ [backslash] @ replicate n (CHR ''d'') @ ''__''))"

definition fit :: "nat \<Rightarrow> bytes \<Rightarrow> bytes" where
  "fit n bs = take n (bs @ replicate n 0)"

definition demo :: crates where
  "demo = \<lparr>
     sha256 = fit 32, sha512 = fit 32, ripemd160 = fit 20,
     scrypt = (\<lambda>pw salt n r p. fit 32 (pw @ salt)),
     cbc_encrypt = (\<lambda>x key iv. if length key = 32 \<and> length iv = 16 \<and> length x mod 16 = 0
        then Some (rev x) else None),
     cbc_decrypt = (\<lambda>x key iv. if length key = 32 \<and> length iv = 16 \<and> length x mod 16 = 0
        then Some (rev x) else None),
     secret_to_public = (\<lambda>sk. if length sk = 32 then Some sk else None),
     keypair_sign = (\<lambda>kp m. if length kp = 64 then Some (fit 64 (m @ kp)) else None),
     key_verify = (\<lambda>pk m sig. if length pk = 32 then Some (sig = fit 64 (m @ pk @ pk)) else None),
     to_curve25519_sk = (\<lambda>kp. Some (take 32 kp)),
     to_curve25519_pk = Some,
     box_precompute = (\<lambda>pk sk. map (\<lambda>i. byte_at pk i + byte_at sk i) [0..<32]),
     nonce_from_slice = (\<lambda>n. if length n = 24 then Some n else None),
     key_from_slice = (\<lambda>k. if length k = 32 then Some k else None),
     seal_precomputed = (\<lambda>m n k. replicate 16 0 @ rev m),
     open_precomputed = (\<lambda>c n k. if length c < 16 then None else Some (rev (drop 16 c))),
     hex_encode = hex_encode_std, hex_decode = hex_decode_std,
     base58_encode = of_bytes,
     regex_is_match = (\<lambda>p t. p = identifier_pattern \<and> match_literal_d t),
     zlib = rev\<rparr>"

lemma hex_digit_set: "n < 16 \<Longrightarrow> hex_digit n \<in> set ''0123456789abcdef''"
  unfolding hex_digit_def by (rule nth_mem) simp

lemma hex_value_digit: "n < 16 \<Longrightarrow> hex_value (hex_digit n) = Some n"
proof -
  have "\<forall>n\<in>set [0..<16]. hex_value (hex_digit n) = Some n" by code_simp
  then show "n < 16 \<Longrightarrow> hex_value (hex_digit n) = Some n" by simp
qed

lemma hex_std_roundtrip: "hex_decode_std (hex_encode_std bs) = Some bs"
proof (induction bs)
  case (Cons b bs)
  have "unat b < 256" using unsigned_less [of b] by simp
  then have "unat b div 16 < 16" "unat b mod 16 < 16" by simp_all
  moreover have "of_nat (16 * (unat b div 16) + unat b mod 16) = b" by simp
  ultimately show ?case using Cons by (simp add: hex_value_digit)
qed simp

lemma hex_std_length: "length (hex_encode_std bs) = 2 * length bs"
  by (induction bs) simp_all

lemma hex_std_set: "set (hex_encode_std bs) \<subseteq> set ''0123456789abcdef''"
proof (induction bs)
  case (Cons b bs)
  have "unat b < 256" using unsigned_less [of b] by simp
  then have "unat b div 16 < 16" "unat b mod 16 < 16" by simp_all
  then show ?case using Cons hex_digit_set by simp
qed simp

lemma length_fit [simp]: "length (fit n bs) = n"
  by (simp add: fit_def)

lemma strip_prefix_Some: "strip_prefix p t = Some r \<longleftrightarrow> t = p @ r"
  by (induction p t rule: strip_prefix.induct) auto

lemma takeWhile_eq_replicate: "takeWhile (\<lambda>x. x = c) xs = replicate (length (takeWhile (\<lambda>x. x = c) xs)) c"
  by (induction xs) auto

lemma match_literal_d_form:
  assumes "match_literal_d t"
  shows "\<exists>n. 1 \<le> n \<and> t = ''__'' @ [backslash] @ replicate n (CHR ''d'') @ ''__''"
proof -
  obtain r where r: "strip_prefix (''__'' @ [backslash]) t = Some r"
    and ds: "takeWhile (\<lambda>c. c = CHR ''d'') r \<noteq> []" "r = takeWhile (\<lambda>c. c = CHR ''d'') r @ ''__''"
    using assms by (auto simp: match_literal_d_def Let_def split: option.splits)
  have "t = (''__'' @ [backslash]) @ replicate (length (takeWhile (\<lambda>c. c = CHR ''d'') r)) (CHR ''d'') @ ''__''"
    using r ds(2) takeWhile_eq_replicate [of "CHR ''d''" r] by (simp only: strip_prefix_Some)
  moreover have "1 \<le> length (takeWhile (\<lambda>c. c = CHR ''d'') r)"
    using ds(1) by (simp add: Suc_le_eq)
  ultimately show ?thesis by (metis append_assoc)
qed

text \<open>The instance satisfies every law.\<close>

lemma demo_laws:
  "hex_laws demo" "hash_laws demo" "ed25519_laws demo" "box_laws demo" "exchange_laws demo"
  "cbc_laws demo" "scrypt_laws demo" "regex_laws demo"
proof -
  show "hex_laws demo"
    using hex_std_roundtrip hex_std_length hex_std_set by (simp add: hex_laws_def demo_def)
  show "hash_laws demo" by (simp add: hash_laws_def demo_def)
  show "ed25519_laws demo" by (simp add: ed25519_laws_def demo_def)
  show "box_laws demo" by (simp add: box_laws_def demo_def)
  show "exchange_laws demo" by (auto simp: exchange_laws_def demo_def add.commute)
  show "cbc_laws demo" by (simp add: cbc_laws_def demo_def)
  show "scrypt_laws demo" by (simp add: scrypt_laws_def demo_def)
  show "regex_laws demo"
    using match_literal_d_form by (simp add: regex_laws_def demo_def)
qed

section \<open>Consequences shared by the components\<close>

lemma hex_laws_D:
  assumes "hex_laws cr"
  shows "hex_decode cr (hex_encode cr bs) = Some bs"
    and "length (hex_encode cr bs) = 2 * length bs"
    and "CHR ''.'' \<notin> set (hex_encode cr bs)"
    and "hex_encode cr bs = hex_encode cr cs \<longleftrightarrow> bs = cs"
proof -
  show 1: "hex_decode cr (hex_encode cr bs) = Some bs" for bs
    using assms unfolding hex_laws_def by blast
  show "length (hex_encode cr bs) = 2 * length bs"
    using assms unfolding hex_laws_def by blast
  have "CHR ''.'' \<notin> set ''0123456789abcdef''" by simp
  then show "CHR ''.'' \<notin> set (hex_encode cr bs)"
    using assms unfolding hex_laws_def by blast
  show "hex_encode cr bs = hex_encode cr cs \<longleftrightarrow> bs = cs"
    by (metis 1 option.inject)
qed

end
