(* ===== verification/Crypto.thy ===== *)
theory Crypto
  imports External
begin

text \<open>
  \<^verbatim>\<open>src/constants.rs\<close>, \<^verbatim>\<open>src/crypto.rs\<close>, \<^verbatim>\<open>src/program.rs\<close> and \<^verbatim>\<open>src/account.rs\<close>: the sizes, the
  wrappers around the cryptographic crates with their panics, the signature program of a
  public key, and accounts. The lemmas show that an account made from a seed is well formed
  and that what \<open>encrypt\<close> seals \<open>decrypt\<close> opens.
\<close>

section \<open>Constants\<close>

definition IV_LEN :: nat where [simp]: "IV_LEN = 16"
definition MASTER_KEY_LEN :: nat where [simp]: "MASTER_KEY_LEN = 32"
definition SCRYPT_SALT_LEN :: nat where [simp]: "SCRYPT_SALT_LEN = 8"
definition SCRYPT_LOG_N :: u8 where [simp]: "SCRYPT_LOG_N = 15"
definition SCRYPT_R :: u32 where [simp]: "SCRYPT_R = 8"
definition SCRYPT_P :: u32 where [simp]: "SCRYPT_P = 1"
definition WALLET_VERSION :: u32 where [simp]: "WALLET_VERSION = 2"
definition DEFAULT_RPC_TIMEOUT :: u64 where [simp]: "DEFAULT_RPC_TIMEOUT = 10"
definition DEFAULT_RPC_CONCURRENCY :: u32 where [simp]: "DEFAULT_RPC_CONCURRENCY = 1"
definition PUBLIC_KEY_LEN :: nat where [simp]: "PUBLIC_KEY_LEN = 32"
definition PRIVATE_KEY_LEN :: nat where [simp]: "PRIVATE_KEY_LEN = 32"
definition SHARED_KEY_LEN :: nat where [simp]: "SHARED_KEY_LEN = 32"
definition UINT160SIZE :: nat where [simp]: "UINT160SIZE = 20"
definition UINT256SIZE :: nat where [simp]: "UINT256SIZE = 20"
definition SIGNATURE_LEN :: nat where [simp]: "SIGNATURE_LEN = 64"
definition SHA256_LEN :: nat where [simp]: "SHA256_LEN = 32"
definition RIPEMD160_LEN :: nat where [simp]: "RIPEMD160_LEN = 20"
definition SEED_LEN :: nat where [simp]: "SEED_LEN = 32"
definition NONCE_SIZE :: nat where [simp]: "NONCE_SIZE = 24"
definition ADDRESS_GEN_PREFIX :: bytes where "ADDRESS_GEN_PREFIX = [0x02, 0xb8, 0x25]"
definition CHECKSUM_LEN :: nat where [simp]: "CHECKSUM_LEN = 4"
definition CLIENT_SALT_LEN :: nat where [simp]: "CLIENT_SALT_LEN = 32"

definition DEFAULT_RPC_SERVER :: "string list" where
  "DEFAULT_RPC_SERVER = [''http://seed.nkn.org:30003'']"

definition CHECK_SIG :: u8 where "CHECK_SIG = 0xAC"
definition SIGNATURE :: u8 where "SIGNATURE = 0"

section \<open>Hashes, program codes and addresses\<close>

definition sha256_hash :: "crates \<Rightarrow> bytes \<Rightarrow> bytes" where
  "sha256_hash cr input = sha256 cr input"

definition ripemd160_hash :: "crates \<Rightarrow> bytes \<Rightarrow> bytes" where
  "ripemd160_hash cr input = ripemd160 cr input"

definition to_code_hash :: "crates \<Rightarrow> bytes \<Rightarrow> bytes" where
  "to_code_hash cr code = ripemd160_hash cr (sha256_hash cr code)"

definition create_signature_program_code :: "bytes \<Rightarrow> bytes" where
  "create_signature_program_code public_key =
     [of_nat PUBLIC_KEY_LEN] @ public_key @ [CHECK_SIG]"

definition create_program_hash :: "crates \<Rightarrow> bytes \<Rightarrow> bytes" where
  "create_program_hash cr public_key = to_code_hash cr (create_signature_program_code public_key)"

text \<open>\<^verbatim>\<open>&temp2[0..CHECKSUM_LEN]\<close> is in range: a SHA-256 hash is an array of 32 bytes.\<close>

definition code_hash_to_address :: "crates \<Rightarrow> bytes \<Rightarrow> string" where
  "code_hash_to_address cr hash =
     (let data = ADDRESS_GEN_PREFIX @ hash;
          temp = sha256_hash cr data;
          temp2 = sha256_hash cr temp
      in base58_encode cr (data @ take CHECKSUM_LEN temp2))"

section \<open>Ciphers and keys\<close>

record scrypt_config =
  log_n :: u8
  r_cost :: u32
  p_cost :: u32
  salt :: string

definition scrypt_kdf :: "crates \<Rightarrow> string \<Rightarrow> scrypt_config \<Rightarrow> (bytes, 'e) outcome" where
  "scrypt_kdf cr password config =
     and_then (unwrap (hex_decode cr (salt config))) (\<lambda>s.
       Ok (scrypt cr (as_bytes password) s (log_n config) (r_cost config) (p_cost config)))"

definition password_to_aes_key_scrypt :: "crates \<Rightarrow> string \<Rightarrow> scrypt_config \<Rightarrow> (bytes, 'e) outcome" where
  "password_to_aes_key_scrypt cr password config = scrypt_kdf cr password config"

definition aes_encrypt :: "crates \<Rightarrow> bytes \<Rightarrow> bytes \<Rightarrow> bytes \<Rightarrow> (bytes, 'e) outcome" where
  "aes_encrypt cr input key iv = unwrap (cbc_encrypt cr input key iv)"

definition aes_decrypt :: "crates \<Rightarrow> bytes \<Rightarrow> bytes \<Rightarrow> bytes \<Rightarrow> (bytes, 'e) outcome" where
  "aes_decrypt cr input key iv = unwrap (cbc_decrypt cr input key iv)"

definition encrypt :: "crates \<Rightarrow> bytes \<Rightarrow> bytes \<Rightarrow> bytes \<Rightarrow> (bytes, 'e) outcome" where
  "encrypt cr message nonce shared_key =
     and_then (unwrap (nonce_from_slice cr nonce)) (\<lambda>n.
     and_then (unwrap (key_from_slice cr shared_key)) (\<lambda>key.
       Ok (seal_precomputed cr message n key)))"

definition decrypt :: "crates \<Rightarrow> bytes \<Rightarrow> bytes \<Rightarrow> bytes \<Rightarrow> (bytes, unit) outcome" where
  "decrypt cr encrypted nonce shared_key =
     and_then (unwrap (nonce_from_slice cr nonce)) (\<lambda>n.
     and_then (unwrap (key_from_slice cr shared_key)) (\<lambda>key.
       or_err (open_precomputed cr encrypted n key) ()))"

definition ed25519_private_key_to_curve25519_private_key :: "crates \<Rightarrow> bytes \<Rightarrow> (bytes, 'e) outcome" where
  "ed25519_private_key_to_curve25519_private_key cr private_key =
     and_then (unwrap (secret_to_public cr private_key)) (\<lambda>public_key.
       unwrap (to_curve25519_sk cr (private_key @ public_key)))"

definition ed25519_public_key_to_curve25519_public_key :: "crates \<Rightarrow> bytes \<Rightarrow> (bytes, 'e) outcome" where
  "ed25519_public_key_to_curve25519_public_key cr public_key = unwrap (to_curve25519_pk cr public_key)"

definition ed25519_seed_from_private_key :: "bytes \<Rightarrow> (bytes, 'e) outcome" where
  "ed25519_seed_from_private_key private_key =
     (if 32 \<le> length private_key then Ok (take 32 private_key) else Panic)"

definition sha512_hash :: "crates \<Rightarrow> bytes \<Rightarrow> bytes" where
  "sha512_hash cr input = sha512 cr input"

definition ed25519_sign :: "crates \<Rightarrow> bytes \<Rightarrow> bytes \<Rightarrow> (bytes, 'e) outcome" where
  "ed25519_sign cr message private_key = unwrap (keypair_sign cr private_key message)"

definition ed25519_verify :: "crates \<Rightarrow> bytes \<Rightarrow> bytes \<Rightarrow> bytes \<Rightarrow> (bool, 'e) outcome" where
  "ed25519_verify cr data public_key signature = unwrap (key_verify cr public_key data signature)"

section \<open>Programs\<close>

record program =
  prog_code :: bytes
  parameter :: bytes

record program_context =
  code :: bytes
  parameters :: bytes
  program_hash :: bytes
  owner_public_key_hash :: bytes

definition create_signature_program_context :: "crates \<Rightarrow> bytes \<Rightarrow> program_context" where
  "create_signature_program_context cr owner_pubkey =
     (let c = create_signature_program_code owner_pubkey in
      \<lparr>code = c, parameters = [SIGNATURE], program_hash = to_code_hash cr c,
       owner_public_key_hash = to_code_hash cr owner_pubkey\<rparr>)"

definition new_program :: "program_context \<Rightarrow> bytes \<Rightarrow> program" where
  "new_program ctx signature =
     \<lparr>prog_code = code ctx, parameter = of_nat (length signature) # signature\<rparr>"

section \<open>Accounts\<close>

record account =
  private_key :: bytes
  public_key :: bytes
  account_program_hash :: bytes

definition from_seed :: "crates \<Rightarrow> bytes \<Rightarrow> (account, string) outcome" where
  "from_seed cr seed =
     (if length seed \<noteq> 32 then Err ''Invalid seed length''
      else and_then (unwrap (secret_to_public cr seed)) (\<lambda>pk.
        Ok \<lparr>private_key = seed, public_key = pk,
            account_program_hash = create_program_hash cr pk\<rparr>))"

text \<open>\<open>Account::new\<close>: the random key pair of \<^verbatim>\<open>OsRng\<close> is the argument.\<close>

definition account_new :: "crates \<Rightarrow> bytes \<Rightarrow> (account, string) outcome" where
  "account_new cr secret = from_seed cr secret"

definition account_address :: "crates \<Rightarrow> account \<Rightarrow> string" where
  "account_address cr acc = code_hash_to_address cr (account_program_hash acc)"

text \<open>The invariant of an account: its keys belong together and its hash is its key's program's.\<close>

definition wf_account :: "crates \<Rightarrow> account \<Rightarrow> bool" where
  "wf_account cr acc \<longleftrightarrow>
     length (private_key acc) = 32 \<and> length (public_key acc) = 32 \<and>
     secret_to_public cr (private_key acc) = Some (public_key acc) \<and>
     account_program_hash acc = create_program_hash cr (public_key acc)"

section \<open>Lemmas\<close>

lemma encrypt_decrypt:
  assumes "box_laws cr" and "length nonce = 24" and "length key = 32"
  shows "\<exists>c. encrypt cr m nonce key = Ok c \<and> decrypt cr c nonce key = Ok m"
  using assms by (simp add: encrypt_def decrypt_def box_laws_def)

lemma encrypt_eq:
  assumes "box_laws cr" and "length nonce = 24" and "length key = 32"
  shows "encrypt cr m nonce key = Ok (seal_precomputed cr m nonce key)"
  using assms by (simp add: encrypt_def box_laws_def)

lemma decrypt_seal:
  assumes "box_laws cr" and "length nonce = 24" and "length key = 32"
  shows "decrypt cr (seal_precomputed cr m nonce key) nonce key = Ok m"
  using assms by (simp add: decrypt_def box_laws_def)

lemma from_seed_wf:
  assumes "ed25519_laws cr" and "length seed = 32"
  shows "\<exists>acc. from_seed cr seed = Ok acc \<and> wf_account cr acc \<and> private_key acc = seed"
  using assms unfolding ed25519_laws_def by (fastforce simp: from_seed_def wf_account_def)

lemma wf_account_from_seed:
  "wf_account cr acc \<Longrightarrow> from_seed cr (private_key acc) = Ok acc"
  by (simp add: from_seed_def wf_account_def)

end
