(* ===== verification/Address.thy ===== *)
theory Address
  imports Crypto
begin

text \<open>
  Client addresses and the shared-key cache of \<^verbatim>\<open>src/utils.rs\<close>. An address is the hex public key,
  behind an optional identifier and a dot; a multi-client puts \<^verbatim>\<open>__i__.\<close> in front of the address
  of its \<open>i\<close>-th sub-client. The cache of shared keys is a map from strings, passed and
  returned.
\<close>

section \<open>Definitions\<close>

definition make_address_string :: "crates \<Rightarrow> bytes \<Rightarrow> string \<Rightarrow> string" where
  "make_address_string cr pk identifier =
     (let pubkey_str = hex_encode cr pk in
      if identifier = [] then pubkey_str else identifier @ ''.'' @ pubkey_str)"

definition parse_client_address ::
    "crates \<Rightarrow> string \<Rightarrow> (bytes \<times> bytes \<times> string, string) outcome" where
  "parse_client_address cr address_str =
     (let client_id = sha256_hash cr (as_bytes address_str);
          substrings = split_on (CHR ''.'') address_str
      in and_then (unwrap (if substrings = [] then None else Some (last substrings)))
           (\<lambda>public_key_str.
         and_then (or_err (hex_decode cr public_key_str)
             ''Invalid public key string converting to hex'') (\<lambda>pk.
           let identifier = join_with ''.'' (take (length substrings - 1) substrings) in
           if length pk = PUBLIC_KEY_LEN then Ok (client_id, pk, identifier)
           else Err ''Invalid public key string'')))"

type_synonym key_cache = "string \<rightharpoonup> bytes"

text \<open>
  The lock is released between the lookup and the insertion; the key computed in between does
  not depend on the cache.
\<close>

definition get_or_compute_shared_key ::
    "crates \<Rightarrow> bytes \<Rightarrow> bytes \<Rightarrow> key_cache \<Rightarrow> (bytes, string) outcome \<times> key_cache" where
  "get_or_compute_shared_key cr remote_public_key curve_secret_key shared_keys =
     (let remote_public_key_str = from_utf8_lossy remote_public_key in
      case shared_keys remote_public_key_str of
        Some shared_key \<Rightarrow> (Ok shared_key, shared_keys)
      | None \<Rightarrow>
          if length remote_public_key \<noteq> PUBLIC_KEY_LEN
          then (Err ''invalid public key size'', shared_keys)
          else case ed25519_public_key_to_curve25519_public_key cr remote_public_key of
              Ok curve_public_key \<Rightarrow>
                let shared_key = box_precompute cr curve_public_key curve_secret_key
                in (Ok shared_key, shared_keys(remote_public_key_str \<mapsto> shared_key))
            | Err e \<Rightarrow> (Err e, shared_keys)
            | Panic \<Rightarrow> (Panic, shared_keys))"

definition uint160_from_bytes :: "bytes \<Rightarrow> (bytes, 'e) outcome" where
  "uint160_from_bytes bs =
     (if UINT160SIZE \<le> length bs then Ok (take UINT160SIZE bs) else Panic)"

definition add_identifier_prefix :: "string \<Rightarrow> string \<Rightarrow> string" where
  "add_identifier_prefix base prefix =
     (if prefix = [] then base else if base = [] then prefix else prefix @ ''.'' @ base)"

definition add_identifier :: "string \<Rightarrow> i32 \<Rightarrow> string" where
  "add_identifier addr i =
     (if sint i < 0 then addr
      else add_identifier_prefix addr (''__'' @ show_nat (nat (sint i)) @ ''__''))"

definition add_multiclient_prefix :: "string list \<Rightarrow> i32 \<Rightarrow> string list" where
  "add_multiclient_prefix dest client_id = map (\<lambda>addr. add_identifier addr client_id) dest"

text \<open>\<^verbatim>\<open>Regex::new\<close> accepts the pattern; \<^verbatim>\<open>s[0]\<close> and \<^verbatim>\<open>s[1]\<close> are guarded by the length.\<close>

definition remove_identifier :: "crates \<Rightarrow> string \<Rightarrow> string \<times> string" where
  "remove_identifier cr src =
     (let s = split_on (CHR ''.'') src in
      if 1 < length s \<and> regex_is_match cr identifier_pattern (s ! 0) then (s ! 0, s ! 1)
      else (src, ''''))"

section \<open>Lemmas\<close>

lemma split_make_address:
  assumes "hex_laws cr"
  shows "split_on (CHR ''.'') (make_address_string cr pk ident) =
    (if ident = [] then [] else split_on (CHR ''.'') ident) @ [hex_encode cr pk]"
  using hex_laws_D [OF assms]
  by (simp add: make_address_string_def split_on_append split_on_absent)

lemma parse_make_address:
  assumes "hex_laws cr" and "length pk = 32"
  shows "parse_client_address cr (make_address_string cr pk ident) =
    Ok (sha256 cr (as_bytes (make_address_string cr pk ident)), pk, ident)"
  using assms hex_laws_D [OF assms(1)] join_split [of "CHR ''.''" ident]
  by (simp add: parse_client_address_def split_make_address sha256_hash_def)

lemma parse_client_address_not_Panic: "parse_client_address cr a \<noteq> Panic"
  by (auto simp: parse_client_address_def and_then_Panic_iff Let_def)

lemma parse_client_address_Ok_length:
  "parse_client_address cr a = Ok (cid, pk, ident) \<Longrightarrow> length pk = 32"
  by (auto simp: parse_client_address_def outcome_simps Let_def split: if_splits)

lemma add_identifier_address:
  assumes "0 \<le> sint i"
  shows "add_identifier (make_address_string cr pk base) i =
      make_address_string cr pk (add_identifier base i)
    \<or> hex_encode cr pk = []"
  using assms by (auto simp: add_identifier_def add_identifier_prefix_def make_address_string_def Let_def)

lemma sub_client_identifier_plain:
  "c \<in> set (''__'' @ show_nat n @ ''__'') \<Longrightarrow> c = CHR ''_'' \<or> is_digit c"
  using show_nat_digits [of c n] by auto

lemma split_add_identifier:
  assumes "0 \<le> sint i" and "addr \<noteq> []"
  shows "split_on (CHR ''.'') (add_identifier addr i) =
    (''__'' @ show_nat (nat (sint i)) @ ''__'') # split_on (CHR ''.'') addr"
proof -
  let ?p = "''__'' @ show_nat (nat (sint i)) @ ''__''"
  have "CHR ''.'' \<notin> set ?p"
    using sub_client_identifier_plain [of "CHR ''.''"] by auto
  then show ?thesis
    using assms split_on_append [of "CHR ''.''" ?p addr] split_on_absent [of "CHR ''.''" ?p]
    by (simp add: add_identifier_def add_identifier_prefix_def)
qed

section \<open>Properties\<close>

text \<open>C27: parsing the address that \<open>make_address_string\<close> builds gives back the public key and the
  identifier, whatever the identifier holds (dots included), with the hash of the whole address
  as the client id.\<close>

theorem address_roundtrip:
  assumes "hex_laws cr" and "length pk = 32"
  shows "parse_client_address cr (make_address_string cr pk ident) =
    Ok (sha256 cr (as_bytes (make_address_string cr pk ident)), pk, ident)"
  using assms by (rule parse_make_address)

theorem address_roundtrip_witness:
  "parse_client_address demo (make_address_string demo (replicate 32 7) ''a.b'') =
     Ok (sha256 demo (as_bytes (make_address_string demo (replicate 32 7) ''a.b'')),
         replicate 32 7, ''a.b'')"
  using address_roundtrip [OF demo_laws(1), of "replicate 32 7" "''a.b''"] by simp

text \<open>C10: the destination that the sender's \<open>i\<close>-th sub-client addresses
  (\<open>add_multiclient_prefix\<close> on the peer's address) is the address under which the peer's
  \<open>i\<close>-th sub-client was created, and it parses to the peer's key and sub-client identifier.
  A negative id leaves destinations alone.\<close>

theorem multiclient_prefix_addresses_subclient:
  assumes "hex_laws cr" and "length pk = 32"
  shows "(0 \<le> sint i \<longrightarrow>
      add_multiclient_prefix [make_address_string cr pk base] i =
        [make_address_string cr pk (add_identifier base i)] \<and>
      parse_client_address cr (add_identifier (make_address_string cr pk base) i) =
        Ok (sha256 cr (as_bytes (make_address_string cr pk (add_identifier base i))), pk,
            add_identifier base i)) \<and>
    (sint i < 0 \<longrightarrow> add_multiclient_prefix ds i = ds)"
proof -
  have "hex_encode cr pk \<noteq> []"
    using hex_laws_D(2) [OF assms(1), of pk] assms(2) by auto
  then have "0 \<le> sint i \<Longrightarrow> add_identifier (make_address_string cr pk base) i =
      make_address_string cr pk (add_identifier base i)"
    using add_identifier_address [of i cr pk base] by blast
  moreover have "sint i < 0 \<Longrightarrow> add_multiclient_prefix ds i = ds"
    by (simp add: add_multiclient_prefix_def add_identifier_def)
  ultimately show ?thesis
    using parse_make_address [OF assms] by (simp add: add_multiclient_prefix_def)
qed

theorem multiclient_prefix_addresses_subclient_witness:
  "add_multiclient_prefix [make_address_string demo (replicate 32 7) ''bob''] 2 =
     [make_address_string demo (replicate 32 7) (add_identifier ''bob'' 2)]"
  using multiclient_prefix_addresses_subclient
    [OF demo_laws(1), of "replicate 32 7" 2 "''bob''" "[]"] by simp

text \<open>C11: \<open>remove_identifier\<close> does not undo \<open>add_identifier\<close>: its pattern, a raw string with a
  doubled backslash, asks for a literal backslash, so the sub-client prefix always stays on the
  source address of a message.\<close>

theorem remove_identifier_keeps_prefix:
  assumes "regex_laws cr" and "0 \<le> sint i" and "addr \<noteq> []"
  shows "remove_identifier cr (add_identifier addr i) = (add_identifier addr i, '''')"
proof -
  let ?p = "''__'' @ show_nat (nat (sint i)) @ ''__''"
  have "backslash \<notin> set ?p"
    using sub_client_identifier_plain [of backslash] by (auto simp: backslash_def)
  then have "\<not> regex_is_match cr identifier_pattern ?p"
    using assms(1) unfolding regex_laws_def by auto
  then show ?thesis
    using split_add_identifier [OF assms(2,3)] by (simp add: remove_identifier_def)
qed

theorem remove_identifier_keeps_prefix_witness:
  "remove_identifier demo (add_identifier ''bob'' 1) = (add_identifier ''bob'' 1, '''')"
  using remove_identifier_keeps_prefix [OF demo_laws(8), of 1 "''bob''"] by simp

text \<open>The shared-key cache is keyed by the lossy UTF-8 text of the public key, which is not
  injective: after a key exchange with one peer, a second peer with another public key of the
  same lossy text gets the first peer's shared key from the cache, not its own.\<close>

theorem shared_key_cache_collision:
  assumes "to_curve25519_pk cr (replicate 32 0x80) = Some q"
    and "get_or_compute_shared_key cr (replicate 32 0x80) sk Map.empty = (Ok k, cache)"
  shows "get_or_compute_shared_key cr (replicate 32 0x81) sk cache = (Ok k, cache) \<and>
    k = box_precompute cr q sk \<and> replicate 32 (0x81 :: u8) \<noteq> replicate 32 0x80"
proof -
  have eq: "from_utf8_lossy (replicate 32 0x81) = from_utf8_lossy (replicate 32 0x80)"
    unfolding from_utf8_lossy_def
    using utf8_lossy_stray [of "0x80" 32] utf8_lossy_stray [of "0x81" 32] by simp
  have "k = box_precompute cr q sk" "cache (from_utf8_lossy (replicate 32 0x80)) = Some k"
    using assms by (auto simp: get_or_compute_shared_key_def Let_def
        ed25519_public_key_to_curve25519_public_key_def)
  then show ?thesis
    by (simp add: get_or_compute_shared_key_def eq Let_def)
qed

theorem shared_key_cache_collision_witness:
  "\<exists>k cache. get_or_compute_shared_key demo (replicate 32 0x80) (replicate 32 1) Map.empty = (Ok k, cache) \<and>
     get_or_compute_shared_key demo (replicate 32 0x81) (replicate 32 1) cache = (Ok k, cache)"
proof -
  have q: "to_curve25519_pk demo (replicate 32 0x80) = Some (replicate 32 0x80)"
    by (simp add: demo_def)
  obtain k cache where "get_or_compute_shared_key demo (replicate 32 0x80) (replicate 32 1) Map.empty = (Ok k, cache)"
    by (simp add: get_or_compute_shared_key_def Let_def ed25519_public_key_to_curve25519_public_key_def q)
  then show ?thesis using shared_key_cache_collision [OF q] by blast
qed

end
