(* ===== verification/SigChain.thy ===== *)
theory SigChain
  imports Serialization
begin

text \<open>
  The parts of a signature chain that are signed (\<^verbatim>\<open>src/sigchain.rs\<close>), with the message types of
  \<^verbatim>\<open>protos/sigchain.proto\<close>. The two serializations are hashed and signed by the client; the
  properties show that they are unambiguous: equal bytes mean equal fields.
\<close>

datatype sig_algo = Signature | Hash

record sig_chain_elem =
  elem_id :: bytes
  next_pubkey :: bytes
  mining :: bool
  elem_signature :: bytes
  elem_sig_algo :: sig_algo
  vrf :: bytes
  proof_bytes :: bytes

record sig_chain =
  sc_nonce :: u32
  data_size :: u32
  sc_block_hash :: bytes
  src_id :: bytes
  src_pubkey :: bytes
  dest_id :: bytes
  dest_pubkey :: bytes
  elems :: "sig_chain_elem list"

text \<open>\<^verbatim>\<open>SigChainElem::default()\<close>: the proto3 defaults.\<close>

definition default_elem :: sig_chain_elem where
  "default_elem = \<lparr>elem_id = [], next_pubkey = [], mining = False, elem_signature = [],
     elem_sig_algo = Signature, vrf = [], proof_bytes = []\<rparr>"

definition serialize_unsigned_elem :: "buf_crate \<Rightarrow> sig_chain_elem \<Rightarrow> bytes" where
  "serialize_unsigned_elem bc e =
     (let bs = [];
          bs = write_var_bytes bc bs (elem_id e);
          bs = write_var_bytes bc bs (next_pubkey e);
          bs = write_bool bs (mining e)
      in bs @ vrf e)"

definition serialize_metadata :: "buf_crate \<Rightarrow> sig_chain \<Rightarrow> bytes" where
  "serialize_metadata bc c =
     (let bs = [];
          bs = write_u32 bc bs (sc_nonce c);
          bs = write_u32 bc bs (data_size c);
          bs = write_var_bytes bc bs (sc_block_hash c);
          bs = write_var_bytes bc bs (src_id c);
          bs = write_var_bytes bc bs (src_pubkey c);
          bs = write_var_bytes bc bs (dest_id c);
          bs = write_var_bytes bc bs (dest_pubkey c)
      in bs)"

abbreviation wf_elem :: "sig_chain_elem \<Rightarrow> bool" where
  "wf_elem e \<equiv> fits_u64 (elem_id e) \<and> fits_u64 (next_pubkey e)"

abbreviation wf_chain :: "sig_chain \<Rightarrow> bool" where
  "wf_chain c \<equiv> fits_u64 (sc_block_hash c) \<and> fits_u64 (src_id c) \<and> fits_u64 (src_pubkey c) \<and>
     fits_u64 (dest_id c) \<and> fits_u64 (dest_pubkey c)"

context buf_provider
begin

lemma put_u32_inject [simp]: "put_u32 bc x = put_u32 bc y \<longleftrightarrow> x = y"
  using u32c.enc_injective [of x y] by auto

lemma serialize_elem_eq:
  "serialize_unsigned_elem bc e =
     write_var_bytes bc [] (elem_id e) @ write_var_bytes bc [] (next_pubkey e) @
     write_bool [] (mining e) @ vrf e"
  unfolding serialize_unsigned_elem_def Let_def
  by (simp add: write_var_bytes_append [of "write_var_bytes bc [] x" for x] write_bool_def write_u8_def)

lemma serialize_metadata_eq:
  "serialize_metadata bc c =
     put_u32 bc (sc_nonce c) @ put_u32 bc (data_size c) @ write_var_bytes bc [] (sc_block_hash c) @
     write_var_bytes bc [] (src_id c) @ write_var_bytes bc [] (src_pubkey c) @
     write_var_bytes bc [] (dest_id c) @ write_var_bytes bc [] (dest_pubkey c)"
proof -
  have app: "write_var_bytes bc (xs @ ys) z = xs @ write_var_bytes bc ys z" for xs ys z
    by (metis append_assoc write_var_bytes_append)
  have one: "write_var_bytes bc (put_u32 bc x) z = put_u32 bc x @ write_var_bytes bc [] z" for x z
    by (rule write_var_bytes_append)
  have vb: "write_var_bytes bc (write_var_bytes bc [] x) z =
      write_var_bytes bc [] x @ write_var_bytes bc [] z" for x z
    by (rule write_var_bytes_append)
  show ?thesis
    unfolding serialize_metadata_def Let_def write_u32_def append_Nil
    by (simp only: app one vb append_assoc)
qed

lemma serialize_elem_inject:
  assumes "wf_elem e" "wf_elem f" "serialize_unsigned_elem bc e = serialize_unsigned_elem bc f"
  shows "elem_id e = elem_id f \<and> next_pubkey e = next_pubkey f \<and> mining e = mining f \<and> vrf e = vrf f"
  using assms unfolding serialize_elem_eq by (simp add: vbc.cancel boolc.cancel)

lemma serialize_metadata_inject:
  assumes "wf_chain c" "wf_chain d" "serialize_metadata bc c = serialize_metadata bc d"
  shows "sc_nonce c = sc_nonce d \<and> data_size c = data_size d \<and>
    sc_block_hash c = sc_block_hash d \<and> src_id c = src_id d \<and> src_pubkey c = src_pubkey d \<and>
    dest_id c = dest_id d \<and> dest_pubkey c = dest_pubkey d"
proof -
  from assms have "sc_nonce c = sc_nonce d \<and> data_size c = data_size d \<and>
    sc_block_hash c = sc_block_hash d \<and> src_id c = src_id d \<and> src_pubkey c = src_pubkey d \<and>
    dest_id c = dest_id d \<and>
    write_var_bytes bc [] (dest_pubkey c) = write_var_bytes bc [] (dest_pubkey d)"
    unfolding serialize_metadata_eq by (simp add: vbc.cancel)
  then show ?thesis
    using vbc.enc_injective [of "dest_pubkey c" "dest_pubkey d"] assms(1,2) by blast
qed

end

section \<open>Properties\<close>

text \<open>C26: the metadata of a signature chain is serialized unambiguously: two chains with the same
  bytes agree on the nonce, the data size, the block hash and the ids and keys of both ends, so a
  signature over the bytes binds all of them.\<close>

theorem sig_chain_metadata_injective:
  assumes "buf_laws bc" "wf_chain c" "wf_chain d"
    and "serialize_metadata bc c = serialize_metadata bc d"
  shows "sc_nonce c = sc_nonce d \<and> data_size c = data_size d \<and>
    sc_block_hash c = sc_block_hash d \<and> src_id c = src_id d \<and> src_pubkey c = src_pubkey d \<and>
    dest_id c = dest_id d \<and> dest_pubkey c = dest_pubkey d"
  using buf_provider.serialize_metadata_inject [OF buf_provider.intro [OF assms(1)]] assms(2-4) .

theorem sig_chain_metadata_injective_witness:
  "serialize_metadata be_crate
      \<lparr>sc_nonce = 1, data_size = 5, sc_block_hash = [2], src_id = [3], src_pubkey = [4],
       dest_id = [], dest_pubkey = [6, 7], elems = [default_elem]\<rparr> =
   serialize_metadata be_crate
      \<lparr>sc_nonce = 1, data_size = 5, sc_block_hash = [2], src_id = [3], src_pubkey = [4],
       dest_id = [], dest_pubkey = [6, 7], elems = []\<rparr> \<and> [6, 7] = [6, 7 :: u8]"
  using sig_chain_metadata_injective [OF be.laws, of
      "\<lparr>sc_nonce = 1, data_size = 5, sc_block_hash = [2], src_id = [3], src_pubkey = [4],
       dest_id = [], dest_pubkey = [6, 7], elems = [default_elem]\<rparr>"
      "\<lparr>sc_nonce = 1, data_size = 5, sc_block_hash = [2], src_id = [3], src_pubkey = [4],
       dest_id = [], dest_pubkey = [6, 7], elems = []\<rparr>"]
  by (simp add: serialize_metadata_def)

text \<open>The unsigned serialization of a chain element binds its id, the next hop's public key,
  the mining flag and the VRF, and nothing else: signature, algorithm and proof are left out.\<close>

theorem sig_chain_elem_binds:
  assumes "buf_laws bc" "wf_elem e" "wf_elem f"
  shows "serialize_unsigned_elem bc e = serialize_unsigned_elem bc f \<longleftrightarrow>
    elem_id e = elem_id f \<and> next_pubkey e = next_pubkey f \<and> mining e = mining f \<and> vrf e = vrf f"
  using buf_provider.serialize_elem_inject [OF buf_provider.intro [OF assms(1)] assms(2,3)]
  by (auto simp: serialize_unsigned_elem_def)

theorem sig_chain_elem_binds_witness:
  "serialize_unsigned_elem be_crate default_elem \<noteq>
     serialize_unsigned_elem be_crate (default_elem\<lparr>mining := True\<rparr>)"
  using sig_chain_elem_binds [OF be.laws, of default_elem "default_elem\<lparr>mining := True\<rparr>"]
  by (simp add: default_elem_def)

end
