(* ===== verification/Errors.thy ===== *)
theory Errors
  imports NKN_Prelude
begin

text \<open>
  \<^verbatim>\<open>src/error.rs\<close>: the error codes of a node and the errors of an NCP session. \<open>nkn_error_code\<close> is the
  cast of a variant to its discriminant, \<open>nkn_error_from\<close> the conversion \<^verbatim>\<open>From<i64>\<close>, whose last
  arm panics; \<open>description\<close> and \<open>display\<close> print a session error.
\<close>

datatype nkn_error =
    Success | SessionExpired | ServiceCeiling | IllegalDataFormat | InvalidMethod
    | InvalidParams | InvalidToken | InvalidTransaction | InvalidAsset | InvalidBlock
    | InvalidHash | InvalidVersion | UnknownTransaction | UnknownAsset | UnknownBlock
    | UnknownHash | InternalError | SmartCodeError | WrongNode | NoCode | Unknown | DuplicatedTx
    | InputOutputTooLong | DuplicateInput | AssetPrecision | TransactionBalance
    | AttributeProgram | TransactionContracts | TransactionPayload | DoubleSpend
    | TxHashDuplicate | StateUpdaterVaild | SummaryAsset | XmitFail | DuplicateName | MineReward
    | DuplicateSubscription | SubscriptionLimit | DoNotPropagate | AlreadySubscribed
    | AppendTxnPool | NullID | ZeroID | NullDB

primrec nkn_error_code :: "nkn_error \<Rightarrow> i64" where
  "nkn_error_code Success = 0"
| "nkn_error_code SessionExpired = 41001"
| "nkn_error_code ServiceCeiling = 41002"
| "nkn_error_code IllegalDataFormat = 41003"
| "nkn_error_code InvalidMethod = 42001"
| "nkn_error_code InvalidParams = 42002"
| "nkn_error_code InvalidToken = 42003"
| "nkn_error_code InvalidTransaction = 43001"
| "nkn_error_code InvalidAsset = 43002"
| "nkn_error_code InvalidBlock = 43003"
| "nkn_error_code InvalidHash = 43004"
| "nkn_error_code InvalidVersion = 43005"
| "nkn_error_code UnknownTransaction = 44001"
| "nkn_error_code UnknownAsset = 44002"
| "nkn_error_code UnknownBlock = 44003"
| "nkn_error_code UnknownHash = 44004"
| "nkn_error_code InternalError = 45001"
| "nkn_error_code SmartCodeError = 47001"
| "nkn_error_code WrongNode = 48001"
| "nkn_error_code NoCode = - 2"
| "nkn_error_code Unknown = - 1"
| "nkn_error_code DuplicatedTx = 1"
| "nkn_error_code InputOutputTooLong = 45002"
| "nkn_error_code DuplicateInput = 45003"
| "nkn_error_code AssetPrecision = 45004"
| "nkn_error_code TransactionBalance = 45005"
| "nkn_error_code AttributeProgram = 45006"
| "nkn_error_code TransactionContracts = 45007"
| "nkn_error_code TransactionPayload = 45008"
| "nkn_error_code DoubleSpend = 45009"
| "nkn_error_code TxHashDuplicate = 45010"
| "nkn_error_code StateUpdaterVaild = 45011"
| "nkn_error_code SummaryAsset = 45012"
| "nkn_error_code XmitFail = 45013"
| "nkn_error_code DuplicateName = 45015"
| "nkn_error_code MineReward = 45016"
| "nkn_error_code DuplicateSubscription = 45017"
| "nkn_error_code SubscriptionLimit = 45018"
| "nkn_error_code DoNotPropagate = 45019"
| "nkn_error_code AlreadySubscribed = 45020"
| "nkn_error_code AppendTxnPool = 45021"
| "nkn_error_code NullID = 45022"
| "nkn_error_code ZeroID = 45023"
| "nkn_error_code NullDB = 45024"

definition nkn_error_from :: "i64 \<Rightarrow> (nkn_error, 'e) outcome" where
  "nkn_error_from i =
     (if i = 0 then Ok Success
      else if i = 41001 then Ok SessionExpired
      else if i = 41002 then Ok ServiceCeiling
      else if i = 41003 then Ok IllegalDataFormat
      else if i = 42001 then Ok InvalidMethod
      else if i = 42002 then Ok InvalidParams
      else if i = 42003 then Ok InvalidToken
      else if i = 43001 then Ok InvalidTransaction
      else if i = 43002 then Ok InvalidAsset
      else if i = 43003 then Ok InvalidBlock
      else if i = 43004 then Ok InvalidHash
      else if i = 43005 then Ok InvalidVersion
      else if i = 44001 then Ok UnknownTransaction
      else if i = 44002 then Ok UnknownAsset
      else if i = 44003 then Ok UnknownBlock
      else if i = 44004 then Ok UnknownHash
      else if i = 45001 then Ok InternalError
      else if i = 47001 then Ok SmartCodeError
      else if i = 48001 then Ok WrongNode
      else if i = - 2 then Ok NoCode
      else if i = - 1 then Ok Unknown
      else if i = 1 then Ok DuplicatedTx
      else if i = 45002 then Ok InputOutputTooLong
      else if i = 45003 then Ok DuplicateInput
      else if i = 45004 then Ok AssetPrecision
      else if i = 45005 then Ok TransactionBalance
      else if i = 45006 then Ok AttributeProgram
      else if i = 45007 then Ok TransactionContracts
      else if i = 45008 then Ok TransactionPayload
      else if i = 45009 then Ok DoubleSpend
      else if i = 45010 then Ok TxHashDuplicate
      else if i = 45011 then Ok StateUpdaterVaild
      else if i = 45012 then Ok SummaryAsset
      else if i = 45013 then Ok XmitFail
      else if i = 45015 then Ok DuplicateName
      else if i = 45016 then Ok MineReward
      else if i = 45017 then Ok DuplicateSubscription
      else if i = 45018 then Ok SubscriptionLimit
      else if i = 45019 then Ok DoNotPropagate
      else if i = 45020 then Ok AlreadySubscribed
      else if i = 45021 then Ok AppendTxnPool
      else if i = 45022 then Ok NullID
      else if i = 45023 then Ok ZeroID
      else if i = 45024 then Ok NullDB
      else Panic)"

text \<open>\<^verbatim>\<open>io::Error\<close> is the standard library's; of it only the text it prints is used here.\<close>

datatype ncp_error =
    Io string
  | SessionNotEstablished | SessionClosed | BufferEmpty | BufferTooLarge
  | SessionAlreadyAccepted | UndefinedConnection

definition ncp_error_from_io :: "string \<Rightarrow> ncp_error" where
  "ncp_error_from_io err = Io err"

primrec description :: "ncp_error \<Rightarrow> string" where
  "description (Io err) = err"
| "description SessionNotEstablished = ''Session is not established''"
| "description SessionClosed = ''Session is closed''"
| "description BufferEmpty = ''Buffer is empty''"
| "description BufferTooLarge = ''Buffer is too large''"
| "description SessionAlreadyAccepted = ''Session is already accepted''"
| "description UndefinedConnection = ''The connection is not defined''"

definition display :: "ncp_error \<Rightarrow> string" where
  "display e = (case e of Io err \<Rightarrow> err | _ \<Rightarrow> description e)"

lemma nkn_error_from_code: "nkn_error_from (nkn_error_code e) = Ok e"
  by (cases e) (simp_all add: nkn_error_from_def)

lemma nkn_error_from_other:
  assumes "i \<notin> range nkn_error_code"
  shows "nkn_error_from i = Panic"
proof -
  have ne: "(i = nkn_error_code e) = False" for e using assms by blast
  note codes =
    ne [of Success] ne [of SessionExpired] ne [of ServiceCeiling] ne [of IllegalDataFormat]
    ne [of InvalidMethod] ne [of InvalidParams] ne [of InvalidToken] ne [of InvalidTransaction]
    ne [of InvalidAsset] ne [of InvalidBlock] ne [of InvalidHash] ne [of InvalidVersion]
    ne [of UnknownTransaction] ne [of UnknownAsset] ne [of UnknownBlock] ne [of UnknownHash]
    ne [of InternalError] ne [of SmartCodeError] ne [of WrongNode] ne [of NoCode]
    ne [of Unknown] ne [of DuplicatedTx] ne [of InputOutputTooLong] ne [of DuplicateInput]
    ne [of AssetPrecision] ne [of TransactionBalance] ne [of AttributeProgram]
    ne [of TransactionContracts] ne [of TransactionPayload] ne [of DoubleSpend]
    ne [of TxHashDuplicate] ne [of StateUpdaterVaild] ne [of SummaryAsset] ne [of XmitFail]
    ne [of DuplicateName] ne [of MineReward] ne [of DuplicateSubscription]
    ne [of SubscriptionLimit] ne [of DoNotPropagate] ne [of AlreadySubscribed]
    ne [of AppendTxnPool] ne [of NullID] ne [of ZeroID] ne [of NullDB]
  show ?thesis
    by (simp only: nkn_error_from_def codes [unfolded nkn_error_code.simps] if_False)
qed

text \<open>The conversion from a node's code is the inverse of the cast to the code, on every
  variant; on any other code it panics, so an error code that a newer node adds takes the client
  down.\<close>

theorem nkn_error_roundtrip:
  "(\<forall>e. nkn_error_from (nkn_error_code e) = (Ok e :: (nkn_error, string) outcome)) \<and>
   (\<forall>i. i \<notin> range nkn_error_code \<longrightarrow> nkn_error_from i = (Panic :: (nkn_error, string) outcome))"
  by (simp add: nkn_error_from_code nkn_error_from_other)

theorem nkn_error_roundtrip_witness:
  "nkn_error_from 45014 = (Panic :: (nkn_error, string) outcome)"
proof -
  have "45014 \<notin> range nkn_error_code"
  proof
    assume "45014 \<in> range nkn_error_code"
    then obtain e where "nkn_error_code e = 45014" by force
    then show False by (cases e) simp_all
  qed
  then show ?thesis using nkn_error_roundtrip by blast
qed

end
