(* ===== verification/Connection.thy ===== *)
theory Connection
  imports Complex_Main Sequence "HOL-Library.Multiset"
begin

text \<open>
  One connection of an NCP session (\<^verbatim>\<open>src/connection.rs\<close>), with the session's configuration
  (\<^verbatim>\<open>NcpConfig\<close>) and the packet type of \<^verbatim>\<open>protos/packet.proto\<close>. The state behind the locks is the
  record \<open>connection\<close>; each definition is one handler or one round of a background loop, from
  the point where its \<^verbatim>\<open>sleep\<close> or its channel wakes it up. What comes from outside is an argument:
  the clock, the result of \<^verbatim>\<open>send_with\<close>, whether a channel took a value, and the order in which
  a \<^verbatim>\<open>HashMap\<close> is iterated. What goes out is a list of \<open>effect\<close>s.

  Times are nanoseconds: a \<^verbatim>\<open>SystemTime\<close> is an \<^typ>\<open>int\<close>, a \<^verbatim>\<open>Duration\<close> a \<^typ>\<open>nat\<close>. An \<^verbatim>\<open>f64\<close> is a
  \<^typ>\<open>real\<close>, and every floating-point operation rounds its exact result with the argument \<open>rnd\<close>;
  the values the code computes stay finite.
\<close>

section \<open>Configuration, packets, effects\<close>

record ncp_config =
  non_stream :: bool
  session_window_size :: i32
  cfg_mtu :: i32
  min_connection_window_size :: i32
  max_ask_seq_list_size :: nat
  flush_interval :: i32
  linger :: i32
  initial_retransmission_timeout :: u64
  max_retransmission_timeout :: u64
  send_ack_interval :: u64
  check_timeout_interval :: u64
  send_bytes_read_threshold :: i32

definition default_ncp_config :: ncp_config where
  "default_ncp_config = \<lparr>non_stream = True, session_window_size = push_bit 20 4, cfg_mtu = 1024,
     min_connection_window_size = 1, max_ask_seq_list_size = 32, flush_interval = 10,
     linger = 1000, initial_retransmission_timeout = 5000, max_retransmission_timeout = 10000,
     send_ack_interval = 50, check_timeout_interval = 100, send_bytes_read_threshold = 200\<rparr>"

record packet =
  sequence_id :: u32
  pdata :: bytes
  ack_start_seq :: "u32 list"
  ack_seq_count :: "u32 list"
  pbytes_read :: u64
  client_ids :: "string list"
  pwindow_size :: u32
  pmtu :: u32
  pclose :: bool
  handshake :: bool

definition default_packet :: packet where
  "default_packet = \<lparr>sequence_id = 0, pdata = [], ack_start_seq = [], ack_seq_count = [],
     pbytes_read = 0, client_ids = [], pwindow_size = 0, pmtu = 0, pclose = False, handshake = False\<rparr>"

text \<open>The generated protobuf code of a packet: encoding always succeeds, decoding may fail.\<close>

record packet_codec =
  encode_packet :: "packet \<Rightarrow> bytes"
  decode_packet :: "bytes \<Rightarrow> packet option"

datatype effect =
    SendWith string string bytes nat   \<comment> \<open>a call of \<^verbatim>\<open>send_with\<close>: local id, remote id, bytes, timeout\<close>
  | SendSeq u32                        \<comment> \<open>a sequence number put on \<^verbatim>\<open>send_chan\<close>\<close>
  | ResendSeq u32                      \<comment> \<open>a sequence number put on \<^verbatim>\<open>resend_chan\<close>\<close>
  | OnAccept                           \<comment> \<open>the signal on \<^verbatim>\<open>on_accept\<close>\<close>
  | WindowUpdate                       \<comment> \<open>the signal on the session's \<^verbatim>\<open>send_window_update\<close>\<close>
  | PollRecvUpdate                     \<comment> \<open>the non-blocking receive on \<^verbatim>\<open>recv_data_update\<close>\<close>

section \<open>The acknowledgement heap\<close>

text \<open>
  \<^verbatim>\<open>BinaryHeap<SeqElem>\<close>: \<^verbatim>\<open>push\<close> adds, \<^verbatim>\<open>peek\<close> and \<^verbatim>\<open>pop\<close> give a greatest element in the order of
  \<open>seq_cmp\<close>. The contents are a list; of several greatest elements the first is taken.
\<close>

definition seq_gt :: "u32 \<Rightarrow> u32 \<Rightarrow> bool" where
  "seq_gt x y \<longleftrightarrow> seq_cmp \<lparr>v = x\<rparr> \<lparr>v = y\<rparr> = Greater"

definition heap_push :: "u32 \<Rightarrow> u32 list \<Rightarrow> u32 list" where
  "heap_push x q = q @ [x]"

fun heap_max :: "u32 \<Rightarrow> u32 list \<Rightarrow> u32" where
  "heap_max m [] = m"
| "heap_max m (x # xs) = heap_max (if seq_gt x m then x else m) xs"

fun heap_peek :: "u32 list \<Rightarrow> u32 option" where
  "heap_peek [] = None"
| "heap_peek (x # xs) = Some (heap_max x xs)"

definition heap_pop :: "u32 list \<Rightarrow> (u32 \<times> u32 list) option" where
  "heap_pop q = map_option (\<lambda>m. (m, remove1 m q)) (heap_peek q)"

section \<open>State and operations\<close>

record connection =
  local_client_id :: string
  remote_client_id :: string
  conn_config :: ncp_config
  window_size :: real
  time_sent_seq :: "u32 \<rightharpoonup> int"
  resent_seq :: "u32 set"
  send_ack_queue :: "u32 list"
  retransmission_timeout :: nat

definition connection_new :: "string \<Rightarrow> string \<Rightarrow> real \<Rightarrow> connection" where
  "connection_new lid rid w =
     \<lparr>local_client_id = lid, remote_client_id = rid, conn_config = default_ncp_config,
      window_size = w, time_sent_seq = Map.empty, resent_seq = {}, send_ack_queue = [],
      retransmission_timeout = 5000 * 1000000\<rparr>"

definition conn_send_window_used :: "connection \<Rightarrow> u32" where
  "conn_send_window_used c = of_nat (card (dom (time_sent_seq c)))"

definition conn_send_ack :: "connection \<Rightarrow> u32 \<Rightarrow> connection" where
  "conn_send_ack c seq = c\<lparr>send_ack_queue := heap_push seq (send_ack_queue c)\<rparr>"

definition send_ack_queue_len :: "connection \<Rightarrow> nat" where
  "send_ack_queue_len c = length (send_ack_queue c)"

text \<open>\<^verbatim>\<open>as u32\<close> and \<^verbatim>\<open>as u64\<close> on an \<^verbatim>\<open>f64\<close>: truncation that saturates at both ends.\<close>

definition f64_to_u32 :: "real \<Rightarrow> u32" where
  "f64_to_u32 x = (if x < 0 then 0 else if 4294967295 \<le> x then u32_MAX else of_int \<lfloor>x\<rfloor>)"

definition f64_to_nat :: "real \<Rightarrow> nat" where
  "f64_to_nat x = (if x < 0 then 0 else if 18446744073709551615 \<le> x then 18446744073709551615
     else nat \<lfloor>x\<rfloor>)"

datatype wakeup = Updated | Timeout

text \<open>
  \<open>wait_for_send_window\<close>: the argument lists what wakes the \<^verbatim>\<open>select!\<close>, each with the number of
  unacknowledged packets the loop then sees; \<open>None\<close> is "still waiting".
\<close>

fun conn_wait_for_send_window ::
    "real \<Rightarrow> u32 \<Rightarrow> (wakeup \<times> u32) list \<Rightarrow> (unit, string) outcome option" where
  "conn_wait_for_send_window w used ws =
     (if f64_to_u32 w \<le> used then
        (case ws of
           [] \<Rightarrow> None
         | (Updated, used') # ws' \<Rightarrow> conn_wait_for_send_window w used' ws'
         | (Timeout, _) # _ \<Rightarrow> Some (Err ''send window timeout''))
      else Some (Ok ()))"

definition set_window_size :: "connection \<Rightarrow> real \<Rightarrow> real \<Rightarrow> connection" where
  "set_window_size c n m = c\<lparr>window_size := (if n < m then m else n)\<rparr>"

text \<open>
  The new retransmission timeout of \<open>receive_ack\<close>, in nanoseconds: \<^verbatim>\<open>3 * rtt - timeout\<close> is a
  subtraction of durations, which panics below zero; \<^verbatim>\<open>tanh\<close> is the standard library's, an
  argument because its precision is not specified.
\<close>

definition ack_timeout ::
    "(real \<Rightarrow> real) \<Rightarrow> (real \<Rightarrow> real) \<Rightarrow> int \<Rightarrow> int \<Rightarrow> nat \<Rightarrow> (nat, 'e) outcome" where
  "ack_timeout rnd tanh64 now t timeout =
     (if now < t then Panic
      else let rtt = nat (now - t) in
        if 3 * rtt < timeout then Panic
        else let d = rnd (rnd (rnd (real (3 * rtt - timeout)) / rnd (real (1000 * 1000000))) *
                       rnd (real (100 * 1000000)))
             in Ok (f64_to_nat (tanh64 d)))"

definition receive_ack ::
    "(real \<Rightarrow> real) \<Rightarrow> (real \<Rightarrow> real) \<Rightarrow> int \<Rightarrow> bool \<Rightarrow> connection \<Rightarrow> u32 \<Rightarrow> bool \<Rightarrow>
      (unit, string) outcome \<times> connection" where
  "receive_ack rnd tanh64 now chan_ok c seq is_sent_by_me =
     (case time_sent_seq c seq of
        None \<Rightarrow> (Ok (), c)
      | Some t \<Rightarrow>
          (case (if is_sent_by_me
                 then and_then (ack_timeout rnd tanh64 now t (retransmission_timeout c)) (\<lambda>ms.
                   Ok (if unat (max_retransmission_timeout (conn_config c)) < ms div 1000000
                       then unat (max_retransmission_timeout (conn_config c)) * 1000000 else ms))
                 else Ok (retransmission_timeout c)) of
             Ok ms \<Rightarrow>
               let c = c\<lparr>retransmission_timeout := ms,
                         time_sent_seq := (time_sent_seq c)(seq := None),
                         resent_seq := resent_seq c - {seq}\<rparr>
               in (if chan_ok then Ok () else Panic, c)
           | Err e \<Rightarrow> (Err e, c)
           | Panic \<Rightarrow> (Panic, c)))"

section \<open>Background rounds\<close>

text \<open>The inner \<^verbatim>\<open>while\<close> of \<open>send_ack\<close>: fold the numbers that continue \<open>s\<close> into its count.\<close>

function ack_coalesce :: "profile \<Rightarrow> u32 \<Rightarrow> u32 \<Rightarrow> u32 list \<Rightarrow> (u32 \<times> u32 list, string) outcome" where
  "ack_coalesce p s cnt q =
     (case heap_peek q of
        None \<Rightarrow> Ok (cnt, q)
      | Some x \<Rightarrow>
          and_then (next_seq p s (ucast cnt)) (\<lambda>n.
            if x = n then and_then (add_u p cnt 1) (\<lambda>cnt'. ack_coalesce p s cnt' (remove1 x q))
            else Ok (cnt, q)))"
  by pat_completeness auto

lemma heap_max_in: "heap_max m xs \<in> set (m # xs)"
  by (induction xs arbitrary: m) (auto split: if_splits)

lemma heap_peek_in: "heap_peek q = Some x \<Longrightarrow> x \<in> set q"
  using heap_max_in by (cases q) auto

lemma length_remove1_peek: "heap_peek q = Some x \<Longrightarrow> length (remove1 x q) < length q"
  using heap_peek_in [of q x] length_pos_if_in_set [of x q] by (simp add: length_remove1)

termination ack_coalesce
  by (relation "measure (\<lambda>(p, s, c, q). length q)") (auto intro: length_remove1_peek)

declare ack_coalesce.simps [simp del]

lemma next_seq_not_Err: "next_seq p s step \<noteq> Err e"
  by (simp add: next_seq_unfold and_then_Err_iff add_s_def)

lemma ack_coalesce_not_Err: "ack_coalesce p s cnt q \<noteq> Err e"
proof (induction p s cnt q rule: ack_coalesce.induct)
  case (1 p s cnt q)
  then show ?case
    by (subst ack_coalesce.simps)
      (auto simp: and_then_Err_iff next_seq_not_Err split: option.splits)
qed

lemma ack_coalesce_length: "ack_coalesce p s cnt q = Ok (c, q') \<Longrightarrow> length q' \<le> length q"
proof (induction p s cnt q rule: ack_coalesce.induct)
  case (1 p s cnt q)
  show ?case
  proof (cases "heap_peek q")
    case None
    then show ?thesis using "1.prems" by (subst (asm) ack_coalesce.simps) simp
  next
    case (Some x)
    have "length (remove1 x q) < length q" by (rule length_remove1_peek [OF Some])
    then show ?thesis
      using "1.prems" "1.IH" [OF Some] Some
      by (subst (asm) ack_coalesce.simps) (fastforce simp: outcome_simps split: if_splits)
  qed
qed

text \<open>The \<^verbatim>\<open>loop\<close> of \<open>send_ack\<close> that empties the queue into the two lists of the packet.\<close>

function ack_collect ::
    "profile \<Rightarrow> nat \<Rightarrow> u32 list \<Rightarrow> u32 list \<Rightarrow> u32 list \<Rightarrow> (u32 list \<times> u32 list \<times> u32 list, string) outcome" where
  "ack_collect p mx q starts counts =
     (if q = [] \<and> mx \<le> length starts then Ok (q, starts, counts)
      else case heap_pop q of
          None \<Rightarrow> Panic
        | Some (s, q1) \<Rightarrow>
            (case ack_coalesce p s 1 q1 of
               Ok (cnt, q2) \<Rightarrow> ack_collect p mx q2 (starts @ [s]) (counts @ [cnt])
             | Err e \<Rightarrow> Err e
             | Panic \<Rightarrow> Panic))"
  by pat_completeness auto

lemma heap_pop_length: "heap_pop q = Some (s, q1) \<Longrightarrow> length q1 < length q"
  by (auto simp: heap_pop_def dest: length_remove1_peek)

termination ack_collect
proof (relation "measure (\<lambda>(p, mx, q, ss, cs). length q)", goal_cases)
  case (2 p mx q ss cs x s q1 y cnt q2)
  then show ?case by (fastforce dest: heap_pop_length ack_coalesce_length)
qed simp

declare ack_collect.simps [simp del]

text \<open>
  Taking the connection's \<^verbatim>\<open>Mutex\<close>, which is not reentrant: a task that waits for a lock it holds
  itself never goes on.
\<close>

definition lock_conn :: "bool \<Rightarrow> bool option" where
  "lock_conn held = (if held then None else Some True)"

text \<open>
  One round of the task \<open>send_ack\<close>, after its sleep, and whether the task gets to another one. The
  call of \<^verbatim>\<open>send_with\<close> takes the lock twice among its arguments; the guard of the first lives to the
  end of the statement.
\<close>

definition send_ack_round ::
    "profile \<Rightarrow> packet_codec \<Rightarrow> ncp_config \<Rightarrow> connection \<Rightarrow> (bool \<times> connection \<times> effect list, string) outcome" where
  "send_ack_round p pc config c =
     (if send_ack_queue_len c = 0 then Ok (True, c, [])
      else and_then (ack_collect p (max_ask_seq_list_size config) (send_ack_queue c) [] [])
        (\<lambda>(q, starts, counts).
          let omit_count = list_all (\<lambda>n. n = 1) counts;
              counts = (if omit_count then [] else counts);
              pkt = default_packet\<lparr>ack_start_seq := starts, ack_seq_count := counts, pbytes_read := 0\<rparr>;
              buf = encode_packet pc pkt;
              c = c\<lparr>send_ack_queue := q\<rparr>
          in case lock_conn False of
               None \<Rightarrow> Ok (False, c, [])
             | Some guard \<Rightarrow>
                 (case lock_conn guard of
                    None \<Rightarrow> Ok (False, c, [])
                  | Some _ \<Rightarrow> Ok (True, c, [SendWith (local_client_id c) (remote_client_id c) buf 0]))))"

text \<open>
  One round of the task \<open>check_timeout\<close>: \<open>order\<close> is the iteration order of \<^verbatim>\<open>time_sent_seq\<close>.
\<close>

fun resend_timed_out :: "int \<Rightarrow> (u32 \<times> int) list \<Rightarrow> u32 set \<Rightarrow> u32 set \<times> effect list" where
  "resend_timed_out threshold [] rss = (rss, [])"
| "resend_timed_out threshold ((seq, t) # order) rss =
     (if seq \<in> rss then resend_timed_out threshold order rss
      else if t < threshold then
        (let (rss', es) = resend_timed_out threshold order (insert seq rss) in (rss', ResendSeq seq # es))
      else resend_timed_out threshold order rss)"

definition check_timeout_round :: "int \<Rightarrow> (u32 \<times> int) list \<Rightarrow> connection \<Rightarrow> connection \<times> effect list" where
  "check_timeout_round now order c =
     (let threshold = now - int (retransmission_timeout c);
          (rss, es) = resend_timed_out threshold order (resent_seq c)
      in (c\<lparr>resent_seq := rss\<rparr>, es))"

text \<open>
  One pass of the loop of \<open>tx\<close>. \<open>polled\<close> is what the non-blocking receive on \<^verbatim>\<open>resend_rx\<close> gave
  and \<open>waited\<close> the result of waiting for the window; \<open>received\<close> is what the blocking
  \<^verbatim>\<open>select!\<close> gave. The result says whether the loop goes on.
\<close>

definition tx_send ::
    "(real \<Rightarrow> real) \<Rightarrow> int \<Rightarrow> bool \<Rightarrow> (u32 \<rightharpoonup> bytes) \<Rightarrow> connection \<Rightarrow> u32 \<Rightarrow>
      (bool \<times> connection \<times> effect list, string) outcome" where
  "tx_send rnd now send_ok send_window_data c seq =
     and_then (unwrap (send_window_data seq)) (\<lambda>buf.
       if buf = [] then
         Ok (True, c\<lparr>time_sent_seq := (time_sent_seq c)(seq := None),
                     resent_seq := resent_seq c - {seq}\<rparr>, [])
       else
         let call = SendWith (local_client_id c) (local_client_id c) buf 0;
             c = (if send_ok then c else set_window_size c (rnd (window_size c / 2)) 1);
             seq = (if send_ok then seq else 0);
             c = c\<lparr>time_sent_seq := (case time_sent_seq c seq of
                       None \<Rightarrow> (time_sent_seq c)(seq \<mapsto> now) | Some _ \<Rightarrow> time_sent_seq c)\<rparr>;
             c = c\<lparr>resent_seq := resent_seq c - {seq}\<rparr>
         in Ok (True, c, [call]))"

definition tx_round ::
    "(real \<Rightarrow> real) \<Rightarrow> int \<Rightarrow> bool \<Rightarrow> (u32 \<rightharpoonup> bytes) \<Rightarrow> u32 option \<Rightarrow> (unit, string) outcome \<Rightarrow> u32 \<Rightarrow>
      connection \<Rightarrow> (bool \<times> connection \<times> effect list, string) outcome" where
  "tx_round rnd now send_ok send_window_data polled waited received c =
     (let seq = (case polled of Some s \<Rightarrow> s | None \<Rightarrow> 0) in
      if seq = 0 then
        (case waited of
           Err e \<Rightarrow> Ok (False, c, [])
         | Panic \<Rightarrow> Panic
         | Ok _ \<Rightarrow> tx_send rnd now send_ok send_window_data c received)
      else tx_send rnd now send_ok send_window_data c seq)"

section \<open>The acknowledgement rounds\<close>

text \<open>Each pass of \<open>ack_collect\<close> takes at least one number off the queue.\<close>

lemma ack_collect_panics:
  "length starts + length q < mx \<Longrightarrow> (ack_collect p mx q starts counts :: (_, string) outcome) = Panic"
proof (induction p mx q starts counts rule: ack_collect.induct)
  case (1 p mx q starts counts)
  show ?case
  proof (cases "heap_pop q")
    case None
    then show ?thesis using "1.prems" by (subst ack_collect.simps) auto
  next
    case (Some sq)
    obtain s q1 where sq: "sq = (s, q1)" by fastforce
    show ?thesis
    proof (cases "ack_coalesce p s 1 q1 :: (u32 \<times> u32 list, string) outcome")
      case (Ok r)
      obtain cnt q2 where r: "r = (cnt, q2)" by fastforce
      have "length q2 \<le> length q1" "length q1 < length q"
        using Ok Some sq r by (auto dest: ack_coalesce_length heap_pop_length)
      then have "ack_collect p mx q2 (starts @ [s]) (counts @ [cnt]) = Panic"
        using "1.IH" Some sq Ok r "1.prems" by auto
      then show ?thesis using Ok Some sq r "1.prems" by (subst ack_collect.simps) auto
    next
      case (Err e)
      then show ?thesis using ack_coalesce_not_Err by blast
    next
      case Panic
      then show ?thesis using Some sq "1.prems" by (subst ack_collect.simps) auto
    qed
  qed
qed

text \<open>
  A queue whose numbers lie in one window, where \<open>seq_cmp\<close> is a linear order: the position of a
  number is its distance from the window's base.
\<close>

definition seq_pos :: "u32 \<Rightarrow> u32 \<Rightarrow> int" where
  "seq_pos base x = (uint x - uint base) mod 4294967295"

definition in_window :: "u32 \<Rightarrow> u32 list \<Rightarrow> bool" where
  "in_window base q \<longleftrightarrow> base \<noteq> 0 \<and> (\<forall>x\<in>set q. x \<noteq> 0 \<and> seq_pos base x < 2147483646)"

lemma seq_pos_nonneg: "0 \<le> seq_pos base x"
  by (simp add: seq_pos_def)

lemma seq_add_pos: "x \<noteq> 0 \<Longrightarrow> seq_add base (seq_pos base x) = x"
proof -
  assume "x \<noteq> 0"
  have "(uint base - 1 + seq_pos base x) mod 4294967295 = (uint x - 1) mod 4294967295"
    by (simp add: seq_pos_def mod_add_right_eq)
  then have "uint (seq_add base (seq_pos base x)) = uint (seq_add x 0)"
    by (simp add: uint_seq_add)
  then have "seq_add base (seq_pos base x) = seq_add x 0" by (simp only: word_uint_eq_iff)
  then show ?thesis using \<open>x \<noteq> 0\<close> by (simp add: seq_add_0)
qed

lemma seq_pos_add: "0 \<le> i \<Longrightarrow> i < 4294967295 \<Longrightarrow> base \<noteq> 0 \<Longrightarrow> seq_pos base (seq_add base i) = i"
proof -
  assume i: "0 \<le> i" "i < 4294967295"
  let ?m = "(uint base - 1 + i) mod 4294967295"
  have "seq_pos base (seq_add base i) = (?m - (uint base - 1)) mod 4294967295"
    unfolding seq_pos_def uint_seq_add by (simp add: algebra_simps)
  also have "\<dots> = (uint base - 1 + i - (uint base - 1)) mod 4294967295"
    by (rule mod_diff_left_eq)
  finally show "seq_pos base (seq_add base i) = i" using i by simp
qed

lemma seq_gt_pos:
  assumes "in_window base q" "x \<in> set q" "y \<in> set q"
  shows "seq_gt x y \<longleftrightarrow> seq_pos base y < seq_pos base x"
proof -
  have b: "base \<noteq> 0" "x \<noteq> 0" "y \<noteq> 0" "seq_pos base x < 2147483646" "seq_pos base y < 2147483646"
    using assms by (auto simp: in_window_def)
  have "compare_seq x y = sgn (seq_pos base x - seq_pos base y)"
    using compare_seq_offsets [of base "seq_pos base x" "seq_pos base y"] b
    by (simp add: seq_pos_nonneg seq_add_pos)
  then show ?thesis by (auto simp: seq_gt_def seq_cmp_def sgn_if)
qed

lemma heap_max_greatest:
  "in_window base (m # xs) \<Longrightarrow> y \<in> set (m # xs) \<Longrightarrow> seq_pos base y \<le> seq_pos base (heap_max m xs)"
proof (induction xs arbitrary: m y)
  case (Cons x xs)
  let ?m = "if seq_gt x m then x else m"
  have gt: "seq_gt x m \<longleftrightarrow> seq_pos base m < seq_pos base x"
    using seq_gt_pos [OF Cons.prems(1)] by simp
  have win: "in_window base (?m # xs)" using Cons.prems(1) by (auto simp: in_window_def)
  have "seq_pos base ?m \<le> seq_pos base (heap_max ?m xs)"
    using Cons.IH [OF win, of ?m] by simp
  moreover have "seq_pos base y \<le> seq_pos base ?m \<or> y \<in> set xs"
    using Cons.prems(2) gt by auto
  ultimately show ?case using Cons.IH [OF win, of y] by (auto split: if_splits)
qed simp

lemma heap_peek_greatest:
  "in_window base q \<Longrightarrow> heap_peek q = Some x \<Longrightarrow> y \<in> set q \<Longrightarrow> seq_pos base y \<le> seq_pos base x"
  using heap_max_greatest by (cases q) auto

text \<open>After the greatest number nothing in the queue continues it, so nothing is folded.\<close>

lemma ack_coalesce_window:
  assumes "in_window base (s # q)" "\<forall>y\<in>set q. seq_pos base y \<le> seq_pos base s"
  shows "ack_coalesce p s 1 q = Ok (1, q)"
proof (cases "heap_peek q")
  case None
  then show ?thesis by (subst ack_coalesce.simps) simp
next
  case (Some x)
  have s: "base \<noteq> 0" "s = seq_add base (seq_pos base s)" "seq_pos base s < 2147483646"
    using assms(1) by (simp_all add: in_window_def seq_add_pos)
  then have "seq_add s 1 = seq_add base (seq_pos base s + 1)"
    by (metis seq_add_add)
  then have "seq_pos base (seq_add s 1) = seq_pos base s + 1"
    using seq_pos_add [of "seq_pos base s + 1" base] s seq_pos_nonneg [of base s] by simp
  then have "x \<noteq> seq_add s 1"
    using assms(2) heap_peek_in [OF Some] by fastforce
  then show ?thesis
    using Some by (subst ack_coalesce.simps) (simp add: next_seq_eq)
qed

lemma ack_collect_window:
  assumes "in_window base q" and "mx \<le> length starts + length q"
  shows "\<exists>ss. ack_collect p mx q starts counts = Ok ([], starts @ ss, counts @ replicate (length ss) 1) \<and>
    mset ss = mset q \<and> sorted_wrt (\<lambda>x y. seq_pos base y \<le> seq_pos base x) ss"
  using assms
proof (induction "length q" arbitrary: q starts counts)
  case 0
  then show ?case by (subst ack_collect.simps) (simp add: exI [of _ "[]"])
next
  case (Suc n)
  then obtain s where s: "heap_peek q = Some s" by (cases q) auto
  let ?q = "remove1 s q"
  have sin: "s \<in> set q" by (rule heap_peek_in [OF s])
  have len: "n = length ?q" using Suc.hyps(2) sin by (simp add: length_remove1)
  have win: "in_window base ?q" "in_window base (s # ?q)"
    using Suc.prems(1) sin set_remove1_subset [of s q] by (auto simp: in_window_def)
  have top: "\<forall>y\<in>set ?q. seq_pos base y \<le> seq_pos base s"
    using heap_peek_greatest [OF Suc.prems(1) s] set_remove1_subset [of s q] by auto
  have "mx \<le> length (starts @ [s]) + length ?q" using Suc.prems(2) Suc.hyps(2) len by simp
  then obtain ss where ss: "ack_collect p mx ?q (starts @ [s]) (counts @ [1]) =
      Ok ([], (starts @ [s]) @ ss, (counts @ [1]) @ replicate (length ss) 1)"
    "mset ss = mset ?q" "sorted_wrt (\<lambda>x y. seq_pos base y \<le> seq_pos base x) ss"
    using Suc.hyps(1) [OF len win(1)] by blast
  have "ack_collect p mx q starts counts = ack_collect p mx ?q (starts @ [s]) (counts @ [1])"
    using Suc.hyps(2) s ack_coalesce_window [OF win(2) top]
    by (subst ack_collect.simps) (auto simp: heap_pop_def)
  moreover have "mset (s # ss) = mset q" using ss(2) sin by simp
  moreover have "sorted_wrt (\<lambda>x y. seq_pos base y \<le> seq_pos base x) (s # ss)"
    using ss(3) top mset_eq_setD [OF ss(2)] by simp
  ultimately show ?case using ss(1) by (intro exI [of _ "s # ss"]) simp
qed

section \<open>Steps of a connection\<close>

text \<open>Everything that changes a connection, as one relation.\<close>

inductive conn_step :: "connection \<Rightarrow> connection \<Rightarrow> bool" where
  queue_ack: "conn_step c (conn_send_ack c seq)"
| ack: "receive_ack rnd tanh64 now chan_ok c seq me = (r, c') \<Longrightarrow> conn_step c c'"
| resize: "conn_step c (set_window_size c n m)"
| acks_sent: "send_ack_round p pc config c = Ok (go, c', es) \<Longrightarrow> conn_step c c'"
| timeouts: "map_of order = time_sent_seq c \<Longrightarrow> check_timeout_round now order c = (c', es) \<Longrightarrow> conn_step c c'"
| sent: "tx_round rnd now send_ok swd polled waited received c = Ok (go, c', es) \<Longrightarrow> conn_step c c'"

text \<open>Only packets whose sending time is on record are marked as sent again.\<close>

definition conn_inv :: "connection \<Rightarrow> bool" where
  "conn_inv c \<longleftrightarrow> resent_seq c \<subseteq> dom (time_sent_seq c)"

lemma resend_timed_out_subset:
  "resend_timed_out th order rss = (rss', es) \<Longrightarrow> rss' \<subseteq> rss \<union> fst ` set order"
proof (induction th order rss arbitrary: rss' es rule: resend_timed_out.induct)
  case (2 th seq t order rss)
  then show ?case by (fastforce simp: Let_def split: if_splits prod.splits)
qed simp

lemma send_ack_round_frame:
  "send_ack_round p pc config c = Ok (go, c', es) \<Longrightarrow>
     time_sent_seq c' = time_sent_seq c \<and> resent_seq c' = resent_seq c"
  by (auto simp: send_ack_round_def lock_conn_def outcome_simps Let_def split: if_splits)

lemma tx_send_inv:
  "conn_inv c \<Longrightarrow> tx_send rnd now send_ok swd c seq = Ok (go, c', es) \<Longrightarrow> conn_inv c'"
  by (auto simp: conn_inv_def tx_send_def outcome_simps Let_def set_window_size_def
      split: if_splits option.splits)

lemma receive_ack_inv:
  "conn_inv c \<Longrightarrow> receive_ack rnd tanh64 now chan_ok c seq me = (r, c') \<Longrightarrow> conn_inv c'"
  by (auto simp: conn_inv_def receive_ack_def Let_def split: option.splits outcome.splits if_splits)

interpretation conn: step_invariant conn_step conn_inv
proof
  fix c c'
  assume inv: "conn_inv c" and step: "conn_step c c'"
  from step show "conn_inv c'"
  proof cases
    case (timeouts order now es)
    have "fst ` set order = dom (time_sent_seq c)"
      using timeouts(1) by (metis dom_map_of_conv_image_fst)
    then show ?thesis
      using inv timeouts(2) resend_timed_out_subset
      by (fastforce simp: conn_inv_def check_timeout_round_def Let_def split: prod.splits)
  next
    case (sent rnd now send_ok swd polled waited received go es)
    then show ?thesis
      using inv by (auto simp: tx_round_def Let_def intro: tx_send_inv split: if_splits outcome.splits)
  next
    case (acks_sent p pc config go es)
    then show ?thesis using inv send_ack_round_frame by (simp add: conn_inv_def)
  next
    case (ack rnd tanh64 now chan_ok seq me r)
    then show ?thesis using inv by (rule receive_ack_inv [rotated])
  qed (use inv in \<open>simp_all add: conn_inv_def conn_send_ack_def set_window_size_def\<close>)
qed

section \<open>Properties\<close>

text \<open>In every state a connection reaches, the packets marked as resent have their sending
  time on record.\<close>

theorem conn_resent_recorded:
  "conn_step\<^sup>*\<^sup>* (connection_new lid rid w) c \<Longrightarrow>
     resent_seq c \<subseteq> dom (time_sent_seq c)"
proof -
  have "conn_inv (connection_new lid rid w)" by (simp add: conn_inv_def connection_new_def)
  then show "conn_step\<^sup>*\<^sup>* (connection_new lid rid w) c \<Longrightarrow> ?thesis"
    using conn.run by (auto simp: conn_inv_def)
qed

theorem conn_resent_recorded_witness:
  "\<exists>c. conn_step\<^sup>*\<^sup>* (connection_new ''a'' ''b'' 4) c \<and> resent_seq c = {3} \<and> {3} \<subseteq> dom (time_sent_seq c)"
proof -
  let ?c1 = "(connection_new ''a'' ''b'' 4)\<lparr>time_sent_seq := [3 \<mapsto> 0]\<rparr>"
  let ?c2 = "?c1\<lparr>resent_seq := {3}\<rparr>"
  have "tx_round (\<lambda>x. x) 0 True [3 \<mapsto> [1]] (Some 3) (Ok ()) 0 (connection_new ''a'' ''b'' 4) =
      Ok (True, ?c1, [SendWith ''a'' ''a'' [1] 0])"
    by (simp add: tx_round_def tx_send_def connection_new_def)
  then have 1: "conn_step (connection_new ''a'' ''b'' 4) ?c1" by (rule conn_step.sent)
  have "check_timeout_round 6000000000 [(3, 0)] ?c1 = (?c2, [ResendSeq 3])"
    by (simp add: check_timeout_round_def connection_new_def)
  then have 2: "conn_step ?c1 ?c2" by (intro conn_step.timeouts [of "[(3, 0)]"]) simp_all
  have r: "conn_step\<^sup>*\<^sup>* (connection_new ''a'' ''b'' 4) ?c2" using 1 2 by simp
  show ?thesis using r conn_resent_recorded [OF r] by auto
qed

text \<open>C21: what one round of \<open>send_ack\<close> does with a queue of numbers from one window: an empty
  queue sends nothing; a queue shorter than \<^verbatim>\<open>max_ask_seq_list_size\<close> panics on popping the emptied
  heap (the exit test is a conjunction where either part should end the loop); a longer one is
  collected whole, from the greatest number down, and then the task waits for ever for the lock
  it holds. An acknowledgement is never sent.\<close>

theorem send_ack_round_outcome:
  assumes "in_window base (send_ack_queue c)"
  shows "(send_ack_queue c = [] \<longrightarrow> send_ack_round p pc config c = Ok (True, c, [])) \<and>
    (0 < length (send_ack_queue c) \<and> length (send_ack_queue c) < max_ask_seq_list_size config \<longrightarrow>
       send_ack_round p pc config c = Panic) \<and>
    (0 < length (send_ack_queue c) \<and> max_ask_seq_list_size config \<le> length (send_ack_queue c) \<longrightarrow>
       send_ack_round p pc config c = Ok (False, c\<lparr>send_ack_queue := []\<rparr>, []) \<and>
       (\<exists>ss. mset ss = mset (send_ack_queue c) \<and>
          sorted_wrt (\<lambda>x y. seq_pos base y \<le> seq_pos base x) ss \<and>
          ack_collect p (max_ask_seq_list_size config) (send_ack_queue c) [] [] =
            Ok ([], ss, replicate (length ss) 1)))"
proof (intro conjI impI)
  assume "0 < length (send_ack_queue c) \<and> max_ask_seq_list_size config \<le> length (send_ack_queue c)"
  then obtain ss where ss: "ack_collect p (max_ask_seq_list_size config) (send_ack_queue c) [] [] =
      Ok ([], ss, replicate (length ss) 1)" "mset ss = mset (send_ack_queue c)"
      "sorted_wrt (\<lambda>x y. seq_pos base y \<le> seq_pos base x) ss" "send_ack_queue c \<noteq> []"
    using ack_collect_window [OF assms, of "max_ask_seq_list_size config" "[]" p "[]"] by auto
  then show "send_ack_round p pc config c = Ok (False, c\<lparr>send_ack_queue := []\<rparr>, [])"
    by (simp add: send_ack_round_def lock_conn_def send_ack_queue_len_def Let_def)
  show "\<exists>ss. mset ss = mset (send_ack_queue c) \<and>
      sorted_wrt (\<lambda>x y. seq_pos base y \<le> seq_pos base x) ss \<and>
      ack_collect p (max_ask_seq_list_size config) (send_ack_queue c) [] [] =
        Ok ([], ss, replicate (length ss) 1)"
    using ss by blast
qed (auto simp: send_ack_round_def send_ack_queue_len_def ack_collect_panics)

text \<open>A codec for the witnesses: what is sent is the payload alone.\<close>

definition demo_codec :: packet_codec where
  "demo_codec = \<lparr>encode_packet = pdata, decode_packet = (\<lambda>bs. Some (default_packet\<lparr>pdata := bs\<rparr>))\<rparr>"

theorem send_ack_round_outcome_witness:
  "in_window 1 [3, 1, 2] \<and>
   send_ack_round Debug demo_codec default_ncp_config
     ((connection_new ''a'' ''b'' 1)\<lparr>send_ack_queue := [3, 1, 2]\<rparr>) = Panic"
proof -
  have w: "in_window 1 [3, 1, 2]" by (simp add: in_window_def seq_pos_def)
  show ?thesis
    using w send_ack_round_outcome [of 1 "(connection_new ''a'' ''b'' 1)\<lparr>send_ack_queue := [3, 1, 2]\<rparr>"
        Debug demo_codec default_ncp_config]
    by (simp add: default_ncp_config_def)
qed

text \<open>An acknowledgement that updates the retransmission timeout sets it to at most one
  nanosecond (a hyperbolic tangent is at most 1), and the update panics whenever three round
  trips are shorter than the timeout in force.\<close>

theorem receive_ack_timeout_collapses:
  assumes "\<forall>x. tanh64 x \<le> 1" and "time_sent_seq c seq = Some t" and "t \<le> now"
  shows "(3 * (now - t) < int (retransmission_timeout c) \<longrightarrow>
      receive_ack rnd tanh64 now chan_ok c seq True = (Panic, c)) \<and>
    (int (retransmission_timeout c) \<le> 3 * (now - t) \<longrightarrow>
      (\<exists>c'. receive_ack rnd tanh64 now True c seq True = (Ok (), c') \<and>
         retransmission_timeout c' \<le> 1 \<and> time_sent_seq c' = (time_sent_seq c)(seq := None) \<and>
         resent_seq c' = resent_seq c - {seq}))"
proof -
  have "f64_to_nat (tanh64 d) \<le> 1" for d
    using spec [OF assms(1), of d] by (simp add: f64_to_nat_def) linarith
  moreover from this have "f64_to_nat (tanh64 d) div 1000000 = 0" for d
    by (metis div_less less_one less_trans nat_less_le one_less_numeral_iff semiring_norm(76) order_le_less_trans)
  ultimately show ?thesis
    using assms(2,3) by (auto simp: receive_ack_def ack_timeout_def Let_def)
qed

theorem receive_ack_timeout_collapses_witness:
  "\<exists>c'. receive_ack (\<lambda>x. x) (\<lambda>x. if 1 \<le> x then 1 else 0) 9000000000 True
      ((connection_new ''a'' ''b'' 1)\<lparr>time_sent_seq := [7 \<mapsto> 0]\<rparr>) 7 True = (Ok (), c') \<and>
    retransmission_timeout c' \<le> 1"
proof -
  let ?c = "(connection_new ''a'' ''b'' 1)\<lparr>time_sent_seq := [7 \<mapsto> 0]\<rparr>"
  have "int (retransmission_timeout ?c) \<le> 3 * (9000000000 - 0)"
    by (simp add: connection_new_def)
  moreover have bound: "\<forall>x :: real. (if 1 \<le> x then 1 else 0) \<le> (1 :: real)" by simp
  ultimately show ?thesis
    using receive_ack_timeout_collapses [OF bound, of ?c 7 0 9000000000 "\<lambda>x. x" True] by auto
qed

text \<open>What a round of \<open>check_timeout\<close> queues, for an iteration order without repeated keys.\<close>

lemma resend_timed_out_eq:
  "distinct (map fst order) \<Longrightarrow>
     resend_timed_out th order rss =
       (rss \<union> {seq. \<exists>t. (seq, t) \<in> set order \<and> t < th},
        map (\<lambda>(seq, t). ResendSeq seq) (filter (\<lambda>(seq, t). seq \<notin> rss \<and> t < th) order))"
proof (induction order arbitrary: rss)
  case (Cons st order)
  obtain seq t where st: "st = (seq, t)" by fastforce
  have other: "filter (\<lambda>(s, t). s \<notin> insert seq rss \<and> t < th) order =
      filter (\<lambda>(s, t). s \<notin> rss \<and> t < th) order"
    using Cons.prems st by (intro filter_cong) (auto simp: image_iff)
  show ?case using Cons st other by auto
qed simp



text \<open>C19: sending a packet calls \<^verbatim>\<open>send_with\<close> with the local client id as both ends. When the call
  succeeds the sending time is recorded once; when it fails the window is halved, but not below
  1, and the time is recorded under the number 0, so the packet itself is on no list that
  \<open>check_timeout\<close> would resend it from.\<close>

theorem tx_send_outcome:
  assumes "swd seq = Some buf" and "buf \<noteq> []" and "seq \<noteq> 0"
  shows "\<exists>c'. tx_send rnd now ok swd c seq =
      Ok (True, c', [SendWith (local_client_id c) (local_client_id c) buf 0]) \<and>
    (ok \<longrightarrow> window_size c' = window_size c \<and> seq \<notin> resent_seq c' \<and>
       time_sent_seq c' seq = Some (case time_sent_seq c seq of None \<Rightarrow> now | Some t \<Rightarrow> t)) \<and>
    (\<not> ok \<longrightarrow> window_size c' = max 1 (rnd (window_size c / 2)) \<and>
       time_sent_seq c' seq = time_sent_seq c seq \<and> time_sent_seq c' 0 \<noteq> None)"
  using assms by (auto simp: tx_send_def set_window_size_def Let_def split: option.splits)

theorem tx_send_outcome_witness:
  "\<exists>c'. tx_send (\<lambda>x. x) 5 False [3 \<mapsto> [1]] (connection_new ''a'' ''b'' 4) 3 =
      Ok (True, c', [SendWith ''a'' ''a'' [1] 0]) \<and> time_sent_seq c' 3 = None \<and> window_size c' = 2"
  using tx_send_outcome [of "[3 \<mapsto> [1]]" 3 "[1]" "\<lambda>x. x" 5 False "connection_new ''a'' ''b'' 4"]
  by (auto simp: connection_new_def)

end
