(* ===== verification/Session.thy ===== *)
theory Session
  imports Connection Errors "HOL-Library.AList"
begin

text \<open>
  An NCP session (\<^verbatim>\<open>src/session.rs\<close>): its state behind the locks as the record \<open>session\<close>, each method
  as a definition that returns the new state and the effects. Inputs from outside are arguments, as
  in the connection: the clock, the results of \<^verbatim>\<open>send_with\<close> in the order of the calls, the order in
  which the map of connections is iterated, and what wakes a waiting loop.

  The result of a handler with a loop that could run for ever is an \<open>option\<close>, \<open>None\<close> for not
  returning; the lemmas below show where that cannot happen. The effects after which the code
  waits on a full channel are listed at the point where the value is put on the channel.
\<close>

section \<open>State\<close>

record session =
  s_config :: ncp_config
  local_addr :: string
  remote_addr :: string
  local_client_ids :: "string list"
  remote_client_ids :: "string list"
  send_window_size :: u32
  recv_window_size :: u32
  send_mtu :: u32
  recv_mtu :: u32
  connections :: "(string \<times> connection) list"   \<comment> \<open>the map, in the order of its iteration\<close>
  is_accepted :: bool
  is_established :: bool
  is_closed :: bool
  send_buffer :: bytes                             \<comment> \<open>\<^verbatim>\<open>[u8; 1024]\<close>\<close>
  send_window_start_seq :: u32
  send_window_end_seq :: u32
  send_window_data :: "u32 \<rightharpoonup> bytes"
  recv_window_start_seq :: u32
  recv_window_used :: u32
  recv_window_data :: "u32 \<rightharpoonup> bytes"
  bytes_write :: u64
  s_bytes_read :: u64
  bytes_read_sent_time :: int
  bytes_read_update_time :: int
  remote_bytes_read :: u64
  send_window_packet_count :: real

definition session_new ::
    "ncp_config \<Rightarrow> string \<Rightarrow> string \<Rightarrow> string list \<Rightarrow> string list \<Rightarrow> int \<Rightarrow> int \<Rightarrow> session" where
  "session_new config laddr raddr lids rids now1 now2 =
     \<lparr>s_config = config, local_addr = laddr, remote_addr = raddr,
      local_client_ids = lids, remote_client_ids = rids,
      send_window_size = push_bit 20 4, recv_window_size = push_bit 20 4,
      send_mtu = scast (cfg_mtu config), recv_mtu = scast (cfg_mtu config),
      connections = [], is_accepted = False, is_established = False, is_closed = False,
      send_buffer = replicate 1024 0,
      send_window_start_seq = MIN_SEQUENCE_ID, send_window_end_seq = MIN_SEQUENCE_ID,
      send_window_data = Map.empty,
      recv_window_start_seq = MIN_SEQUENCE_ID, recv_window_used = 0, recv_window_data = Map.empty,
      bytes_write = 0, s_bytes_read = 0, bytes_read_sent_time = now1, bytes_read_update_time = now2,
      remote_bytes_read = 0, send_window_packet_count = 0\<rparr>"

definition is_stream :: "session \<Rightarrow> bool" where
  "is_stream s \<longleftrightarrow> \<not> non_stream (s_config s)"

definition update_bytes_read_sent_time :: "int \<Rightarrow> session \<Rightarrow> session" where
  "update_bytes_read_sent_time now s = s\<lparr>bytes_read_sent_time := now\<rparr>"

definition send_window_used :: "session \<Rightarrow> u32" where
  "send_window_used s =
     ucast (if remote_bytes_read s \<le> bytes_write s then bytes_write s - remote_bytes_read s else 0)"

definition get_data_to_send :: "session \<Rightarrow> u32 \<Rightarrow> (bytes, string) outcome" where
  "get_data_to_send s seq = unwrap (send_window_data s seq)"

fun sum_u :: "profile \<Rightarrow> u32 \<Rightarrow> u32 list \<Rightarrow> (u32, string) outcome" where
  "sum_u p acc [] = Ok acc"
| "sum_u p acc (x # xs) = and_then (add_u p acc x) (\<lambda>acc'. sum_u p acc' xs)"

definition get_conn_window_size :: "profile \<Rightarrow> session \<Rightarrow> (u32, string) outcome" where
  "get_conn_window_size p s = sum_u p 0 (map (\<lambda>(_, c). f64_to_u32 (window_size c)) (connections s))"

text \<open>The blocking receive of \<open>get_seq\<close>: the value the channel gave, or that it is disconnected.\<close>

definition get_seq :: "(u32, string) outcome \<Rightarrow> (u32, string) outcome" where
  "get_seq received = (case received of
       Ok x \<Rightarrow> Ok x
     | Err e \<Rightarrow> Err (''get_seq error: '' @ e)
     | Panic \<Rightarrow> Panic)"

section \<open>Sending\<close>

definition flush_send_buffer ::
    "profile \<Rightarrow> packet_codec \<Rightarrow> session \<Rightarrow> (session \<times> effect list, string) outcome" where
  "flush_send_buffer p pc s =
     (if length (send_buffer s) = 0 then Ok (s, [])
      else
        let seq = send_window_end_seq s;
            buf = encode_packet pc (default_packet\<lparr>sequence_id := seq, pdata := send_buffer s\<rparr>)
        in and_then (next_seq p seq 1) (\<lambda>next.
             Ok (s\<lparr>send_window_data := (send_window_data s)(seq \<mapsto> buf),
                    send_window_end_seq := next,
                    send_buffer := replicate 1024 0\<rparr>, [SendSeq seq])))"

text \<open>One round of the method \<open>start_flush\<close>, which \<open>start_session\<close> runs.\<close>

definition start_flush_round ::
    "profile \<Rightarrow> packet_codec \<Rightarrow> session \<Rightarrow> (session \<times> effect list, string) outcome" where
  "start_flush_round p pc s =
     (if \<not> 0 < length (send_buffer s) then Ok (s, []) else flush_send_buffer p pc s)"

text \<open>
  \<open>wait_for_send_window\<close>: the list gives the \<^verbatim>\<open>remote_bytes_read\<close> the loop sees after each wake-up
  by the channel or the ticker; \<open>None\<close> is "still waiting".
\<close>

fun wait_for_send_window ::
    "profile \<Rightarrow> session \<Rightarrow> u32 \<Rightarrow> u64 list \<Rightarrow> (u32 \<times> session, string) outcome option" where
  "wait_for_send_window p s n wakeups =
     (case add_u p (send_window_used s) n of
        Ok needed \<Rightarrow>
          if send_window_size s < needed then
            (case wakeups of
               [] \<Rightarrow> None
             | r # rs \<Rightarrow> wait_for_send_window p (s\<lparr>remote_bytes_read := r\<rparr>) n rs)
          else Some (and_then (sub_u p (send_window_size s) (send_window_used s)) (\<lambda>free. Ok (free, s)))
      | Err e \<Rightarrow> Some (Err e)
      | Panic \<Rightarrow> Some Panic)"

declare wait_for_send_window.simps [simp del]

text \<open>
  \<open>write\<close>. A slice \<^verbatim>\<open>send_buffer[..buf.len()]\<close> longer than the array panics. A stream session
  writes nothing.
\<close>

definition overwrite :: "bytes \<Rightarrow> bytes \<Rightarrow> bytes" where
  "overwrite buf arr = buf @ drop (length buf) arr"

definition session_write ::
    "profile \<Rightarrow> packet_codec \<Rightarrow> session \<Rightarrow> bytes \<Rightarrow> u64 list \<Rightarrow>
      (nat \<times> session \<times> effect list, ncp_error) outcome option" where
  "session_write p pc s buf wakeups =
     (if \<not> is_established s then Some (Err SessionNotEstablished)
      else if is_closed s then Some (Err SessionClosed)
      else if buf = [] then Some (Err BufferEmpty)
      else if \<not> is_stream s \<and> unat (send_mtu s) < length buf \<or> unat (send_window_size s) < length buf
      then Some (Err BufferTooLarge)
      else if is_stream s then Some (Ok (0, s, []))
      else
        (case wait_for_send_window p s (of_nat (length buf)) wakeups of
           None \<Rightarrow> None
         | Some r \<Rightarrow> Some (and_then (unwrap_result r) (\<lambda>(_, s).
             if length (send_buffer s) < length buf then Panic
             else
               let s = s\<lparr>send_buffer := overwrite buf (send_buffer s)\<rparr>
               in and_then (add_u p (bytes_write s) (of_nat (length buf))) (\<lambda>bw.
                    and_then (unwrap_result (flush_send_buffer p pc (s\<lparr>bytes_write := bw\<rparr>)))
                      (\<lambda>(s, es). Ok (length buf, s, es)))))))"

section \<open>Handshake and close\<close>

text \<open>
  Calls of \<^verbatim>\<open>send_with\<close>, each followed by \<^verbatim>\<open>expect\<close>: the results of the calls are taken from a list,
  a call past its end succeeds.
\<close>

fun call_all ::
    "(string \<times> string) list \<Rightarrow> bytes \<Rightarrow> nat \<Rightarrow> bool list \<Rightarrow> (unit, string) outcome \<times> effect list" where
  "call_all [] buf timeout oks = (Ok (), [])"
| "call_all ((l, r) # ends) buf timeout oks =
     (if oks \<noteq> [] \<and> \<not> hd oks then (Panic, [SendWith l r buf timeout])
      else let (res, es) = call_all ends buf timeout (tl oks) in (res, SendWith l r buf timeout # es))"

text \<open>The ends of the calls, by index: \<^verbatim>\<open>remote_client_ids[i]\<close> panics past the end.\<close>

fun handshake_ends :: "nat \<Rightarrow> string list \<Rightarrow> string list \<Rightarrow> ((string \<times> string) list) option" where
  "handshake_ends i [] rids = Some []"
| "handshake_ends i (lid # lids) rids =
     (if rids = [] then map_option ((#) (lid, lid)) (handshake_ends (Suc i) lids rids)
      else if i < length rids
      then map_option ((#) (lid, rids ! i)) (handshake_ends (Suc i) lids rids)
      else None)"

definition send_handshake_packet ::
    "packet_codec \<Rightarrow> session \<Rightarrow> nat \<Rightarrow> bool list \<Rightarrow> (unit, string) outcome \<times> effect list" where
  "send_handshake_packet pc s write_timeout oks =
     (let buf = encode_packet pc (default_packet\<lparr>client_ids := local_client_ids s,
                  pwindow_size := recv_window_size s, pmtu := recv_mtu s, handshake := True\<rparr>)
      in case connections s of
           (_, c) # _ \<Rightarrow> call_all [(local_client_id c, remote_client_id c)] buf write_timeout oks
         | [] \<Rightarrow>
             (case handshake_ends 0 (local_client_ids s) (remote_client_ids s) of
                Some ends \<Rightarrow> call_all ends buf write_timeout oks
              | None \<Rightarrow> (Panic, [])))"

text \<open>
  \<open>handle_handshake_packet\<close>; \<open>order\<close> lists the new map in the order in which it is iterated from
  then on. The sizes that were lowered stay so when a later check returns early.
\<close>

definition new_connections :: "real \<Rightarrow> (string \<times> string) list \<Rightarrow> (string \<times> connection) list" where
  "new_connections w ends =
     foldl (\<lambda>cs (l, r). AList.update (conn_key l r) (connection_new l r w) cs) [] ends"

definition handle_handshake_packet ::
    "(real \<Rightarrow> real) \<Rightarrow> ((string \<times> connection) list \<Rightarrow> (string \<times> connection) list) \<Rightarrow> session \<Rightarrow> packet \<Rightarrow>
      session \<times> effect list" where
  "handle_handshake_packet rnd order s pkt =
     (if is_established s then (s, [])
      else if pwindow_size pkt = 0 then (s, [])
      else
        let s = (if pwindow_size pkt < send_window_size s then s\<lparr>send_window_size := pwindow_size pkt\<rparr> else s)
        in if pmtu pkt = 0 then (s, [])
           else
             let s = (if pmtu pkt < send_mtu s then s\<lparr>send_mtu := pmtu pkt\<rparr> else s);
                 s = s\<lparr>send_window_packet_count :=
                         rnd (real (unat (send_window_size s)) / real (unat (send_mtu s)))\<rparr>
             in if client_ids pkt = [] then (s, [])
                else
                  let n = min (length (local_client_ids s)) (length (client_ids pkt));
                      initial_window_size = rnd (send_window_packet_count s / real n);
                      ends = zip (take n (local_client_ids s)) (take n (client_ids pkt))
                  in (s\<lparr>connections := order (new_connections initial_window_size ends),
                        remote_client_ids := client_ids pkt,
                        is_established := True\<rparr>, [OnAccept]))"

text \<open>
  \<open>send_close_packet\<close>: the packet goes to the first connection, then \<^verbatim>\<open>select_ok\<close> is called on a list
  of futures that nothing was added to; that function panics on an empty list.
\<close>

definition select_ok :: "'a list \<Rightarrow> ('a, string) outcome" where
  "select_ok tasks = (case tasks of [] \<Rightarrow> Panic | t # _ \<Rightarrow> Ok t)"

definition send_close_packet ::
    "packet_codec \<Rightarrow> session \<Rightarrow> bool list \<Rightarrow> (unit, string) outcome \<times> effect list" where
  "send_close_packet pc s oks =
     (if \<not> is_established s then (Ok (), [])
      else
        let buf = encode_packet pc (default_packet\<lparr>pclose := True\<rparr>);
            tasks = ([] :: nat list)
        in case connections s of
             [] \<Rightarrow> (Panic, [])
           | (_, c) # _ \<Rightarrow>
               let (res, es) = call_all [(local_client_id c, remote_client_id c)] buf
                                 (retransmission_timeout c) oks
               in (and_then res (\<lambda>_. and_then (select_ok tasks) (\<lambda>_. Ok ())), es))"

definition handle_close_packet :: "session \<Rightarrow> session" where
  "handle_close_packet s = (if \<not> is_established s then s else s\<lparr>is_closed := True\<rparr>)"

text \<open>\<open>dial\<close> and \<open>accept\<close> differ in the timeout of the handshake packet.\<close>

definition dial ::
    "packet_codec \<Rightarrow> session \<Rightarrow> bool list \<Rightarrow> (unit, string) outcome \<times> session \<times> effect list" where
  "dial pc s oks =
     (if is_accepted s then (Ok (), s, [])
      else
        let s = s\<lparr>is_accepted := True\<rparr>;
            timeout = unat (initial_retransmission_timeout (s_config s)) * 1000000;
            (res, es) = send_handshake_packet pc s timeout oks
        in (res, s, es))"

definition accept ::
    "packet_codec \<Rightarrow> session \<Rightarrow> bool list \<Rightarrow> (unit, string) outcome \<times> session \<times> effect list" where
  "accept pc s oks =
     (if is_accepted s then (Ok (), s, [])
      else
        let s = s\<lparr>is_accepted := True\<rparr>;
            timeout = unat (max_retransmission_timeout (s_config s)) * 1000000;
            (res, es) = send_handshake_packet pc s timeout oks
        in (res, s, es))"

section \<open>Reporting the bytes read\<close>

definition no_report :: "int \<Rightarrow> session \<Rightarrow> bool" where
  "no_report now s \<longleftrightarrow>
     s_bytes_read s = 0 \<or> bytes_read_update_time s \<le> bytes_read_sent_time s \<or>
     now - int (unat (scast (send_bytes_read_threshold (s_config s)) :: u64)) * 1000000
       < bytes_read_update_time s"

definition report_calls :: "packet_codec \<Rightarrow> session \<Rightarrow> effect list" where
  "report_calls pc s =
     (let buf = encode_packet pc (default_packet\<lparr>pbytes_read := s_bytes_read s\<rparr>)
      in map (\<lambda>(_, c). SendWith (local_client_id c) (remote_client_id c) buf
           (retransmission_timeout c div 1000000 * 1000000)) (connections s))"

text \<open>
  One round of the method \<open>start_check_bytes_read\<close>, and whether the loop gets to another one: the
  sending time is written while the round still reads it, and a writer waits for the readers.
\<close>

definition write_lock :: "nat \<Rightarrow> unit option" where
  "write_lock readers = (if 0 < readers then None else Some ())"

text \<open>
  One round of the function \<open>start_flush\<close>, which nothing runs. It keeps its reader's guard of the buffer
  it was given while it flushes; \<open>own\<close> says that it was given the session's own buffer. \<open>None\<close> is
  waiting for ever.
\<close>

definition start_flush_function_round ::
    "profile \<Rightarrow> packet_codec \<Rightarrow> bool \<Rightarrow> bytes \<Rightarrow> session \<Rightarrow> (session \<times> effect list, string) outcome option" where
  "start_flush_function_round p pc own buffer s =
     (if \<not> 0 < length buffer then Some (Ok (s, []))
      else (case write_lock (if own then 1 else 0) of
              None \<Rightarrow> None
            | Some _ \<Rightarrow> Some (flush_send_buffer p pc s)))"

definition check_bytes_read_method ::
    "packet_codec \<Rightarrow> int \<Rightarrow> int \<Rightarrow> session \<Rightarrow> bool \<times> session \<times> effect list" where
  "check_bytes_read_method pc now now' s =
     (if no_report now s then (True, s, [])
      else if connections s \<noteq> [] then
        (case write_lock 1 of
           None \<Rightarrow> (False, s, report_calls pc s)
         | Some _ \<Rightarrow> (True, update_bytes_read_sent_time now' s, report_calls pc s))
      else (True, s, report_calls pc s))"

text \<open>One round of the function \<open>start_check_bytes_read\<close>, which \<open>start_session\<close> runs.\<close>

definition check_bytes_read_round ::
    "packet_codec \<Rightarrow> int \<Rightarrow> session \<Rightarrow> session \<times> effect list" where
  "check_bytes_read_round pc now s =
     (if no_report now s then (s, []) else (s, report_calls pc s))"

section \<open>Reading\<close>

text \<open>
  The loop of \<open>read\<close>. The guard of \<^verbatim>\<open>recv_window_data\<close> is held throughout, so a wake-up finds the
  map as it was. A stream session that got less than it asked for spins for ever.
\<close>

partial_function (option) read_loop ::
    "profile \<Rightarrow> int \<Rightarrow> session \<Rightarrow> bytes \<Rightarrow> nat \<Rightarrow> (nat \<times> bytes \<times> session, string) outcome option" where
  "read_loop p now s buf received =
     (if recv_window_data s (recv_window_start_seq s) \<noteq> None then Some (Ok (received, buf, s))
      else
        (case recv_window_data s (recv_window_start_seq s) of
           None \<Rightarrow> Some Panic
         | Some data \<Rightarrow>
             if \<not> is_stream s \<and> length buf < length data then Some (Ok (0, buf, s))
             else
               let seq = recv_window_start_seq s;
                   taken = (if length buf \<le> length data then length buf else length data);
                   buf' = (if length buf \<le> length data then take (length buf) data
                           else data @ drop (length data) buf)
               in case and_then (next_seq p seq 1) (\<lambda>next.
                    and_then (sub_u p (recv_window_used s) (of_nat taken)) (\<lambda>used.
                    and_then (add_u p (s_bytes_read s) (of_nat taken)) (\<lambda>total_read.
                      Ok (s\<lparr>recv_window_data := (recv_window_data s)
                              (seq := (if length buf \<le> length data then Some (drop (length buf) data) else None)),
                            recv_window_start_seq := (if length buf \<le> length data then seq else next),
                            recv_window_used := used, s_bytes_read := total_read,
                            bytes_read_update_time := now\<rparr>)))) of
                    Ok s' \<Rightarrow>
                      if is_stream s' \<and> taken < length buf then None else read_loop p now s' buf' taken
                  | Err e \<Rightarrow> Some (Err e)
                  | Panic \<Rightarrow> Some Panic))"

definition session_read ::
    "profile \<Rightarrow> int \<Rightarrow> session \<Rightarrow> bytes \<Rightarrow> (nat \<times> bytes \<times> session, string) outcome option" where
  "session_read p now s buf =
     (if is_closed s then Some (Ok (0, buf, s))
      else if \<not> is_established s then Some (Ok (0, buf, s))
      else if buf = [] then Some (Ok (0, buf, s))
      else read_loop p now s buf 0)"

section \<open>Receiving\<close>

definition update_conn_window_size :: "(real \<Rightarrow> real) \<Rightarrow> session \<Rightarrow> session" where
  "update_conn_window_size rnd s =
     (let total_size = foldl (\<lambda>t (_, c). rnd (t + window_size c)) 0 (connections s)
      in if total_size \<le> 0 then s
         else s\<lparr>connections := map (\<lambda>(k, c). (k, set_window_size c
                  (rnd (send_window_packet_count s * rnd (window_size c / total_size))) 1)) (connections s)\<rparr>)"

text \<open>What the handler of acknowledgements takes from outside.\<close>

record ack_env =
  round64 :: "real \<Rightarrow> real"
  tanh64 :: "real \<Rightarrow> real"
  clock :: int
  update_taken :: bool

fun conns_receive_ack ::
    "ack_env \<Rightarrow> u32 \<Rightarrow> (string \<times> connection) list \<Rightarrow> (unit, string) outcome \<times> (string \<times> connection) list" where
  "conns_receive_ack env seq [] = (Ok (), [])"
| "conns_receive_ack env seq ((key, c) # cs) =
     (let is_sent_by_me = (key = conn_key (local_client_id c) (remote_client_id c));
          (res, c') = receive_ack (round64 env) (tanh64 env) (clock env) (update_taken env) c seq is_sent_by_me
      in case res of
           Ok _ \<Rightarrow> let (res', cs') = conns_receive_ack env seq cs in (res', (key, c') # cs')
         | Err e \<Rightarrow> (Err e, (key, c') # cs)
         | Panic \<Rightarrow> (Panic, (key, c') # cs))"

text \<open>The \<^verbatim>\<open>while\<close> that hands each acknowledged number to the connections and forgets its data.\<close>

partial_function (option) ack_range ::
    "profile \<Rightarrow> ack_env \<Rightarrow> u32 \<Rightarrow> u32 \<Rightarrow> u32 \<Rightarrow> session \<Rightarrow> (session, string) outcome option" where
  "ack_range p env ack_start ack_end seq s =
     (if seq_in_between ack_start ack_end seq then
        (case conns_receive_ack env seq (connections s) of
           (Ok _, cs) \<Rightarrow>
             (case next_seq p seq 1 of
                Ok next \<Rightarrow> ack_range p env ack_start ack_end next
                  (s\<lparr>connections := cs, send_window_data := (send_window_data s)(seq := None)\<rparr>)
              | Err e \<Rightarrow> Some (Err e)
              | Panic \<Rightarrow> Some Panic)
         | (Err e, cs) \<Rightarrow> Some (Err e)
         | (Panic, cs) \<Rightarrow> Some Panic)
      else Some (Ok s))"

text \<open>The \<^verbatim>\<open>loop\<close> that moves the start of the send window.\<close>

partial_function (option) advance_start ::
    "profile \<Rightarrow> (u32 \<rightharpoonup> bytes) \<Rightarrow> u32 \<Rightarrow> u32 \<Rightarrow> (u32, string) outcome option" where
  "advance_start p data end_seq start =
     (case next_seq p start 1 of
        Ok next \<Rightarrow>
          if data next = None then Some (Ok next)
          else if next = end_seq then Some (Ok next)
          else advance_start p data end_seq next
      | Err e \<Rightarrow> Some (Err e)
      | Panic \<Rightarrow> Some Panic)"

definition then_run ::
    "('a, 'e) outcome option \<Rightarrow> ('a \<Rightarrow> ('b, 'e) outcome option) \<Rightarrow> ('b, 'e) outcome option" where
  "then_run m f = (case m of
       None \<Rightarrow> None
     | Some (Ok x) \<Rightarrow> f x
     | Some (Err e) \<Rightarrow> Some (Err e)
     | Some Panic \<Rightarrow> Some Panic)"

definition index :: "'a list \<Rightarrow> nat \<Rightarrow> ('a, 'e) outcome" where
  "index xs i = (if i < length xs then Ok (xs ! i) else Panic)"

text \<open>The body of the loop over the entries of an acknowledgement, at index \<open>i\<close>.\<close>

definition ack_entry ::
    "profile \<Rightarrow> ack_env \<Rightarrow> packet \<Rightarrow> session \<Rightarrow> nat \<Rightarrow> (session, string) outcome option" where
  "ack_entry p env pkt s i =
     then_run (Some (if ack_start_seq pkt \<noteq> [] then index (ack_start_seq pkt) i else Ok MIN_SEQUENCE_ID))
       (\<lambda>ack_start.
     then_run (Some (if ack_seq_count pkt \<noteq> []
         then and_then (index (ack_seq_count pkt) i) (\<lambda>n. next_seq p ack_start (ucast n))
         else next_seq p ack_start 1)) (\<lambda>ack_end.
     then_run (Some (next_seq p ack_end (- 1))) (\<lambda>last_acked.
       let start = send_window_start_seq s; end_seq = send_window_end_seq s
       in if seq_in_between start end_seq last_acked then
            let ack_start = (if \<not> seq_in_between start end_seq ack_start then start else ack_start)
            in then_run (ack_range p env ack_start ack_end ack_start s) (\<lambda>s.
                 if ack_start = start then
                   then_run (advance_start p (send_window_data s) end_seq start)
                     (\<lambda>start'. Some (Ok (s\<lparr>send_window_start_seq := start'\<rparr>)))
                 else Some (Ok s))
          else Some (Ok s))))"

fun ack_entries ::
    "profile \<Rightarrow> ack_env \<Rightarrow> packet \<Rightarrow> session \<Rightarrow> nat list \<Rightarrow> (session, string) outcome option" where
  "ack_entries p env pkt s [] = Some (Ok s)"
| "ack_entries p env pkt s (i # is) =
     then_run (ack_entry p env pkt s i) (\<lambda>s. ack_entries p env pkt s is)"

text \<open>The three parts of \<open>receive_with\<close> after the handshake; the flag says whether it goes on.\<close>

definition receive_acks ::
    "profile \<Rightarrow> ack_env \<Rightarrow> packet \<Rightarrow> session \<Rightarrow> (bool \<times> session, string) outcome option" where
  "receive_acks p env pkt s =
     (if ack_start_seq pkt \<noteq> [] \<or> ack_seq_count pkt \<noteq> [] then
        if length (ack_start_seq pkt) \<noteq> length (ack_seq_count pkt) \<and>
           ack_start_seq pkt \<noteq> [] \<and> ack_seq_count pkt \<noteq> []
        then Some (Ok (False, s))
        else
          let n = (if ack_seq_count pkt \<noteq> [] then length (ack_start_seq pkt)
                   else length (ack_seq_count pkt))
          in then_run (ack_entries p env pkt s [0..<n])
               (\<lambda>s. Some (Ok (True, update_conn_window_size (round64 env) s)))
      else Some (Ok (True, s)))"

definition receive_bytes_read :: "packet \<Rightarrow> session \<Rightarrow> session \<times> effect list" where
  "receive_bytes_read pkt s =
     (if remote_bytes_read s < pbytes_read pkt
      then (s\<lparr>remote_bytes_read := pbytes_read pkt\<rparr>, [WindowUpdate])
      else (s, []))"

definition receive_data ::
    "profile \<Rightarrow> string \<Rightarrow> string \<Rightarrow> packet \<Rightarrow> session \<Rightarrow> (session \<times> effect list, string) outcome" where
  "receive_data p lid rid pkt s =
     (if 0 < sequence_id pkt then
        if unat (recv_mtu s) < length (pdata pkt) then Ok (s, [])
        else
          let ack = (\<lambda>s. s\<lparr>connections := map (\<lambda>(k, c).
                  (k, if k = conn_key lid rid then conn_send_ack c (sequence_id pkt) else c)) (connections s)\<rparr>)
          in if 0 \<le> compare_seq (sequence_id pkt) (recv_window_start_seq s) \<and>
                recv_window_data s (sequence_id pkt) \<noteq> None
             then and_then (add_u p (recv_window_used s) (of_nat (length (pdata pkt)))) (\<lambda>needed.
               if recv_window_size s < needed then Ok (s, [])
               else
                 let s = s\<lparr>recv_window_data := (recv_window_data s)(sequence_id pkt \<mapsto> pdata pkt),
                           recv_window_used := needed\<rparr>
                 in Ok (ack s, if sequence_id pkt = recv_window_start_seq s then [PollRecvUpdate] else []))
             else Ok (ack s, [])
      else Ok (s, []))"

definition receive_with ::
    "profile \<Rightarrow> packet_codec \<Rightarrow> ack_env \<Rightarrow> ((string \<times> connection) list \<Rightarrow> (string \<times> connection) list) \<Rightarrow>
      session \<Rightarrow> string \<Rightarrow> string \<Rightarrow> bytes \<Rightarrow> (session \<times> effect list, string) outcome option" where
  "receive_with p pc env order s lid rid buf =
     (if 10 < length buf then Some (Ok (s, []))
      else
        (case decode_packet pc buf of
           None \<Rightarrow> Some Panic
         | Some pkt \<Rightarrow>
             if pclose pkt then Some (Ok (handle_close_packet s, []))
             else if \<not> is_established s then
               Some (Ok (if handshake pkt then handle_handshake_packet (round64 env) order s pkt else (s, [])))
             else
               then_run (receive_acks p env pkt s) (\<lambda>(go, s).
                 if \<not> go then Some (Ok (s, []))
                 else
                   let (s, es) = receive_bytes_read pkt s
                   in Some (and_then (receive_data p lid rid pkt s) (\<lambda>(s, es'). Ok (s, es @ es'))))))"

section \<open>The acknowledgement loops\<close>

lemma next_seq_1: "next_seq p s 1 = Ok (seq_add s 1)"
  using next_seq_eq [of 1 p s] by simp

lemma next_seq_minus_1: "next_seq p s (- 1) = Ok (seq_add s (- 1))"
  using next_seq_eq [of "- 1" p s] by simp

lemma next_seq_u32: "next_seq p s (ucast (n :: u32)) = Ok (seq_add s (uint n))"
proof -
  have "- 9223372036854775808 \<le> uint n" "uint n < 9223372036854775808"
    using uint_u32_bounds [of n] by linarith+
  then have "sint (ucast n :: i64) = uint n" using sint_word_of_int_64 [of "uint n"] by simp
  then show ?thesis
    using next_seq_eq [of "ucast n" p s] uint_u32_bounds [of n] by (simp add: order_trans [of _ 0])
qed

lemma seq_in_between_self: "\<not> seq_in_between a e a"
  by (auto simp: seq_in_between_def)

text \<open>With the arguments in the order of the call, the test of the \<^verbatim>\<open>while\<close> is false at once.\<close>

lemma ack_range_skipped: "ack_range p env a e a s = Some (Ok s)"
  by (subst ack_range.simps) (simp add: seq_in_between_self)

lemma advance_start_unfold:
  "advance_start p data e s =
     (if data (seq_add s 1) = None \<or> seq_add s 1 = e then Some (Ok (seq_add s 1))
      else advance_start p data e (seq_add s 1))"
  by (subst advance_start.simps) (simp add: next_seq_1)

text \<open>The loop ends after at most the distance to the end of the window.\<close>

lemma advance_start_returns_within:
  "seq_add s (int (Suc k)) = e \<Longrightarrow>
     \<exists>j \<le> k. advance_start p data e s = Some (Ok (seq_add s (int (Suc j)))) \<and>
       (\<forall>i < j. data (seq_add s (int (Suc i))) \<noteq> None \<and> seq_add s (int (Suc i)) \<noteq> e) \<and>
       (data (seq_add s (int (Suc j))) = None \<or> seq_add s (int (Suc j)) = e)"
proof (induction k arbitrary: s)
  case 0
  then show ?case by (subst advance_start_unfold) simp
next
  case (Suc k)
  show ?case
  proof (cases "data (seq_add s 1) = None \<or> seq_add s 1 = e")
    case True
    then show ?thesis by (subst advance_start_unfold) (intro exI [of _ 0], auto)
  next
    case False
    have shift: "seq_add (seq_add s 1) (int (Suc i)) = seq_add s (int (Suc (Suc i)))" for i
      by (simp add: seq_add_add algebra_simps)
    obtain j where j: "j \<le> k" "advance_start p data e (seq_add s 1) = Some (Ok (seq_add s (int (Suc (Suc j)))))"
        "\<forall>i < j. data (seq_add s (int (Suc (Suc i)))) \<noteq> None \<and> seq_add s (int (Suc (Suc i))) \<noteq> e"
        "data (seq_add s (int (Suc (Suc j)))) = None \<or> seq_add s (int (Suc (Suc j))) = e"
      using Suc.IH [of "seq_add s 1"] Suc.prems unfolding shift by blast
    have "\<forall>i < Suc j. data (seq_add s (int (Suc i))) \<noteq> None \<and> seq_add s (int (Suc i)) \<noteq> e"
      using False j(3) by (simp add: All_less_Suc2)
    then show ?thesis
      using False j by (intro exI [of _ "Suc j"]) (auto simp: advance_start_unfold [of p data e s])
  qed
qed

lemma seq_add_distance:
  assumes "e \<noteq> 0"
  shows "\<exists>k. seq_add s (int (Suc k)) = e"
proof -
  define d where "d = (uint e - uint s - 1) mod 4294967295"
  have d: "0 \<le> d" by (simp add: d_def)
  have "uint (seq_add s (d + 1)) = (uint s + d) mod 4294967295 + 1"
    by (simp add: uint_seq_add algebra_simps)
  also have "(uint s + d) mod 4294967295 = (uint e - 1) mod 4294967295"
    by (simp add: d_def mod_simps)
  also have "\<dots> = uint e - 1"
    using assms uint_u32_bounds [of e] by (intro mod_pos_pos_trivial) (simp_all add: u32_nonzero_uint)
  finally have "seq_add s (int (Suc (nat d))) = e"
    using d by (simp add: word_uint_eq_iff add.commute)
  then show ?thesis by blast
qed

lemma advance_start_returns:
  "e \<noteq> 0 \<Longrightarrow> \<exists>s'. advance_start p data e s = Some (Ok s') \<and> s' \<noteq> 0 \<and> (data s' = None \<or> s' = e)"
  using seq_add_distance [of e s] advance_start_returns_within [of s _ e p data] seq_add_not_0 by metis

lemma then_run_Ok [simp]: "then_run (Some (Ok x)) f = f x"
  by (simp add: then_run_def)

lemma then_run_SomeOk_iff [outcome_simps]:
  "then_run m f = Some (Ok y) \<longleftrightarrow> (\<exists>x. m = Some (Ok x) \<and> f x = Some (Ok y))"
  by (auto simp: then_run_def split: option.splits outcome.splits)

lemma ack_entry_eq:
  "ack_entry p env pkt s i =
     then_run (Some (if ack_start_seq pkt \<noteq> [] then index (ack_start_seq pkt) i else Ok MIN_SEQUENCE_ID))
       (\<lambda>a. then_run (Some (if ack_seq_count pkt \<noteq> []
           then and_then (index (ack_seq_count pkt) i) (\<lambda>n. Ok (seq_add a (uint n)))
           else Ok (seq_add a 1)))
       (\<lambda>e. if seq_in_between (send_window_start_seq s) (send_window_end_seq s) (seq_add e (- 1)) \<and>
               (seq_in_between (send_window_start_seq s) (send_window_end_seq s) a \<longrightarrow>
                  a = send_window_start_seq s)
            then then_run (advance_start p (send_window_data s) (send_window_end_seq s) (send_window_start_seq s))
                   (\<lambda>start. Some (Ok (s\<lparr>send_window_start_seq := start\<rparr>)))
            else Some (Ok s)))"
  unfolding ack_entry_def Let_def next_seq_1 next_seq_minus_1 next_seq_u32 then_run_Ok ack_range_skipped
  by (intro arg_cong2 [where f = then_run] refl ext) auto

text \<open>
  The one thing an entry of an acknowledgement can change is where the send window starts; no data
  is forgotten and no connection hears of it.
\<close>

definition moved_start :: "session \<Rightarrow> session \<Rightarrow> bool" where
  "moved_start s s' \<longleftrightarrow> (\<exists>start. s' = s\<lparr>send_window_start_seq := start\<rparr> \<and>
     (start = send_window_start_seq s \<or> start \<noteq> 0))"

lemma moved_start_refl [simp]: "moved_start s s"
  unfolding moved_start_def by (rule exI [of _ "send_window_start_seq s"]) simp

lemma moved_start_trans: "moved_start s t \<Longrightarrow> moved_start t u \<Longrightarrow> moved_start s u"
  unfolding moved_start_def by force

lemma moved_start_end: "moved_start s t \<Longrightarrow> send_window_end_seq t = send_window_end_seq s"
  unfolding moved_start_def by auto

lemma then_run_ends:
  assumes "\<And>e. m \<noteq> Err e" and "\<And>x. f x = Some Panic \<or> (\<exists>y. f x = Some (Ok y) \<and> P y)"
  shows "then_run (Some m) f = Some Panic \<or> (\<exists>y. then_run (Some m) f = Some (Ok y) \<and> P y)"
  using assms by (cases m) (auto simp: then_run_def)

lemma ack_entry_cases:
  assumes "send_window_end_seq s \<noteq> 0"
  shows "ack_entry p env pkt s i = Some Panic \<or>
    (\<exists>s'. ack_entry p env pkt s i = Some (Ok s') \<and> moved_start s s')"
proof -
  obtain start where start: "advance_start p (send_window_data s) (send_window_end_seq s) (send_window_start_seq s) =
      Some (Ok start)" "start \<noteq> 0"
    using advance_start_returns [OF assms] by blast
  then have "moved_start s (s\<lparr>send_window_start_seq := start\<rparr>)" by (auto simp: moved_start_def)
  then show ?thesis
    unfolding ack_entry_eq start(1)
    by (intro then_run_ends) (simp_all add: index_def and_then_Err_iff)
qed

lemma ack_entries_cases:
  assumes "send_window_end_seq s \<noteq> 0"
  shows "ack_entries p env pkt s is = Some Panic \<or>
    (\<exists>s'. ack_entries p env pkt s is = Some (Ok s') \<and> moved_start s s')"
  using assms
proof (induction "is" arbitrary: s)
  case (Cons i "is")
  show ?case
    using ack_entry_cases [OF Cons.prems, of p env pkt i]
  proof
    assume "\<exists>s'. ack_entry p env pkt s i = Some (Ok s') \<and> moved_start s s'"
    then obtain t where t: "ack_entry p env pkt s i = Some (Ok t)" "moved_start s t" by blast
    then show ?thesis
      using Cons.IH [of t] Cons.prems moved_start_end [OF t(2)] moved_start_trans [OF t(2)] by auto
  qed (simp add: then_run_def)
qed simp

definition acks_done :: "ack_env \<Rightarrow> session \<Rightarrow> (bool \<times> session, string) outcome option \<Rightarrow> bool" where
  "acks_done env s r \<longleftrightarrow> r = Some Panic \<or>
     (\<exists>go s' s''. r = Some (Ok (go, s'')) \<and> moved_start s s' \<and>
        (s'' = s' \<or> s'' = update_conn_window_size (round64 env) s'))"

lemma receive_acks_done:
  assumes "send_window_end_seq s \<noteq> 0"
  shows "acks_done env s (receive_acks p env pkt s)"
proof -
  have run: "acks_done env s (then_run (ack_entries p env pkt s is)
      (\<lambda>s. Some (Ok (True, update_conn_window_size (round64 env) s))))" for "is"
    using ack_entries_cases [OF assms, of p env pkt "is"]
    by (elim disjE exE conjE) (auto simp: acks_done_def then_run_def)
  have skip: "acks_done env s (Some (Ok (go, s)))" for go
    using moved_start_refl [of s] unfolding acks_done_def by blast
  show ?thesis
    unfolding receive_acks_def Let_def by (simp only: run skip split: if_split) simp
qed

section \<open>Steps and invariant\<close>

text \<open>
  The operations of a session as steps. The rounds of a connection run on a clone that shares the
  maps behind the locks but has its own window size.
\<close>

inductive session_step :: "session \<Rightarrow> session \<Rightarrow> bool" where
  writes: "session_write p pc s buf ws = Some (Ok (n, s', es)) \<Longrightarrow> session_step s s'"
| flushes: "start_flush_round p pc s = Ok (s', es) \<Longrightarrow> session_step s s'"
| reads: "session_read p now s buf = Some (Ok (n, buf', s')) \<Longrightarrow> session_step s s'"
| dials: "dial pc s oks = (res, s', es) \<Longrightarrow> session_step s s'"
| accepts: "accept pc s oks = (res, s', es) \<Longrightarrow> session_step s s'"
| receives: "\<lbrakk>\<And>cs. mset (order cs) = mset cs;
    receive_with p pc env order s lid rid buf = Some (Ok (s', es))\<rbrakk> \<Longrightarrow> session_step s s'"
| reports: "check_bytes_read_method pc now now' s = (go, s', es) \<Longrightarrow> session_step s s'"
| resizes: "session_step s (update_conn_window_size rnd s)"
| conn: "\<lbrakk>(k, c) \<in> set (connections s); conn_step (c\<lparr>window_size := w\<rparr>) c'\<rbrakk> \<Longrightarrow>
    session_step s (s\<lparr>connections := map (\<lambda>(k', d). (k', if k' = k \<and> d = c
      then c'\<lparr>window_size := window_size c\<rparr> else d)) (connections s)\<rparr>)"

text \<open>
  Nothing is ever received: the receive window stays as it was made. The buffer is full of zeros
  between two writes, and the connections are filed under their keys.
\<close>

definition nothing_received :: "session \<Rightarrow> bool" where
  "nothing_received s \<longleftrightarrow> recv_window_data s = Map.empty \<and> recv_window_used s = 0 \<and>
     s_bytes_read s = 0 \<and> recv_window_start_seq s = MIN_SEQUENCE_ID"

definition conns_filed :: "session \<Rightarrow> bool" where
  "conns_filed s \<longleftrightarrow> distinct (map fst (connections s)) \<and> (\<forall>(k, c) \<in> set (connections s).
     k = conn_key (local_client_id c) (remote_client_id c) \<and> conn_inv c)"

definition session_inv :: "session \<Rightarrow> bool" where
  "session_inv s \<longleftrightarrow> nothing_received s \<and> conns_filed s \<and> send_buffer s = replicate 1024 0 \<and>
     send_window_start_seq s \<noteq> 0 \<and> send_window_end_seq s \<noteq> 0 \<and> send_window_data s 0 = None \<and>
     (is_closed s \<longrightarrow> is_established s) \<and> (connections s \<noteq> [] \<longrightarrow> is_established s)"

lemma session_inv_new: "session_inv (session_new config laddr raddr lids rids now1 now2)"
  by (simp add: session_inv_def session_new_def nothing_received_def conns_filed_def MIN_SEQUENCE_ID_def)

lemma conn_step_ids:
  "conn_step c c' \<Longrightarrow> local_client_id c' = local_client_id c \<and> remote_client_id c' = remote_client_id c"
  by (induction rule: conn_step.induct)
    (auto simp: conn_send_ack_def receive_ack_def set_window_size_def send_ack_round_def lock_conn_def
      check_timeout_round_def tx_round_def tx_send_def outcome_simps Let_def
      split: option.splits outcome.splits if_splits prod.splits)

lemma conn_inv_window [simp]: "conn_inv (c\<lparr>window_size := w\<rparr>) = conn_inv c"
  by (simp add: conn_inv_def)

lemma set_window_size_keeps [simp]:
  "local_client_id (set_window_size c n m) = local_client_id c"
  "remote_client_id (set_window_size c n m) = remote_client_id c"
  "conn_inv (set_window_size c n m) = conn_inv c"
  by (simp_all add: set_window_size_def)

lemma session_inv_window:
  "session_inv s \<Longrightarrow> session_inv (s\<lparr>remote_bytes_read := r\<rparr>)"
  by (simp add: session_inv_def nothing_received_def conns_filed_def)

lemma session_inv_moved: "session_inv s \<Longrightarrow> moved_start s s' \<Longrightarrow> session_inv s'"
  by (auto simp: session_inv_def nothing_received_def conns_filed_def moved_start_def)

lemma map_fst_keyed: "map fst (map (\<lambda>(k, c). (k, f k c)) cs) = map fst cs"
  by (induction cs) auto

lemma session_inv_conns:
  assumes "session_inv s"
    and "\<And>k c. (k, c) \<in> set (connections s) \<Longrightarrow> local_client_id (f k c) = local_client_id c \<and>
      remote_client_id (f k c) = remote_client_id c \<and> conn_inv (f k c)"
  shows "session_inv (s\<lparr>connections := map (\<lambda>(k, c). (k, f k c)) (connections s)\<rparr>)"
proof -
  have "conns_filed (s\<lparr>connections := map (\<lambda>(k, c). (k, f k c)) (connections s)\<rparr>)"
    using assms map_fst_keyed [of f "connections s"] by (fastforce simp: session_inv_def conns_filed_def simp del: map_map)
  then show ?thesis using assms(1) by (simp add: session_inv_def nothing_received_def)
qed

lemma session_inv_resize:
  assumes "session_inv s"
  shows "session_inv (update_conn_window_size rnd s)"
proof -
  have "conn_inv c" if "(k, c) \<in> set (connections s)" for k c
    using assms that by (auto simp: session_inv_def conns_filed_def)
  then have "session_inv (s\<lparr>connections := map (\<lambda>(k, c). (k, set_window_size c (n c) 1)) (connections s)\<rparr>)" for n
    by (intro session_inv_conns [OF assms]) auto
  then show ?thesis using assms by (simp add: update_conn_window_size_def Let_def)
qed

lemma wait_for_send_window_state:
  "wait_for_send_window p s n ws = Some (Ok (free, s')) \<Longrightarrow>
     \<exists>r. s' = s\<lparr>remote_bytes_read := r\<rparr> \<and> free = send_window_size s - send_window_used s' \<and>
       (\<exists>sm. add_u p (send_window_used s') n = (Ok sm :: (_, string) outcome) \<and> sm \<le> send_window_size s)"
proof (induction p s n ws rule: wait_for_send_window.induct)
  case (1 p s n ws)
  show ?case
  proof (cases "add_u p (send_window_used s) n :: (_, string) outcome")
    case (Ok sm)
    show ?thesis
    proof (cases "send_window_size s < sm")
      case True
      then obtain r rs where ws: "ws = r # rs"
          and rec: "wait_for_send_window p (s\<lparr>remote_bytes_read := r\<rparr>) n rs = Some (Ok (free, s'))"
        using "1.prems" Ok by (subst (asm) wait_for_send_window.simps) (auto split: list.splits)
      from "1.IH" [OF Ok True ws rec] show ?thesis by simp
    next
      case False
      then have "s' = s \<and> free = send_window_size s - send_window_used s"
        using "1.prems" Ok by (subst (asm) wait_for_send_window.simps)
          (auto simp: outcome_simps sub_u_def overflow_Ok_iff)
      then show ?thesis using Ok False by (intro exI [of _ "remote_bytes_read s"]) (simp add: not_less)
    qed
  qed (use "1.prems" in \<open>simp_all add: wait_for_send_window.simps [of p s n ws]\<close>)
qed

lemma flush_send_buffer_eq:
  assumes "length (send_buffer s) = 1024"
  shows "flush_send_buffer p pc s =
    Ok (s\<lparr>send_window_data := (send_window_data s)(send_window_end_seq s \<mapsto>
            encode_packet pc (default_packet\<lparr>sequence_id := send_window_end_seq s, pdata := send_buffer s\<rparr>)),
          send_window_end_seq := seq_add (send_window_end_seq s) 1,
          send_buffer := replicate 1024 0\<rparr>, [SendSeq (send_window_end_seq s)])"
  using assms by (simp add: flush_send_buffer_def next_seq_1 Let_def)

lemma session_inv_flush:
  assumes "session_inv (s\<lparr>send_buffer := replicate 1024 0\<rparr>)" and "length (send_buffer s) = 1024"
    and "flush_send_buffer p pc s = Ok (s', es)"
  shows "session_inv s'"
  using assms(1,3) unfolding flush_send_buffer_eq [OF assms(2)]
  by (auto simp: session_inv_def nothing_received_def conns_filed_def)

lemma start_flush_function_waits:
  "session_inv s \<Longrightarrow> start_flush_function_round p pc True (send_buffer s) s = None"
  by (simp add: start_flush_function_round_def write_lock_def session_inv_def)

lemma length_overwrite: "length buf \<le> length arr \<Longrightarrow> length (overwrite buf arr) = length arr"
  by (simp add: overwrite_def)

lemma session_inv_write:
  assumes "session_inv s" and "session_write p pc s buf ws = Some (Ok (n, s', es))"
  shows "session_inv s'"
proof (cases "is_stream s")
  case True
  then show ?thesis using assms by (auto simp: session_write_def split: if_splits)
next
  case False
  then obtain free t bw where t: "wait_for_send_window p s (of_nat (length buf)) ws = Some (Ok (free, t))"
      "length buf \<le> length (send_buffer t)"
      "flush_send_buffer p pc (t\<lparr>send_buffer := overwrite buf (send_buffer t), bytes_write := bw\<rparr>) = Ok (s', es)"
    using assms(2)
    by (auto simp: session_write_def outcome_simps Let_def not_less split: if_splits option.splits)
  obtain r where "t = s\<lparr>remote_bytes_read := r\<rparr>" using wait_for_send_window_state [OF t(1)] by blast
  then have inv: "session_inv t" using assms(1) by (simp add: session_inv_window)
  have "session_inv (t\<lparr>send_buffer := overwrite buf (send_buffer t), bytes_write := bw,
      send_buffer := replicate 1024 0\<rparr>)"
    using inv by (simp add: session_inv_def nothing_received_def conns_filed_def)
  then show ?thesis
    using t(2,3) inv by (intro session_inv_flush [OF _ _ t(3)]) (simp_all add: length_overwrite session_inv_def)
qed

lemma read_loop_no_data:
  "read_loop p now s buf received =
     (if recv_window_data s (recv_window_start_seq s) \<noteq> None then Some (Ok (received, buf, s))
      else Some Panic)"
  by (subst read_loop.simps) simp

lemma session_read_cases:
  "session_read p now s buf = Some (Ok (0, buf, s)) \<or> session_read p now s buf = Some Panic"
  by (simp add: session_read_def read_loop_no_data)

lemma new_connections_filed:
  "(k, c) \<in> set (new_connections w ends) \<Longrightarrow>
     \<exists>l r. (l, r) \<in> set ends \<and> k = conn_key l r \<and> c = connection_new l r w"
proof -
  have "(k, c) \<in> set (foldl (\<lambda>cs (l, r). AList.update (conn_key l r) (connection_new l r w) cs) cs ends) \<Longrightarrow>
      (k, c) \<in> set cs \<or> (\<exists>l r. (l, r) \<in> set ends \<and> k = conn_key l r \<and> c = connection_new l r w)" for cs
  proof (induction ends arbitrary: cs)
    case (Cons e ends)
    obtain l r where e: "e = (l, r)" by fastforce
    have "(k, c) \<in> set (AList.update (conn_key l r) (connection_new l r w) cs) \<Longrightarrow>
        (k, c) \<in> set cs \<or> k = conn_key l r \<and> c = connection_new l r w"
      by (induction cs) (auto split: if_splits)
    then show ?case using Cons e by fastforce
  qed simp
  from this [of "[]"] show "(k, c) \<in> set (new_connections w ends) \<Longrightarrow> ?thesis"
    by (simp add: new_connections_def)
qed

lemma distinct_new_connections: "distinct (map fst (new_connections w ends))"
proof -
  have "distinct (map fst (foldl (\<lambda>cs (l, r). AList.update (conn_key l r) (connection_new l r w) cs) cs ends))"
    if "distinct (map fst cs)" for cs
    using that by (induction ends arbitrary: cs) (auto simp: distinct_update)
  then show ?thesis by (simp add: new_connections_def)
qed

lemma connection_new_ids [simp]:
  "local_client_id (connection_new l r w) = l" "remote_client_id (connection_new l r w) = r"
  "conn_inv (connection_new l r w)"
  by (simp_all add: connection_new_def conn_inv_def)

lemma session_inv_handshake:
  assumes order: "\<And>cs. mset (order cs) = mset cs" and inv: "session_inv s"
    and step: "handle_handshake_packet rnd order s pkt = (s', es)"
  shows "session_inv s'"
proof -
  have filed: "k = conn_key (local_client_id c) (remote_client_id c)" "conn_inv c"
    if "(k, c) \<in> set (order (new_connections w ends))" for k c w ends
    using that mset_eq_setD [OF order] new_connections_filed [of k c w ends] by auto
  have keys: "distinct (map fst (order (new_connections w ends)))" for w ends
    using distinct_new_connections [of w ends] order [of "new_connections w ends"]
    by (metis mset_eq_imp_distinct_iff mset_map)
  have "conns_filed s' \<and> nothing_received s' \<and> (is_closed s' \<longrightarrow> is_established s') \<and>
      (connections s' \<noteq> [] \<longrightarrow> is_established s') \<and> send_buffer s' = send_buffer s \<and> send_window_data s' = send_window_data s \<and>
      send_window_start_seq s' = send_window_start_seq s \<and> send_window_end_seq s' = send_window_end_seq s"
    using inv step unfolding handle_handshake_packet_def Let_def
    by
      (auto simp: session_inv_def nothing_received_def conns_filed_def keys dest: filed split: if_splits)
  then show ?thesis using inv by (simp add: session_inv_def)
qed

lemma receive_data_nothing:
  assumes "nothing_received s"
  shows "\<exists>s'. receive_data p lid rid pkt s = Ok (s', []) \<and>
    (s' = s \<or> s' = s\<lparr>connections := map (\<lambda>(k, c).
       (k, if k = conn_key lid rid then conn_send_ack c (sequence_id pkt) else c)) (connections s)\<rparr>)"
  using assms by (auto simp: receive_data_def nothing_received_def Let_def)

lemma conn_send_ack_keeps [simp]:
  "local_client_id (conn_send_ack c seq) = local_client_id c"
  "remote_client_id (conn_send_ack c seq) = remote_client_id c"
  "conn_inv (conn_send_ack c seq) = conn_inv c"
  by (simp_all add: conn_send_ack_def conn_inv_def)

lemma session_inv_receive_data:
  assumes "session_inv s" and "receive_data p lid rid pkt s = Ok (s', es)"
  shows "session_inv s'"
proof -
  have "session_inv (s\<lparr>connections := map (\<lambda>(k, c).
      (k, if k = conn_key lid rid then conn_send_ack c (sequence_id pkt) else c)) (connections s)\<rparr>)"
    using assms(1) by (intro session_inv_conns) (auto simp: session_inv_def conns_filed_def)
  then show ?thesis
    using assms receive_data_nothing [of s p lid rid pkt] by (auto simp: session_inv_def)
qed

lemma session_inv_receive:
  assumes order: "\<And>cs. mset (order cs) = mset cs" and inv: "session_inv s"
    and step: "receive_with p pc env order s lid rid buf = Some (Ok (s', es))"
  shows "session_inv s'"
proof (cases "10 < length buf")
  case False
  then obtain pkt where pkt: "decode_packet pc buf = Some pkt"
    using step by (auto simp: receive_with_def split: option.splits)
  show ?thesis
  proof (cases "pclose pkt \<or> \<not> is_established s")
    case True
    have "session_inv (handle_close_packet s)"
      using inv by (auto simp: handle_close_packet_def session_inv_def nothing_received_def conns_filed_def)
    then show ?thesis
      using True False step pkt inv session_inv_handshake [OF order inv]
      by (auto simp: receive_with_def split: if_splits)
  next
    case open_session: False
    have "send_window_end_seq s \<noteq> 0" using inv by (simp add: session_inv_def)
    then have acks: "acks_done env s (receive_acks p env pkt s)" by (rule receive_acks_done)
    from step False pkt open_session obtain go t where
      t: "receive_acks p env pkt s = Some (Ok (go, t))"
      and rest: "if \<not> go then s' = t
        else \<exists>es'. receive_data p lid rid pkt (fst (receive_bytes_read pkt t)) = Ok (s', es')"
      by (auto simp: receive_with_def outcome_simps split: if_splits prod.splits)
    have inv_t: "session_inv t"
      using acks t inv by (auto simp: acks_done_def intro: session_inv_moved session_inv_resize)
    then have "session_inv (fst (receive_bytes_read pkt t))"
      by (simp add: receive_bytes_read_def session_inv_window)
    then show ?thesis
      using rest inv_t session_inv_receive_data by (auto split: if_splits)
  qed
qed (use inv step in \<open>simp add: receive_with_def\<close>)

lemma no_report_new: "nothing_received s \<Longrightarrow> no_report now s"
  by (simp add: no_report_def nothing_received_def)

interpretation sess: step_invariant session_step session_inv
proof
  fix s s'
  assume inv: "session_inv s" and step: "session_step s s'"
  from step show "session_inv s'"
  proof cases
    case (writes p pc buf ws n es)
    then show ?thesis by (rule session_inv_write [OF inv])
  next
    case (flushes p pc es)
    have "session_inv (s\<lparr>send_buffer := replicate 1024 0\<rparr>)" "length (send_buffer s) = 1024"
      using inv by (simp_all add: session_inv_def nothing_received_def conns_filed_def)
    then show ?thesis
      using session_inv_flush flushes by (simp add: start_flush_round_def)
  next
    case (reads p now buf n buf')
    then show ?thesis using inv session_read_cases [of p now s buf] by auto
  next
    case (receives order p pc env lid rid buf es)
    show ?thesis by (rule session_inv_receive [OF receives(1) inv receives(2)])
  next
    case (reports pc now now' go es)
    then show ?thesis
      using inv no_report_new [of s now] by (auto simp: check_bytes_read_method_def session_inv_def)
  next
    case (resizes rnd)
    then show ?thesis using inv by (simp add: session_inv_resize)
  next
    case (conn k c w c')
    have "conn_inv c" using conn(2) inv by (auto simp: session_inv_def conns_filed_def)
    then have "conn_inv c'" using conn.preserved [OF _ conn(3)] by simp
    then show ?thesis
      unfolding conn(1) using inv conn_step_ids [OF conn(3)]
      by (intro session_inv_conns) (auto simp: session_inv_def conns_filed_def)
  qed (use inv in \<open>auto simp: dial_def accept_def Let_def session_inv_def nothing_received_def
      conns_filed_def split: if_splits prod.splits\<close>)
qed

section \<open>Properties\<close>

lemma session_reachable_inv:
  "session_step\<^sup>*\<^sup>* (session_new config laddr raddr lids rids now1 now2) s \<Longrightarrow> session_inv s"
  using sess.run session_inv_new by blast

lemma overwrite_zeros: "length buf \<le> 1024 \<Longrightarrow> overwrite buf (replicate 1024 0) = buf @ replicate (1024 - length buf) 0"
  by (simp add: overwrite_def)

text \<open>A write that fits the free window does not wait, whatever wakes it up.\<close>

lemma wait_for_send_window_free:
  assumes "unat (send_window_used s) + unat n \<le> unat (send_window_size s)"
  shows "wait_for_send_window p s n ws = Some (Ok (send_window_size s - send_window_used s, s))"
proof -
  have bound: "unat (send_window_used s) + unat n < 2 ^ 32"
    using assms unat_u32_less [of "send_window_size s"] by simp
  then have "add_u p (send_window_used s) n = (Ok (send_window_used s + n) :: (_, string) outcome)"
    by (intro add_u_exact) simp
  moreover have "\<not> send_window_size s < send_window_used s + n"
    using assms bound by (simp add: word_less_nat_alt unat_add_fits)
  moreover have "sub_u p (send_window_size s) (send_window_used s) =
      (Ok (send_window_size s - send_window_used s) :: (_, string) outcome)"
    using assms by (simp add: sub_u_def word_less_nat_alt)
  ultimately show ?thesis by (simp add: wait_for_send_window.simps [of p s n ws])
qed


text \<open>A session for the witnesses: new, then one handshake packet of a peer received.\<close>

definition demo_handshake :: packet where
  "demo_handshake = default_packet\<lparr>client_ids := [''r''], pwindow_size := 4096, pmtu := 1024, handshake := True\<rparr>"

definition demo_peer :: packet_codec where
  "demo_peer = \<lparr>encode_packet = pdata, decode_packet = (\<lambda>bs. Some demo_handshake)\<rparr>"

definition demo_env :: ack_env where
  "demo_env = \<lparr>round64 = (\<lambda>x. x), tanh64 = (\<lambda>x. 0), clock = 0, update_taken = True\<rparr>"

abbreviation demo_new :: session where
  "demo_new \<equiv> session_new default_ncp_config ''l'' ''r'' [''l''] [] 0 0"

definition demo_session :: session where
  "demo_session = demo_new\<lparr>send_window_size := 4096, send_window_packet_count := 4,
     connections := [(conn_key ''l'' ''r'', connection_new ''l'' ''r'' 4)],
     remote_client_ids := [''r''], is_established := True\<rparr>"

lemma demo_session_reached: "session_step\<^sup>*\<^sup>* demo_new demo_session"
proof -
  have "receive_with Debug demo_peer demo_env (\<lambda>cs. cs) demo_new ''l'' ''r'' [1] =
      Some (Ok (demo_session, [OnAccept]))"
    by (simp add: receive_with_def demo_peer_def demo_handshake_def default_packet_def session_new_def
        handle_handshake_packet_def demo_env_def default_ncp_config_def new_connections_def
        demo_session_def Let_def)
  then have "session_step demo_new demo_session" by (intro session_step.receives) simp_all
  then show ?thesis by (rule r_into_rtranclp)
qed


text \<open>C14: the state of a session is well-formed in every state it reaches. The buffer has its 1024 bytes, all
  zero between two writes; no end of the send window and no packet stored for sending has the number 0;
  each connection is filed once, under the key of its own ends, and has a sending time for every
  packet it has marked as resent; and only an established session has connections or is closed.\<close>

theorem session_well_formed:
  assumes "session_step\<^sup>*\<^sup>* (session_new config laddr raddr lids rids now1 now2) s"
  shows "send_buffer s = replicate 1024 0 \<and>
    send_window_start_seq s \<noteq> 0 \<and> send_window_end_seq s \<noteq> 0 \<and> 0 \<notin> dom (send_window_data s) \<and>
    distinct (map fst (connections s)) \<and>
    (\<forall>(k, c) \<in> set (connections s). k = conn_key (local_client_id c) (remote_client_id c) \<and>
       resent_seq c \<subseteq> dom (time_sent_seq c)) \<and>
    (connections s \<noteq> [] \<or> is_closed s \<longrightarrow> is_established s)"
  using session_reachable_inv [OF assms] unfolding session_inv_def conns_filed_def conn_inv_def by auto

theorem session_well_formed_witness:
  "connections demo_session \<noteq> [] \<and> distinct (map fst (connections demo_session)) \<and> is_established demo_session"
  using session_well_formed [OF demo_session_reached] by (simp add: demo_session_def)

text \<open>C15: no state that a session reaches holds received data: the receive window stays empty, at
  its first sequence number, and no byte counts as read, whatever packets arrive. The map is only
  written under a test that the number is already in it.\<close>

theorem session_receives_nothing:
  assumes "session_step\<^sup>*\<^sup>* (session_new config laddr raddr lids rids now1 now2) s"
  shows "recv_window_data s = Map.empty \<and> recv_window_used s = 0 \<and> s_bytes_read s = 0 \<and>
    recv_window_start_seq s = MIN_SEQUENCE_ID \<and> send_buffer s = replicate 1024 0 \<and>
    (\<forall>now. check_bytes_read_round pc now s = (s, []))"
  using session_reachable_inv [OF assms] no_report_new [of s]
  by (simp add: session_inv_def nothing_received_def check_bytes_read_round_def)

theorem session_receives_nothing_witness:
  "recv_window_data demo_session = Map.empty \<and> s_bytes_read demo_session = 0"
  using session_receives_nothing [OF demo_session_reached] by simp

text \<open>C16: \<open>read\<close> returns no data in any state at all: either 0 bytes with the buffer untouched, or it
  panics. On an open, established session it panics exactly when the first number of the window is
  missing, since it holds the lock of the map while it waits for the number to arrive.\<close>

theorem session_read_never_delivers:
  "(session_read p now s buf = Some (Ok (0, buf, s)) \<or> session_read p now s buf = Some Panic) \<and>
   (session_read p now s buf = Some Panic \<longleftrightarrow>
      is_established s \<and> \<not> is_closed s \<and> buf \<noteq> [] \<and> recv_window_data s (recv_window_start_seq s) = None)"
  by (auto simp: session_read_def read_loop_no_data)

text \<open>C16: a packet that one session writes is dropped by any session that receives it: the bytes
  that \<open>write\<close> stores for sending hold the 1024 bytes of the buffer, and \<open>receive_with\<close> returns at
  once on more than 10 bytes.\<close>

theorem written_packet_dropped:
  assumes "session_step\<^sup>*\<^sup>* (session_new config laddr raddr lids rids now1 now2) s"
    and "\<forall>pkt. length (pdata pkt) \<le> length (encode_packet pc pkt)"
    and "session_write p pc s buf ws = Some (Ok (n, s', es))" and "\<not> is_stream s"
  shows "\<exists>sent. send_window_data s' (send_window_end_seq s) = Some sent \<and>
    receive_with p' pc' env order peer lid rid sent = Some (Ok (peer, []))"
proof -
  have inv: "session_inv s" by (rule session_reachable_inv [OF assms(1)])
  obtain free t bw where t: "wait_for_send_window p s (of_nat (length buf)) ws = Some (Ok (free, t))"
      "length buf \<le> length (send_buffer t)"
      "flush_send_buffer p pc (t\<lparr>send_buffer := overwrite buf (send_buffer t), bytes_write := bw\<rparr>) = Ok (s', es)"
    using assms(3,4)
    by (auto simp: session_write_def outcome_simps Let_def not_less split: if_splits option.splits)
  obtain r where r: "t = s\<lparr>remote_bytes_read := r\<rparr>" using wait_for_send_window_state [OF t(1)] by blast
  let ?pkt = "default_packet\<lparr>sequence_id := send_window_end_seq s, pdata := overwrite buf (send_buffer t)\<rparr>"
  have len: "length (overwrite buf (send_buffer t)) = 1024"
    using t(2) inv r by (simp add: length_overwrite session_inv_def)
  then have "send_window_data s' (send_window_end_seq s) = Some (encode_packet pc ?pkt)"
    using t(3) r by (auto simp: flush_send_buffer_eq)
  moreover have "10 < length (encode_packet pc ?pkt)"
    using spec [OF assms(2), of ?pkt] len by simp
  ultimately show ?thesis by (simp add: receive_with_def)
qed

theorem written_packet_dropped_witness:
  "\<exists>s' sent. session_write Debug demo_peer demo_session [7] [] = Some (Ok (1, s', [SendSeq 1])) \<and>
     send_window_data s' 1 = Some sent \<and>
     receive_with Debug demo_peer demo_env (\<lambda>cs. cs) demo_session ''r'' ''l'' sent = Some (Ok (demo_session, []))"
proof -
  have sizes: "\<forall>pkt. length (pdata pkt) \<le> length (encode_packet demo_peer pkt)" by (simp add: demo_peer_def)
  obtain s' where s': "session_write Debug demo_peer demo_session [7] [] = Some (Ok (1, s', [SendSeq 1]))"
    using wait_for_send_window_free [of demo_session "of_nat (length [7 :: u8])" Debug "[]"]
    by (simp add: session_write_def demo_session_def session_new_def default_ncp_config_def is_stream_def
        send_window_used_def MIN_SEQUENCE_ID_def flush_send_buffer_def next_seq_1 overwrite_def add_u_def)
  have "\<not> is_stream demo_session" "send_window_end_seq demo_session = 1"
    by (simp_all add: demo_session_def session_new_def default_ncp_config_def is_stream_def MIN_SEQUENCE_ID_def)
  then show ?thesis
    using written_packet_dropped [OF demo_session_reached sizes s'] s' by metis
qed

lemma receive_with_not_None:
  assumes "session_inv s"
  shows "receive_with p pc env order s lid rid buf \<noteq> None"
proof -
  have "send_window_end_seq s \<noteq> 0" using assms by (simp add: session_inv_def)
  then have acks: "acks_done env s (receive_acks p env pkt s)" for pkt by (rule receive_acks_done)
  have "then_run (receive_acks p env pkt s) (\<lambda>(go, s). if \<not> go then Some (Ok (s, []))
      else let (s, es) = receive_bytes_read pkt s
           in Some (and_then (receive_data p lid rid pkt s) (\<lambda>(s, es'). Ok (s, es @ es')))) \<noteq> None" for pkt
    using acks [of pkt] unfolding acks_done_def
    by (elim disjE exE conjE) (auto simp: then_run_def split: prod.splits)
  then show ?thesis by (auto simp: receive_with_def split: option.splits)
qed



lemma uint_seq_add_inside:
  "s \<noteq> 0 \<Longrightarrow> 0 \<le> uint s + k - 1 \<Longrightarrow> uint s + k \<le> 4294967295 \<Longrightarrow> uint (seq_add s k) = uint s + k"
  by (simp add: uint_seq_add mod_pos_pos_trivial algebra_simps)

lemma advance_start_stored:
  assumes "s \<noteq> 0" and "s < e" and stored: "\<forall>q. s \<le> q \<and> q < e \<longrightarrow> data q \<noteq> None"
  shows "advance_start p data e s = Some (Ok e)"
proof -
  define k where "k = nat (uint e - uint s - 1)"
  have k: "int (Suc k) = uint e - uint s" using assms(2) by (simp add: k_def word_less_def)
  have at: "uint (seq_add s (int (Suc j))) = uint s + int (Suc j)" if "j \<le> k" for j
    using that k assms(1) uint_u32_bounds [of s] uint_u32_bounds [of e]
    by (intro uint_seq_add_inside) (linarith | simp)+
  have "seq_add s (int (Suc k)) = e" using at [of k] k by (simp add: word_uint_eq_iff)
  then obtain j where j: "j \<le> k" "advance_start p data e s = Some (Ok (seq_add s (int (Suc j))))"
      "data (seq_add s (int (Suc j))) = None \<or> seq_add s (int (Suc j)) = e"
    using advance_start_returns_within by blast
  have "seq_add s (int (Suc j)) < e" "s \<le> seq_add s (int (Suc j))" if "j < k"
    using that at [of j] k by (simp_all add: word_less_def word_le_def)
  then have "seq_add s (int (Suc j)) = e" using j stored \<open>seq_add s (int (Suc k)) = e\<close>
    by (cases "j < k") auto
  then show ?thesis using j(2) by simp
qed

text \<open>C20: what an acknowledgement of a range of packets in flight does, for a window that does not
  wrap around and whose packets are all stored. No packet is removed and no connection is told of
  it. A range of two or more from the start of the window moves the start over every packet in
  flight, acknowledged or not; any other range changes nothing.\<close>

theorem ack_moves_whole_window:
  assumes "send_window_start_seq s \<noteq> 0" and "send_window_start_seq s \<le> a" and "0 < n"
    and "uint a + uint n \<le> uint (send_window_end_seq s)"
    and "\<forall>q. send_window_start_seq s \<le> q \<and> q < send_window_end_seq s \<longrightarrow> send_window_data s q \<noteq> None"
    and "ack_start_seq pkt = [a]" and "ack_seq_count pkt = [n]"
  shows "receive_acks p env pkt s = Some (Ok (True, update_conn_window_size (round64 env)
    (if a = send_window_start_seq s \<and> 1 < n
     then s\<lparr>send_window_start_seq := send_window_end_seq s\<rparr> else s)))"
proof -
  let ?s = "send_window_start_seq s" and ?e = "send_window_end_seq s"
  have n: "1 \<le> uint n" using assms(3) by (simp add: word_less_def)
  have se: "?s < ?e" using assms(2,4) n by (simp add: word_less_def word_le_def)
  have a: "a \<noteq> 0" using assms(1,2) by (auto simp: word_le_def u32_nonzero_uint)
  have "uint (seq_add (seq_add a (uint n)) (- 1)) = uint a + (uint n - 1)"
    using a n assms(4) uint_u32_bounds [of ?e] u32_nonzero_uint [of a]
    unfolding seq_add_add by (subst uint_seq_add_inside) auto
  then have last: "seq_in_between ?s ?e (seq_add (seq_add a (uint n)) (- 1)) \<longleftrightarrow>
      uint ?s < uint a + (uint n - 1)"
    using se assms(4) by (auto simp: seq_in_between_def word_less_def word_le_def)
  have first: "seq_in_between ?s ?e a \<longleftrightarrow> ?s < a"
    using se n assms(4) by (auto simp: seq_in_between_def word_less_def word_le_def)
  have cond: "seq_in_between ?s ?e (seq_add (seq_add a (uint n)) (- 1)) \<and>
      (seq_in_between ?s ?e a \<longrightarrow> a = ?s) \<longleftrightarrow> a = ?s \<and> 1 < n"
    unfolding last first using assms(2) n by (auto simp: word_less_def word_le_def word_uint_eq_iff)
  have "ack_entry p env pkt s 0 =
      (if seq_in_between ?s ?e (seq_add (seq_add a (uint n)) (- 1)) \<and> (seq_in_between ?s ?e a \<longrightarrow> a = ?s)
       then Some (Ok (s\<lparr>send_window_start_seq := ?e\<rparr>)) else Some (Ok s))"
    unfolding ack_entry_eq assms(6,7) index_def
    by (simp only: advance_start_stored [OF assms(1) se assms(5)] then_run_Ok and_then.simps
        list.size nth_Cons_0 list.distinct if_True if_False not_False_eq_True zero_less_Suc simp_thms add_Suc_right)
  then have entry: "ack_entry p env pkt s 0 =
      Some (Ok (if a = ?s \<and> 1 < n then s\<lparr>send_window_start_seq := ?e\<rparr> else s))"
    unfolding cond by simp
  show ?thesis by (simp add: receive_acks_def assms(6,7) entry)
qed

theorem ack_moves_whole_window_witness:
  "let s = demo_session\<lparr>send_window_end_seq := 4, send_window_data := [1 \<mapsto> [1], 2 \<mapsto> [2], 3 \<mapsto> [3]]\<rparr>;
       pkt = default_packet\<lparr>ack_start_seq := [1], ack_seq_count := [2]\<rparr>
   in receive_acks Debug demo_env pkt s = Some (Ok (True, update_conn_window_size (\<lambda>x. x)
        (s\<lparr>send_window_start_seq := 4\<rparr>)))"
proof -
  let ?s = "demo_session\<lparr>send_window_end_seq := 4, send_window_data := [1 \<mapsto> [1], 2 \<mapsto> [2], 3 \<mapsto> [3]]\<rparr>"
  have start: "send_window_start_seq ?s = 1" by (simp add: demo_session_def session_new_def MIN_SEQUENCE_ID_def)
  have stored: "\<forall>q. send_window_start_seq ?s \<le> q \<and> q < send_window_end_seq ?s \<longrightarrow> send_window_data ?s q \<noteq> None"
  proof (intro allI impI)
    fix q :: u32
    assume "send_window_start_seq ?s \<le> q \<and> q < send_window_end_seq ?s"
    then have "uint q = 1 \<or> uint q = 2 \<or> uint q = 3" unfolding start by (auto simp: word_le_def word_less_def)
    then have "q = 1 \<or> q = 2 \<or> q = 3" by (simp add: word_uint_eq_iff)
    then show "send_window_data ?s q \<noteq> None" by auto
  qed
  show ?thesis
    using ack_moves_whole_window [OF _ _ _ _ stored, of 1 2
        "default_packet\<lparr>ack_start_seq := [1], ack_seq_count := [2]\<rparr>" Debug demo_env]
    unfolding start by (simp add: demo_env_def Let_def)
qed

text \<open>C15: \<open>send_close_packet\<close> panics on every established session, after its one packet went out to
  the first connection, if there is one; on a session that is not established it does nothing.\<close>

theorem send_close_packet_outcome:
  "(\<not> is_established s \<longrightarrow> send_close_packet pc s oks = (Ok (), [])) \<and>
   (is_established s \<longrightarrow> fst (send_close_packet pc s oks) = Panic \<and>
     snd (send_close_packet pc s oks) =
       (case connections s of
          [] \<Rightarrow> []
        | (_, c) # _ \<Rightarrow> [SendWith (local_client_id c) (remote_client_id c)
            (encode_packet pc (default_packet\<lparr>pclose := True\<rparr>)) (retransmission_timeout c)]))"
  by (auto simp: send_close_packet_def select_ok_def Let_def split: list.splits)

theorem send_close_packet_outcome_witness:
  "fst (send_close_packet demo_peer demo_session []) = Panic"
proof -
  have "is_established demo_session" by (simp add: demo_session_def)
  then show ?thesis using send_close_packet_outcome [of demo_session demo_peer "[]"] by blast
qed

lemma new_connections_keys:
  "distinct (map fst (new_connections w ends)) \<and>
   set (map fst (new_connections w ends)) = (\<lambda>(l, r). conn_key l r) ` set ends"
proof -
  have "distinct (map fst cs) \<Longrightarrow>
      distinct (map fst (foldl (\<lambda>cs (l, r). AList.update (conn_key l r) (connection_new l r w) cs) cs ends)) \<and>
      set (map fst (foldl (\<lambda>cs (l, r). AList.update (conn_key l r) (connection_new l r w) cs) cs ends)) =
        fst ` set cs \<union> (\<lambda>(l, r). conn_key l r) ` set ends" for cs
  proof (induction ends arbitrary: cs)
    case (Cons e ends)
    then show ?case
      using Cons.IH [of "AList.update (conn_key (fst e) (snd e)) (connection_new (fst e) (snd e) w) cs"]
      by (auto simp: distinct_update dom_update case_prod_beta)
  qed simp
  from this [of "[]"] show ?thesis by (simp add: new_connections_def)
qed

text \<open>C13: a valid handshake packet establishes a session once. The send window and the packet size
  become the smaller of both sides' values, there is one connection for each of the first client
  ids of both sides, filed under its key, all with the same window, and later handshake packets
  change nothing.\<close>

theorem handshake_establishes:
  assumes "\<not> is_established s" and "pwindow_size pkt \<noteq> 0" and "pmtu pkt \<noteq> 0" and "client_ids pkt \<noteq> []"
    and order: "\<forall>cs. mset (order cs) = mset cs"
    and "w = rnd (rnd (real (unat (min (pwindow_size pkt) (send_window_size s))) /
        real (unat (min (pmtu pkt) (send_mtu s)))) / real (min (length (local_client_ids s)) (length (client_ids pkt))))"
  shows "\<exists>s'. handle_handshake_packet rnd order s pkt = (s', [OnAccept]) \<and> is_established s' \<and>
    send_window_size s' = min (pwindow_size pkt) (send_window_size s) \<and>
    send_mtu s' = min (pmtu pkt) (send_mtu s) \<and> remote_client_ids s' = client_ids pkt \<and>
    fst ` set (connections s') = (\<lambda>(l, r). conn_key l r) ` set (zip (local_client_ids s) (client_ids pkt)) \<and>
    distinct (map fst (connections s')) \<and>
    (\<forall>(k, c) \<in> set (connections s'). \<exists>l r. k = conn_key l r \<and> c = connection_new l r w) \<and>
    (\<forall>pkt' rnd' order'. handle_handshake_packet rnd' order' s' pkt' = (s', []))"
proof -
  let ?ends = "zip (local_client_ids s) (client_ids pkt)"
  let ?s = "s\<lparr>send_window_size := min (pwindow_size pkt) (send_window_size s),
      send_mtu := min (pmtu pkt) (send_mtu s),
      send_window_packet_count := rnd (real (unat (min (pwindow_size pkt) (send_window_size s))) /
        real (unat (min (pmtu pkt) (send_mtu s)))),
      connections := order (new_connections w ?ends), remote_client_ids := client_ids pkt,
      is_established := True\<rparr>"
  have ends: "zip (take (min (length xs) (length ys)) xs) (take (min (length xs) (length ys)) ys) = zip xs ys"
    for xs :: "string list" and ys :: "string list"
    by (simp flip: take_zip)
  have sizes: "(if p < q then s\<lparr>send_window_size := p\<rparr> else s) = s\<lparr>send_window_size := min p q\<rparr>"
    "(if p < r then t\<lparr>send_mtu := p\<rparr> else t) = t\<lparr>send_mtu := min p r\<rparr>"
    if "q = send_window_size s" "r = send_mtu t" for p q r t
    using that by (auto simp: min_def)
  have "handle_handshake_packet rnd order s pkt = (?s, [OnAccept])"
    using assms(1-4) by (simp add: handle_handshake_packet_def Let_def sizes ends assms(6))
  moreover have "set (order (new_connections w ?ends)) = set (new_connections w ?ends)"
    by (rule mset_eq_setD [OF spec [OF order]])
  moreover have "distinct (map fst (order (new_connections w ?ends)))"
    using new_connections_keys [of w ?ends] order
    by (metis mset_eq_imp_distinct_iff mset_map)
  ultimately show ?thesis
    using new_connections_keys [of w ?ends] new_connections_filed [of _ _ w ?ends]
    by (intro exI [of _ ?s]) (fastforce simp: handle_handshake_packet_def)
qed

theorem handshake_establishes_witness:
  "\<exists>s'. handle_handshake_packet (\<lambda>x. x) rev demo_new demo_handshake = (s', [OnAccept]) \<and>
     is_established s' \<and> send_window_size s' = 4096 \<and> fst ` set (connections s') = {''l - r''}"
  using handshake_establishes [of demo_new demo_handshake rev _ "\<lambda>x. x", OF _ _ _ _ _ refl]
  by (simp add: demo_handshake_def session_new_def default_ncp_config_def conn_key_def) blast

end
