(* ===== verification/SessionTasks.thy ===== *)
theory SessionTasks
  imports Session
begin

text \<open>
  The tasks that \<^verbatim>\<open>start_session\<close> (\<^verbatim>\<open>src/session.rs\<close>) and \<^verbatim>\<open>start_conn\<close> (\<^verbatim>\<open>src/connection.rs\<close>) run side by
  side: flushing, reporting the bytes read, and for each connection sending, acknowledging and
  checking timeouts. A task is a state machine whose phases are the points where it waits; its moves
  use the rounds of \<^verbatim>\<open>Session\<close> and \<^verbatim>\<open>Connection\<close>. The session's mutex is a queue: its head holds the
  lock and the others wait in the order in which they came. \<open>tasks_step\<close> interleaves the tasks in any
  way and with any other users of the session. The locale \<open>kept_lock\<close> states what follows when one
  user of such a lock never lets it go; it is interpreted on the flushing task.
\<close>

section \<open>A fair lock that is kept\<close>

definition at_head :: "'a \<Rightarrow> 'a list \<Rightarrow> bool" where
  "at_head x q \<longleftrightarrow> (case q of [] \<Rightarrow> False | y # _ \<Rightarrow> y = x)"

definition queued_behind :: "('a \<Rightarrow> bool) \<Rightarrow> 'a \<Rightarrow> 'a list \<Rightarrow> bool" where
  "queued_behind early x q \<longleftrightarrow> (\<exists>pre post. q = pre @ x # post \<and> list_all early pre)"

lemma at_head_iff: "at_head x q \<longleftrightarrow> (\<exists>q'. q = x # q')"
  by (auto simp: at_head_def split: list.splits)

lemma queued_behind_head: "queued_behind early x q \<Longrightarrow> at_head y q \<Longrightarrow> y = x \<or> early y"
  by (auto simp: queued_behind_def at_head_iff Cons_eq_append_conv)

text \<open>
  Users join at the end of the queue, and leave it at the head; \<open>keeper\<close> does not leave, and \<open>early\<close>
  are the users that may be ahead of it.
\<close>

locale kept_lock =
  fixes step :: "'s \<Rightarrow> 's \<Rightarrow> bool" and queue :: "'s \<Rightarrow> 'o list" and live :: "'s \<Rightarrow> bool"
    and keeper :: 'o and early :: "'o \<Rightarrow> bool"
  assumes fifo: "step s t \<Longrightarrow> live t \<Longrightarrow> live s \<and> (\<exists>new. queue t = queue s @ new \<or>
      (\<exists>x q. queue s = x # q \<and> x \<noteq> keeper \<and> queue t = q @ new))"
begin

lemma behind_step:
  assumes "step s t" and "live t" and "queued_behind early keeper (queue s)"
  shows "queued_behind early keeper (queue t)"
proof -
  obtain pre post where q: "queue s = pre @ keeper # post" "list_all early pre"
    using assms(3) by (auto simp: queued_behind_def)
  obtain new where "queue t = queue s @ new \<or> (\<exists>x q. queue s = x # q \<and> x \<noteq> keeper \<and> queue t = q @ new)"
    using fifo [OF assms(1,2)] by blast
  then show ?thesis
  proof
    assume "queue t = queue s @ new"
    then have "queue t = pre @ keeper # post @ new" using q(1) by simp
    then show ?thesis using q(2) by (auto simp: queued_behind_def)
  next
    assume "\<exists>x q. queue s = x # q \<and> x \<noteq> keeper \<and> queue t = q @ new"
    then obtain x pre' where "pre = x # pre'" "queue t = pre' @ keeper # post @ new"
      using q(1) by (cases pre) auto
    then show ?thesis using q(2) by (auto simp: queued_behind_def)
  qed
qed

lemma kept_step: "step s t \<Longrightarrow> live t \<Longrightarrow> at_head keeper (queue s) \<Longrightarrow> at_head keeper (queue t)"
  using fifo [of s t] by (auto simp: at_head_iff)

lemma kept_run:
  "step\<^sup>*\<^sup>* s t \<Longrightarrow> live t \<Longrightarrow> at_head keeper (queue s) \<Longrightarrow> at_head keeper (queue t)"
proof (induction rule: rtranclp_induct)
  case (step t u)
  then show ?case using fifo [OF step(2)] kept_step by blast
qed simp

end

section \<open>State\<close>

datatype owner =
    App nat                    \<comment> \<open>anything else that uses the session\<close>
  | FlushOwner
  | CheckOwner
  | TxOwner nat                \<comment> \<open>the three tasks of the connection with this position\<close>
  | AckOwner nat
  | TimeoutOwner nat

fun is_app :: "owner \<Rightarrow> bool" where
  "is_app (App _) = True"
| "is_app _ = False"

text \<open>Waiting for the session, for the interval, for the stored packets, for room in the channel.\<close>

datatype flush_phase = FlushLocking | FlushSleeping | FlushStoring | FlushSending u32

text \<open>Waiting for the interval, for the session, and for it again with the number of bytes read.\<close>

datatype check_phase = CheckSleeping | CheckLocking | CheckReporting u64

text \<open>
  Waiting for a number to send, and for the session with the number and its packet. The task keeps
  the connection's lock until it ends, and a reader's guard of the stored packets while it has one in
  hand.
\<close>

datatype tx_phase = TxIdle | TxLocking u32 bytes | TxEnded

text \<open>
  Waiting for the interval, for the session with what the round came to, and for the connection's
  lock that the task itself holds.
\<close>

datatype ack_phase = AckSleeping | AckLocking bool "effect list" | AckStuck

text \<open>Not polled yet; waiting for the session's configuration, for the interval, for room in the channel.\<close>

datatype timeout_phase = TimeoutStart | TimeoutConfig | TimeoutSleeping | TimeoutSending "u32 list"

record conn_task =
  ct_key :: string             \<comment> \<open>the connection, whose maps are shared with the session\<close>
  ct_window :: real            \<comment> \<open>its window size, of which the task has a copy\<close>
  ct_tx :: tx_phase
  ct_ack :: ack_phase
  ct_timeout :: timeout_phase

record tasks =
  tk_session :: session
  tk_queue :: "owner list"     \<comment> \<open>the session's mutex\<close>
  tk_send :: "u32 list"        \<comment> \<open>\<^verbatim>\<open>send_chan\<close>, of capacity 1\<close>
  tk_resend :: "u32 list"      \<comment> \<open>\<^verbatim>\<open>resend_chan\<close>, of capacity 1\<close>
  tk_flush :: flush_phase
  tk_check :: check_phase
  tk_conns :: "conn_task list"
  tk_calls :: "effect list"    \<comment> \<open>the calls of \<^verbatim>\<open>send_with\<close> that the tasks made\<close>
  tk_stored :: nat             \<comment> \<open>the packets that the flushing task stored\<close>
  tk_panicked :: bool

definition start_conn :: "string \<times> connection \<Rightarrow> conn_task" where
  "start_conn = (\<lambda>(k, c). \<lparr>ct_key = k, ct_window = window_size c, ct_tx = TxIdle, ct_ack = AckSleeping,
     ct_timeout = TimeoutStart\<rparr>)"

text \<open>
  The joined tasks are polled in order, the flushing task first: it is in the queue of the mutex,
  behind those who use the session at that moment, before any other task runs.
\<close>

definition start_session :: "nat list \<Rightarrow> u32 list \<Rightarrow> u32 list \<Rightarrow> session \<Rightarrow> tasks" where
  "start_session apps sent resent s =
     \<lparr>tk_session = s, tk_queue = map App apps @ [FlushOwner], tk_send = sent, tk_resend = resent,
      tk_flush = FlushLocking, tk_check = CheckSleeping, tk_conns = map start_conn (connections s),
      tk_calls = [], tk_stored = 0, tk_panicked = False\<rparr>"

section \<open>Moves\<close>

text \<open>A panic in one of the joined tasks ends them all and drops their guards.\<close>

definition tasks_panic :: "tasks \<Rightarrow> tasks" where
  "tasks_panic t = t\<lparr>tk_queue := filter is_app (tk_queue t), tk_panicked := True\<rparr>"

definition wait_lock :: "owner \<Rightarrow> tasks \<Rightarrow> tasks" where
  "wait_lock x t = t\<lparr>tk_queue := tk_queue t @ [x]\<rparr>"

definition unlock :: "tasks \<Rightarrow> tasks" where
  "unlock t = t\<lparr>tk_queue := tl (tk_queue t)\<rparr>"

text \<open>The connection of a task: the session's, with the task's own window size.\<close>

definition conn_of :: "tasks \<Rightarrow> conn_task \<Rightarrow> connection option" where
  "conn_of t ct = map_option (\<lambda>c. c\<lparr>window_size := ct_window ct\<rparr>) (map_of (connections (tk_session t)) (ct_key ct))"

definition put_task :: "nat \<Rightarrow> conn_task \<Rightarrow> tasks \<Rightarrow> tasks" where
  "put_task k ct t = t\<lparr>tk_conns := (tk_conns t)[k := ct]\<rparr>"

definition put_conn :: "nat \<Rightarrow> conn_task \<Rightarrow> connection \<Rightarrow> tasks \<Rightarrow> tasks" where
  "put_conn k ct c t =
     (let s = tk_session t in
      put_task k (ct\<lparr>ct_window := window_size c\<rparr>)
        (t\<lparr>tk_session := s\<lparr>connections := map (\<lambda>(key, d). (key, if key = ct_key ct
             then c\<lparr>window_size := window_size d\<rparr> else d)) (connections s)\<rparr>\<rparr>))"

fun is_reading :: "tx_phase \<Rightarrow> bool" where
  "is_reading (TxLocking _ _) = True"
| "is_reading _ = False"

definition readers :: "tasks \<Rightarrow> bool" where
  "readers t \<longleftrightarrow> list_ex (\<lambda>ct. is_reading (ct_tx ct)) (tk_conns t)"

text \<open>\<open>None\<close> is a task that has to wait.\<close>

definition flush_task :: "profile \<Rightarrow> packet_codec \<Rightarrow> tasks \<Rightarrow> tasks option" where
  "flush_task p pc t =
     (case tk_flush t of
        FlushLocking \<Rightarrow> if at_head FlushOwner (tk_queue t) then Some (t\<lparr>tk_flush := FlushSleeping\<rparr>) else None
      | FlushSleeping \<Rightarrow>
          if 0 < length (send_buffer (tk_session t)) then Some (t\<lparr>tk_flush := FlushStoring\<rparr>) else Some t
      | FlushStoring \<Rightarrow>
          if readers t then None
          else (case start_flush_round p pc (tk_session t) of
                  Ok (s, [SendSeq seq]) \<Rightarrow>
                    Some (t\<lparr>tk_session := s, tk_stored := tk_stored t + 1, tk_flush := FlushSending seq\<rparr>)
                | Ok (s, _) \<Rightarrow> Some (t\<lparr>tk_session := s, tk_flush := FlushSleeping\<rparr>)
                | _ \<Rightarrow> Some (tasks_panic t))
      | FlushSending seq \<Rightarrow>
          if length (tk_send t) < 1 then Some (t\<lparr>tk_send := tk_send t @ [seq], tk_flush := FlushSleeping\<rparr>)
          else None)"

definition check_task :: "packet_codec \<Rightarrow> int \<Rightarrow> tasks \<Rightarrow> tasks option" where
  "check_task pc now t =
     (case tk_check t of
        CheckSleeping \<Rightarrow> Some (wait_lock CheckOwner (t\<lparr>tk_check := CheckLocking\<rparr>))
      | CheckLocking \<Rightarrow>
          if \<not> at_head CheckOwner (tk_queue t) then None
          else if no_report now (tk_session t) then Some (unlock (t\<lparr>tk_check := CheckSleeping\<rparr>))
          else Some (wait_lock CheckOwner (unlock (t\<lparr>tk_check := CheckReporting (s_bytes_read (tk_session t))\<rparr>)))
      | CheckReporting n \<Rightarrow>
          if at_head CheckOwner (tk_queue t) then
            Some (unlock (t\<lparr>tk_check := CheckSleeping,
              tk_calls := tk_calls t @ report_calls pc ((tk_session t)\<lparr>s_bytes_read := n\<rparr>)\<rparr>))
          else None)"

text \<open>
  What wakes the sending task: the poll of \<^verbatim>\<open>resend_rx\<close>, the second that \<^verbatim>\<open>wait_for_send_window\<close> waits, or
  one of the two channels of the blocking \<^verbatim>\<open>select!\<close>.
\<close>

datatype tx_event = PollResend | WindowTimeout | SelectSend | SelectResend

definition tx_take :: "(real \<Rightarrow> real) \<Rightarrow> int \<Rightarrow> nat \<Rightarrow> conn_task \<Rightarrow> connection \<Rightarrow> u32 \<Rightarrow> tasks \<Rightarrow> tasks" where
  "tx_take rnd now k ct c seq t =
     (case send_window_data (tk_session t) seq of
        None \<Rightarrow> tasks_panic t
      | Some [] \<Rightarrow>
          (case tx_send rnd now True [seq \<mapsto> []] c seq of
             Ok (_, c, _) \<Rightarrow> put_conn k ct c t
           | _ \<Rightarrow> tasks_panic t)
      | Some buf \<Rightarrow> wait_lock (TxOwner k) (put_task k (ct\<lparr>ct_tx := TxLocking seq buf\<rparr>) t))"

definition tx_task :: "(real \<Rightarrow> real) \<Rightarrow> int \<Rightarrow> bool \<Rightarrow> tx_event \<Rightarrow> nat \<Rightarrow> tasks \<Rightarrow> tasks option" where
  "tx_task rnd now send_ok ev k t =
     (let ct = tk_conns t ! k in
      case conn_of t ct of
        None \<Rightarrow> None
      | Some c \<Rightarrow>
          let full = f64_to_u32 (window_size c) \<le> conn_send_window_used c in
          (case ct_tx ct of
             TxIdle \<Rightarrow>
               (case ev of
                  PollResend \<Rightarrow>
                    (case tk_resend t of
                       [] \<Rightarrow> None
                     | seq # rest \<Rightarrow>
                         let t = t\<lparr>tk_resend := rest\<rparr>
                         in Some (if seq = 0 then t else tx_take rnd now k ct c seq t))
                | WindowTimeout \<Rightarrow> if full then Some (put_task k (ct\<lparr>ct_tx := TxEnded\<rparr>) t) else None
                | SelectSend \<Rightarrow>
                    (case tk_send t of
                       [] \<Rightarrow> None
                     | seq # rest \<Rightarrow>
                         if full then None else Some (tx_take rnd now k ct c seq (t\<lparr>tk_send := rest\<rparr>)))
                | SelectResend \<Rightarrow>
                    (case tk_resend t of
                       [] \<Rightarrow> None
                     | seq # rest \<Rightarrow>
                         if full then None else Some (tx_take rnd now k ct c seq (t\<lparr>tk_resend := rest\<rparr>))))
           | TxLocking seq buf \<Rightarrow>
               if at_head (TxOwner k) (tk_queue t) then
                 (case tx_send rnd now send_ok [seq \<mapsto> buf] c seq of
                    Ok (_, c, es) \<Rightarrow>
                      Some (unlock (put_conn k (ct\<lparr>ct_tx := TxIdle\<rparr>) c (t\<lparr>tk_calls := tk_calls t @ es\<rparr>)))
                  | _ \<Rightarrow> Some (tasks_panic t))
               else None
           | TxEnded \<Rightarrow> None))"

text \<open>The lock of the connection is free for the other two tasks once the sending task has ended.\<close>

definition conn_free :: "conn_task \<Rightarrow> bool" where
  "conn_free ct \<longleftrightarrow> ct_tx ct = TxEnded \<and> ct_ack ct \<noteq> AckStuck \<and>
     ct_timeout ct \<in> {TimeoutStart, TimeoutConfig, TimeoutSleeping}"

definition ack_task :: "profile \<Rightarrow> packet_codec \<Rightarrow> nat \<Rightarrow> tasks \<Rightarrow> tasks option" where
  "ack_task p pc k t =
     (let ct = tk_conns t ! k in
      case conn_of t ct of
        None \<Rightarrow> None
      | Some c \<Rightarrow>
          (case ct_ack ct of
             AckSleeping \<Rightarrow>
               if \<not> conn_free ct then None
               else if send_ack_queue_len c = 0 then Some t
               else (case send_ack_round p pc (s_config (tk_session t)) c of
                       Ok (go, c, es) \<Rightarrow> Some (wait_lock (AckOwner k) (put_conn k (ct\<lparr>ct_ack := AckLocking go es\<rparr>) c t))
                     | _ \<Rightarrow> Some (tasks_panic t))
           | AckLocking go es \<Rightarrow>
               if \<not> at_head (AckOwner k) (tk_queue t) then None
               else
                 let t = t\<lparr>tk_calls := tk_calls t @ es\<rparr>
                 in Some (if go then unlock (put_task k (ct\<lparr>ct_ack := AckSleeping\<rparr>) t)
                          else put_task k (ct\<lparr>ct_ack := AckStuck\<rparr>) t)
           | AckStuck \<Rightarrow> None))"

fun resend_seqs :: "effect list \<Rightarrow> u32 list" where
  "resend_seqs [] = []"
| "resend_seqs (ResendSeq seq # es) = seq # resend_seqs es"
| "resend_seqs (_ # es) = resend_seqs es"

definition timeout_task :: "int \<Rightarrow> (u32 \<times> int) list \<Rightarrow> nat \<Rightarrow> tasks \<Rightarrow> tasks option" where
  "timeout_task now order k t =
     (let ct = tk_conns t ! k in
      case conn_of t ct of
        None \<Rightarrow> None
      | Some c \<Rightarrow>
          (case ct_timeout ct of
             TimeoutStart \<Rightarrow> Some (wait_lock (TimeoutOwner k) (put_task k (ct\<lparr>ct_timeout := TimeoutConfig\<rparr>) t))
           | TimeoutConfig \<Rightarrow>
               if at_head (TimeoutOwner k) (tk_queue t)
               then Some (unlock (put_task k (ct\<lparr>ct_timeout := TimeoutSleeping\<rparr>) t)) else None
           | TimeoutSleeping \<Rightarrow>
               if \<not> conn_free ct then None
               else
                 let (c, es) = check_timeout_round now order c
                 in Some (put_conn k (ct\<lparr>ct_timeout := TimeoutSending (resend_seqs es)\<rparr>) c t)
           | TimeoutSending [] \<Rightarrow> Some (put_task k (ct\<lparr>ct_timeout := TimeoutSleeping\<rparr>) t)
           | TimeoutSending (seq # seqs) \<Rightarrow>
               if length (tk_resend t) < 1
               then Some (put_task k (ct\<lparr>ct_timeout := TimeoutSending seqs\<rparr>) (t\<lparr>tk_resend := tk_resend t @ [seq]\<rparr>))
               else None))"

section \<open>Runs\<close>

text \<open>
  The tasks and the other users of the session, in any order. A user that holds the lock may do any
  operation of the session and write to or read from the channel.
\<close>

inductive tasks_step :: "profile \<Rightarrow> packet_codec \<Rightarrow> tasks \<Rightarrow> tasks \<Rightarrow> bool" for p pc where
  flush: "\<lbrakk>\<not> tk_panicked t; flush_task p pc t = Some t'\<rbrakk> \<Longrightarrow> tasks_step p pc t t'"
| check: "\<lbrakk>\<not> tk_panicked t; check_task pc now t = Some t'\<rbrakk> \<Longrightarrow> tasks_step p pc t t'"
| tx: "\<lbrakk>\<not> tk_panicked t; k < length (tk_conns t); tx_task rnd now send_ok ev k t = Some t'\<rbrakk> \<Longrightarrow> tasks_step p pc t t'"
| ack: "\<lbrakk>\<not> tk_panicked t; k < length (tk_conns t); ack_task p pc k t = Some t'\<rbrakk> \<Longrightarrow> tasks_step p pc t t'"
| timeout: "\<lbrakk>\<not> tk_panicked t; k < length (tk_conns t);
    \<forall>c. conn_of t (tk_conns t ! k) = Some c \<longrightarrow> map_of order = time_sent_seq c;
    timeout_task now order k t = Some t'\<rbrakk> \<Longrightarrow> tasks_step p pc t t'"
| app_waits: "tasks_step p pc t (wait_lock (App a) t)"
| app_works: "\<lbrakk>at_head (App a) (tk_queue t); session_step (tk_session t) s; length sent \<le> 1\<rbrakk> \<Longrightarrow>
    tasks_step p pc t (t\<lparr>tk_session := s, tk_send := sent\<rparr>)"
| app_leaves: "at_head (App a) (tk_queue t) \<Longrightarrow> tasks_step p pc t (unlock t)"

lemmas move_defs = flush_task_def check_task_def tx_task_def tx_take_def ack_task_def timeout_task_def
  wait_lock_def unlock_def put_task_def put_conn_def tasks_panic_def Let_def

lemmas move_splits = flush_phase.splits check_phase.splits tx_phase.splits tx_event.splits ack_phase.splits
  timeout_phase.splits option.splits outcome.splits list.splits effect.splits if_splits prod.splits

section \<open>The lock of the session\<close>

text \<open>How a move changes the queue: not at all, by one that joins, or by one that leaves at the head.\<close>

definition queue_move :: "tasks \<Rightarrow> tasks \<Rightarrow> bool" where
  "queue_move t t' \<longleftrightarrow> (\<exists>new. tk_queue t' = tk_queue t @ new \<or>
     (\<exists>x q. tk_queue t = x # q \<and> x \<noteq> FlushOwner \<and> tk_queue t' = q @ new))"

lemma queue_move_keep: "tk_queue t' = tk_queue t \<Longrightarrow> queue_move t t'"
  by (auto simp: queue_move_def)

lemma queue_move_join: "tk_queue t' = tk_queue t @ [x] \<Longrightarrow> queue_move t t'"
  by (auto simp: queue_move_def)

lemma queue_move_leave: "tk_queue t = x # q \<Longrightarrow> x \<noteq> FlushOwner \<Longrightarrow> tk_queue t' = q @ new \<Longrightarrow> queue_move t t'"
  by (auto simp: queue_move_def)

lemmas queue_moves = queue_move_keep queue_move_join queue_move_leave

lemma flush_task_queue: "flush_task p pc t = Some t' \<Longrightarrow> \<not> tk_panicked t' \<Longrightarrow> queue_move t t'"
  by (rule queue_move_keep) (auto simp: move_defs split: move_splits)

lemma check_task_queue: "check_task pc now t = Some t' \<Longrightarrow> queue_move t t'"
  by (auto simp: move_defs at_head_iff queue_move_def split: move_splits)

lemma tx_take_queue: "\<not> tk_panicked (tx_take rnd now k ct c seq t) \<Longrightarrow> queue_move t (tx_take rnd now k ct c seq t)"
  by (auto simp: move_defs queue_move_def split: move_splits)

lemma tx_task_cases:
  assumes "tx_task rnd now send_ok ev k t = Some t'"
  obtains (dropped) rest where "t' = t\<lparr>tk_resend := rest\<rparr>"
    | (take) c seq sent resent where "ct_tx (tk_conns t ! k) = TxIdle"
        "t' = tx_take rnd now k (tk_conns t ! k) c seq (t\<lparr>tk_send := sent, tk_resend := resent\<rparr>)"
    | (ended) "ct_tx (tk_conns t ! k) = TxIdle" "t' = put_task k ((tk_conns t ! k)\<lparr>ct_tx := TxEnded\<rparr>) t"
    | (locked) seq buf where "ct_tx (tk_conns t ! k) = TxLocking seq buf" "at_head (TxOwner k) (tk_queue t)"
proof (cases "ct_tx (tk_conns t ! k)")
  case TxIdle
  have "(\<exists>rest. t' = t\<lparr>tk_resend := rest\<rparr>) \<or> t' = put_task k ((tk_conns t ! k)\<lparr>ct_tx := TxEnded\<rparr>) t \<or>
      (\<exists>c seq rest. t' = tx_take rnd now k (tk_conns t ! k) c seq (t\<lparr>tk_send := rest\<rparr>)) \<or>
      (\<exists>c seq rest. t' = tx_take rnd now k (tk_conns t ! k) c seq (t\<lparr>tk_resend := rest\<rparr>))"
    using assms TxIdle
    by (cases ev) (fastforce simp: tx_task_def Let_def split: option.splits list.splits if_splits)+
  then show ?thesis
  proof (elim disjE exE)
    fix c seq rest
    assume "t' = tx_take rnd now k (tk_conns t ! k) c seq (t\<lparr>tk_send := rest\<rparr>)"
    then show ?thesis using TxIdle take [of c seq "tk_resend t" rest] by simp
  next
    fix c seq rest
    assume "t' = tx_take rnd now k (tk_conns t ! k) c seq (t\<lparr>tk_resend := rest\<rparr>)"
    then show ?thesis using TxIdle take [of c seq rest "tk_send t"] by simp
  qed (use TxIdle dropped ended in blast)+
qed (use assms locked in \<open>auto simp: tx_task_def Let_def split: option.splits if_splits\<close>)

lemma tx_task_queue:
  assumes "tx_task rnd now send_ok ev k t = Some t'" and "\<not> tk_panicked t'"
  shows "queue_move t t'"
  using assms(1)
proof (cases rule: tx_task_cases)
  case (take c seq sent resent)
  then show ?thesis using tx_take_queue assms(2) by (fastforce simp: queue_move_def)
next
  case locked
  then show ?thesis using assms
    by (auto simp: tx_task_def Let_def at_head_iff put_task_def put_conn_def unlock_def tasks_panic_def queue_move_def
        tx_take_def split: option.splits tx_phase.splits outcome.splits)
qed (simp_all add: queue_move_keep put_task_def)

lemma ack_task_queue: "ack_task p pc k t = Some t' \<Longrightarrow> \<not> tk_panicked t' \<Longrightarrow> queue_move t t'"
  by (auto simp: ack_task_def Let_def wait_lock_def unlock_def put_task_def put_conn_def tasks_panic_def at_head_iff
      queue_move_def split: option.splits ack_phase.splits if_splits outcome.splits)

lemma timeout_task_queue: "timeout_task now order k t = Some t' \<Longrightarrow> queue_move t t'"
  by (auto simp: timeout_task_def Let_def wait_lock_def unlock_def put_task_def put_conn_def at_head_iff
      queue_move_def split: option.splits timeout_phase.splits list.splits if_splits prod.splits)

interpretation session_lock: kept_lock "tasks_step p pc" tk_queue "\<lambda>t. \<not> tk_panicked t" FlushOwner is_app
proof
  fix t t'
  assume step: "tasks_step p pc t t'" and live: "\<not> tk_panicked t'"
  have "\<not> tk_panicked t \<and> queue_move t t'"
    using step
  proof cases
    case app_waits
    then show ?thesis using live by (auto simp: wait_lock_def intro: queue_moves)
  next
    case app_leaves
    then show ?thesis using live by (auto simp: unlock_def at_head_iff queue_move_def)
  qed (use live flush_task_queue check_task_queue tx_task_queue ack_task_queue timeout_task_queue
      in \<open>auto simp: queue_move_keep\<close>)
  then show "\<not> tk_panicked t \<and> (\<exists>new. tk_queue t' = tk_queue t @ new \<or>
      (\<exists>x q. tk_queue t = x # q \<and> x \<noteq> FlushOwner \<and> tk_queue t' = q @ new))"
    by (simp add: queue_move_def)
qed

section \<open>Calls\<close>

definition lock_inv :: "tasks \<Rightarrow> bool" where
  "lock_inv t \<longleftrightarrow> tk_panicked t \<or> queued_behind is_app FlushOwner (tk_queue t)"

lemma lock_inv_holder: "lock_inv t \<Longrightarrow> \<not> tk_panicked t \<Longrightarrow> at_head x (tk_queue t) \<Longrightarrow> x = FlushOwner \<or> is_app x"
  using queued_behind_head [of is_app FlushOwner "tk_queue t" x] by (auto simp: lock_inv_def)

lemma lock_inv_step: "tasks_step p pc t t' \<Longrightarrow> lock_inv t \<Longrightarrow> lock_inv t'"
  using session_lock.behind_step [of p pc t t'] session_lock.fifo [of p pc t t'] by (auto simp: lock_inv_def)

interpretation session_tasks: step_invariant "tasks_step p pc" lock_inv
  by unfold_locales (rule lock_inv_step)

lemma lock_inv_start: "lock_inv (start_session apps sent resent s)"
proof -
  have "list_all is_app (map App apps)" by (simp add: list_all_iff)
  then show ?thesis unfolding lock_inv_def start_session_def queued_behind_def by auto
qed

lemma tx_take_calls: "tk_calls (tx_take rnd now k ct c seq t) = tk_calls t"
  by (auto simp: move_defs split: move_splits)

lemma calls_step:
  assumes "tasks_step p pc t t'" and "lock_inv t"
  shows "tk_calls t' = tk_calls t"
  using assms(1)
proof cases
  case flush
  then show ?thesis by (auto simp: move_defs split: move_splits)
next
  case (check now)
  then show ?thesis using lock_inv_holder [OF assms(2), of CheckOwner]
    by (auto simp: check_task_def wait_lock_def unlock_def split: check_phase.splits if_splits)
next
  case (tx k rnd now send_ok ev)
  from tx(3) show ?thesis
    using tx(1) lock_inv_holder [OF assms(2), of "TxOwner k"]
    by (cases rule: tx_task_cases) (auto simp: tx_take_calls put_task_def)
next
  case (ack k)
  then show ?thesis using lock_inv_holder [OF assms(2), of "AckOwner k"]
    by (auto simp: ack_task_def Let_def wait_lock_def put_task_def put_conn_def tasks_panic_def
        split: option.splits ack_phase.splits if_splits outcome.splits)
next
  case (timeout k order now)
  then show ?thesis
    by (auto simp: timeout_task_def Let_def wait_lock_def unlock_def put_task_def put_conn_def
        split: option.splits timeout_phase.splits list.splits if_splits prod.splits)
qed (simp_all add: wait_lock_def unlock_def)

section \<open>A packet in hand\<close>

text \<open>A connection that has a packet in hand keeps it, and nothing more is stored.\<close>

definition in_hand :: "nat \<Rightarrow> u32 \<Rightarrow> bytes \<Rightarrow> nat \<Rightarrow> tasks \<Rightarrow> bool" where
  "in_hand k seq buf n t \<longleftrightarrow> k < length (tk_conns t) \<and> ct_tx (tk_conns t ! k) = TxLocking seq buf \<and> tk_stored t = n"

lemma in_hand_readers: "in_hand k seq buf n t \<Longrightarrow> readers t"
  by (auto simp: in_hand_def readers_def list_ex_iff intro: bexI [of _ "tk_conns t ! k"])

lemma in_hand_put_task:
  "in_hand k seq buf n t \<Longrightarrow> ct_tx ct = ct_tx (tk_conns t ! j) \<or> j \<noteq> k \<Longrightarrow> in_hand k seq buf n (put_task j ct t)"
  by (cases "j = k") (auto simp: in_hand_def put_task_def)

lemma in_hand_put_conn:
  "in_hand k seq buf n t \<Longrightarrow> ct_tx ct = ct_tx (tk_conns t ! j) \<or> j \<noteq> k \<Longrightarrow> in_hand k seq buf n (put_conn j ct c t)"
  by (cases "j = k") (auto simp: in_hand_def put_task_def put_conn_def Let_def)

lemma in_hand_frame [simp]:
  "in_hand k seq buf n (wait_lock x t) = in_hand k seq buf n t"
  "in_hand k seq buf n (unlock t) = in_hand k seq buf n t"
  "in_hand k seq buf n (tasks_panic t) = in_hand k seq buf n t"
  "in_hand k seq buf n (t\<lparr>tk_send := sent\<rparr>) = in_hand k seq buf n t"
  "in_hand k seq buf n (t\<lparr>tk_resend := resent\<rparr>) = in_hand k seq buf n t"
  "in_hand k seq buf n (t\<lparr>tk_session := s\<rparr>) = in_hand k seq buf n t"
  "in_hand k seq buf n (t\<lparr>tk_calls := es\<rparr>) = in_hand k seq buf n t"
  "in_hand k seq buf n (t\<lparr>tk_check := cp\<rparr>) = in_hand k seq buf n t"
  "in_hand k seq buf n (t\<lparr>tk_flush := fp\<rparr>) = in_hand k seq buf n t"
  by (simp_all add: in_hand_def wait_lock_def unlock_def tasks_panic_def)

lemma in_hand_tx_take:
  assumes "in_hand k seq buf n t" and "ct = tk_conns t ! j" and "ct_tx ct = TxIdle"
  shows "in_hand k seq buf n (tx_take rnd now j ct c seq' t)"
proof -
  have "j \<noteq> k" using assms by (auto simp: in_hand_def)
  then show ?thesis using assms(1)
    by (auto simp: tx_take_def intro: in_hand_put_task in_hand_put_conn split: option.splits list.splits outcome.splits)
qed

lemma in_hand_step:
  assumes "tasks_step p pc t t'" and "lock_inv t" and "in_hand k seq buf n t"
  shows "in_hand k seq buf n t'"
  using assms(1)
proof cases
  case flush
  then show ?thesis using assms(3) in_hand_readers [OF assms(3)]
    by (auto simp: flush_task_def split: flush_phase.splits if_splits)
next
  case (check now)
  then show ?thesis using assms(3) by (auto simp: check_task_def split: check_phase.splits if_splits)
next
  case (tx j rnd now send_ok ev)
  from tx(3) show ?thesis
  proof (cases rule: tx_task_cases)
    case (take c s sent resent)
    then show ?thesis using assms(3) by (auto intro: in_hand_tx_take)
  next
    case ended
    then have "j \<noteq> k" using assms(3) by (auto simp: in_hand_def)
    then show ?thesis using ended assms(3) in_hand_put_task by blast
  next
    case locked
    then show ?thesis using tx(1) lock_inv_holder [OF assms(2), of "TxOwner j"] by simp
  qed (use assms(3) in simp)
next
  case (ack j)
  then show ?thesis using assms(3)
    by (auto simp: ack_task_def Let_def intro!: in_hand_put_task in_hand_put_conn
        split: option.splits ack_phase.splits if_splits outcome.splits)
next
  case (timeout j order now)
  then show ?thesis using assms(3)
    by (auto simp: timeout_task_def Let_def intro!: in_hand_put_task in_hand_put_conn
        split: option.splits timeout_phase.splits list.splits if_splits prod.splits)
qed (use assms(3) in simp_all)

lemma tx_take_packet:
  "send_window_data (tk_session t) seq = Some buf \<Longrightarrow> buf \<noteq> [] \<Longrightarrow>
     tx_take rnd now k ct c seq t = wait_lock (TxOwner k) (put_task k (ct\<lparr>ct_tx := TxLocking seq buf\<rparr>) t)"
  by (cases buf) (simp_all add: tx_take_def)

text \<open>A run for the witnesses: the flushing task stores a packet of zeros, and the connection takes it.\<close>

definition demo_tasks :: "session \<Rightarrow> owner list \<Rightarrow> flush_phase \<Rightarrow> u32 list \<Rightarrow> tx_phase \<Rightarrow> nat \<Rightarrow> tasks" where
  "demo_tasks s q fp sent tp n =
     \<lparr>tk_session = s, tk_queue = q, tk_send = sent, tk_resend = [], tk_flush = fp, tk_check = CheckSleeping,
      tk_conns = [\<lparr>ct_key = conn_key ''l'' ''r'', ct_window = 4, ct_tx = tp, ct_ack = AckSleeping, ct_timeout = TimeoutStart\<rparr>],
      tk_calls = [], tk_stored = n, tk_panicked = False\<rparr>"

definition demo_flushed :: session where
  "demo_flushed = demo_session\<lparr>send_window_data := [1 \<mapsto> replicate 1024 0], send_window_end_seq := 2,
     send_buffer := replicate 1024 0\<rparr>"

lemma demo_run:
  "(tasks_step Debug demo_peer)\<^sup>*\<^sup>* (start_session [] [] [] demo_session)
     (demo_tasks demo_flushed [FlushOwner, TxOwner 0] FlushSleeping [] (TxLocking 1 (replicate 1024 0)) 1)"
proof -
  let ?run = "(tasks_step Debug demo_peer)\<^sup>*\<^sup>* (start_session [] [] [] demo_session)"
  let ?step = "tasks_step Debug demo_peer"
  have flush: "start_flush_round Debug demo_peer demo_session = Ok (demo_flushed, [SendSeq 1])"
    by (simp add: start_flush_round_def flush_send_buffer_def demo_flushed_def demo_session_def session_new_def
        next_seq_1 seq_add_def demo_peer_def MIN_SEQUENCE_ID_def default_packet_def Let_def)
  have start: "start_session [] [] [] demo_session = demo_tasks demo_session [FlushOwner] FlushLocking [] TxIdle 0"
    by (simp add: start_session_def demo_tasks_def demo_session_def start_conn_def connection_new_def)
  have "?step (demo_tasks demo_session [FlushOwner] FlushLocking [] TxIdle 0)
      (demo_tasks demo_session [FlushOwner] FlushSleeping [] TxIdle 0)"
    by (rule tasks_step.flush) (simp_all add: flush_task_def demo_tasks_def at_head_def)
  moreover have "?step (demo_tasks demo_session [FlushOwner] FlushSleeping [] TxIdle 0)
      (demo_tasks demo_session [FlushOwner] FlushStoring [] TxIdle 0)"
    by (rule tasks_step.flush) (simp_all add: flush_task_def demo_tasks_def demo_session_def session_new_def)
  moreover have "?step (demo_tasks demo_session [FlushOwner] FlushStoring [] TxIdle 0)
      (demo_tasks demo_flushed [FlushOwner] (FlushSending 1) [] TxIdle 1)"
    by (rule tasks_step.flush) (simp_all add: flush_task_def demo_tasks_def flush readers_def)
  moreover have "?step (demo_tasks demo_flushed [FlushOwner] (FlushSending 1) [] TxIdle 1)
      (demo_tasks demo_flushed [FlushOwner] FlushSleeping [1] TxIdle 1)"
    by (rule tasks_step.flush) (simp_all add: flush_task_def demo_tasks_def)
  moreover have "?step (demo_tasks demo_flushed [FlushOwner] FlushSleeping [1] TxIdle 1)
      (demo_tasks demo_flushed [FlushOwner, TxOwner 0] FlushSleeping [] (TxLocking 1 (replicate 1024 0)) 1)"
    by (rule tasks_step.tx [of _ 0 id 0 True SelectSend])
      (simp_all add: tx_task_def tx_take_packet [of _ _ "replicate 1024 0"] demo_tasks_def demo_flushed_def demo_session_def conn_of_def
        connection_new_def conn_send_window_used_def f64_to_u32_def wait_lock_def put_task_def)
  ultimately show ?thesis unfolding start by (meson converse_rtranclp_into_rtranclp rtranclp.rtrancl_refl)
qed

section \<open>Properties\<close>

text \<open>C17: the tasks of a session never send anything. However they interleave with each other and with
  other users of the session, \<^verbatim>\<open>send_with\<close> is not called by any of them: every call is made under the
  session's lock, which the flushing task, first in line, takes and never gives back. No other task
  ever holds it.\<close>

theorem session_tasks_never_send:
  assumes "(tasks_step p pc)\<^sup>*\<^sup>* (start_session apps sent resent s) t"
  shows "tk_calls t = [] \<and> (\<not> tk_panicked t \<longrightarrow>
    (\<forall>x. at_head x (tk_queue t) \<longrightarrow> x = FlushOwner \<or> is_app x) \<and>
    (\<forall>t'. (tasks_step p pc)\<^sup>*\<^sup>* t t' \<and> at_head FlushOwner (tk_queue t) \<and> \<not> tk_panicked t' \<longrightarrow>
      at_head FlushOwner (tk_queue t')))"
proof -
  have "tk_calls t = [] \<and> lock_inv t"
    using assms
  proof (induction rule: rtranclp_induct)
    case base
    then show ?case using lock_inv_start by (simp add: start_session_def)
  next
    case (step t u)
    then show ?case using calls_step lock_inv_step by metis
  qed
  then show ?thesis using lock_inv_holder session_lock.kept_run by blast
qed

theorem session_tasks_never_send_witness:
  "\<exists>t. (tasks_step Debug demo_peer)\<^sup>*\<^sup>* (start_session [] [] [] demo_session) t \<and>
     tk_queue t = [FlushOwner, TxOwner 0] \<and> tk_calls t = []"
  using session_tasks_never_send [OF demo_run] demo_run
  by (intro exI [of _ "demo_tasks demo_flushed [FlushOwner, TxOwner 0] FlushSleeping [] (TxLocking 1 (replicate 1024 0)) 1"])
    (simp add: demo_tasks_def)

text \<open>C18: the first packet that a connection takes off the channel stops the session. The sending task
  then waits for the session's lock with the packet in hand, as long as no task panics, and the
  flushing task, which needs the packets that the sender is still reading, stores no other.\<close>

theorem session_tasks_stall:
  assumes "(tasks_step p pc)\<^sup>*\<^sup>* (start_session apps sent resent s) t" and "k < length (tk_conns t)"
    and "ct_tx (tk_conns t ! k) = TxLocking seq buf" and "(tasks_step p pc)\<^sup>*\<^sup>* t t'"
  shows "ct_tx (tk_conns t' ! k) = TxLocking seq buf \<and> tk_stored t' = tk_stored t"
proof -
  have "lock_inv t" using session_tasks.run [OF assms(1)] lock_inv_start .
  with assms(4) have "lock_inv t' \<and> in_hand k seq buf (tk_stored t) t'"
  proof (induction rule: rtranclp_induct)
    case base
    then show ?case using assms(2,3) by (simp add: in_hand_def)
  next
    case (step t u)
    then show ?case using in_hand_step lock_inv_step by blast
  qed
  then show ?thesis by (simp add: in_hand_def)
qed

theorem session_tasks_stall_witness:
  "\<exists>t. (tasks_step Debug demo_peer)\<^sup>*\<^sup>* (start_session [] [] [] demo_session) t \<and>
     tk_flush t = FlushStoring \<and> ct_tx (tk_conns t ! 0) = TxLocking 1 (replicate 1024 0) \<and> tk_stored t = 1"
proof -
  let ?t = "\<lambda>fp. demo_tasks demo_flushed [FlushOwner, TxOwner 0] fp [] (TxLocking 1 (replicate 1024 0)) 1"
  have step: "tasks_step Debug demo_peer (?t FlushSleeping) (?t FlushStoring)"
    by (rule tasks_step.flush) (simp_all add: flush_task_def demo_tasks_def demo_flushed_def)
  have "ct_tx (tk_conns (?t FlushStoring) ! 0) = TxLocking 1 (replicate 1024 0) \<and> tk_stored (?t FlushStoring) = tk_stored (?t FlushSleeping)"
    using step by (intro session_tasks_stall [OF demo_run]) (simp_all add: demo_tasks_def)
  then show ?thesis
    using demo_run step by (intro exI [of _ "?t FlushStoring"]) (auto simp: demo_tasks_def)
qed

end
