(* ===== verification/EntryPoints.thy ===== *)
theory EntryPoints
  imports Session Rust_Std
begin

text \<open>
  The entry points beside the library: the example binary (\<^verbatim>\<open>src/main.rs\<close>), which writes to a new
  session over a TCP stream, and the greeting that \<^verbatim>\<open>src/lib.rs\<close> offers to C. The null pointer is
  address 0.
\<close>

section \<open>The example binary\<close>

record test_session =
  ts_local_client_id :: string
  ts_remote_client_id :: string
  ts_session :: session

definition test_session_new :: "session \<Rightarrow> test_session" where
  "test_session_new s = \<lparr>ts_local_client_id = ''alice'', ts_remote_client_id = ''bob'', ts_session = s\<rparr>"

definition test_session_write ::
    "profile \<Rightarrow> packet_codec \<Rightarrow> test_session \<Rightarrow> bytes \<Rightarrow> u64 list \<Rightarrow>
      (nat \<times> session \<times> effect list, ncp_error) outcome option" where
  "test_session_write p pc ts buf wakeups = session_write p pc (ts_session ts) buf wakeups"

definition test_session_read ::
    "profile \<Rightarrow> packet_codec \<Rightarrow> ack_env \<Rightarrow> ((string \<times> connection) list \<Rightarrow> (string \<times> connection) list) \<Rightarrow>
      test_session \<Rightarrow> bytes \<Rightarrow> (session \<times> effect list, string) outcome option" where
  "test_session_read p pc env order ts buf =
     receive_with p pc env order (ts_session ts) (ts_local_client_id ts) (ts_remote_client_id ts) buf"

text \<open>\<open>conn_result\<close> is what the operating system says to the connection.\<close>

definition main_run ::
    "profile \<Rightarrow> packet_codec \<Rightarrow> (unit, string) outcome \<Rightarrow> int \<Rightarrow> int \<Rightarrow> u64 list \<Rightarrow> (unit, string) outcome option" where
  "main_run p pc conn_result now1 now2 wakeups =
     (case unwrap_result conn_result :: (unit, string) outcome of
        Ok _ \<Rightarrow>
          let ts = test_session_new (session_new default_ncp_config '''' '''' [] [] now1 now2)
          in map_option (\<lambda>r. and_then (unwrap_result r) (\<lambda>_. Ok ()))
               (test_session_write p pc ts (as_bytes ''hello'') wakeups)
      | _ \<Rightarrow> Some Panic)"

text \<open>
  The example writes before any handshake, and the error is unwrapped: it always panics, whether or
  not the connection was made.
\<close>

lemma main_run_panics: "main_run p pc conn_result now1 now2 wakeups = Some Panic"
  by (cases conn_result)
    (simp_all add: main_run_def test_session_write_def test_session_new_def session_write_def session_new_def)

section \<open>The greeting\<close>

text \<open>
  The memory that C and the library share: the strings at their addresses, without the terminating
  zero, each with a flag that says whether \<^verbatim>\<open>CString::into_raw\<close> gave it away. What Rust leaves undefined
  (reading where there is no string, taking back what was not given away) is \<open>None\<close>. \<open>place\<close> is the
  address the allocator chose.
\<close>

type_synonym c_memory = "u64 \<rightharpoonup> bool \<times> bytes"

definition greeting_text :: "bytes \<Rightarrow> (bytes, string) outcome" where
  "greeting_text c_str =
     (let recipient = (case from_utf8 c_str of None \<Rightarrow> ''there'' | Some s \<Rightarrow> s);
          text_bytes = as_bytes (''Hello '' @ recipient)
      in if 0 \<in> set text_bytes then Panic else Ok text_bytes)"

definition rust_greeting :: "u64 \<Rightarrow> c_memory \<Rightarrow> u64 \<Rightarrow> (u64 \<times> c_memory, string) outcome option" where
  "rust_greeting place mem to =
     (if to = 0 then Some Panic
      else case mem to of
        None \<Rightarrow> None
      | Some (_, c_str) \<Rightarrow> Some (and_then (greeting_text c_str) (\<lambda>text_bytes. Ok (place, mem(place \<mapsto> (True, text_bytes))))))"

definition rust_greeting_free :: "c_memory \<Rightarrow> u64 \<Rightarrow> c_memory option" where
  "rust_greeting_free mem s =
     (if s = 0 then Some mem
      else case mem s of Some (True, _) \<Rightarrow> Some (mem(s := None)) | _ \<Rightarrow> None)"

text \<open>Every C string is greeted, by its own bytes when they are text.\<close>

lemma greeting_text_total:
  assumes "0 \<notin> set c_str"
  shows "greeting_text c_str = Ok (as_bytes ''Hello '' @ (if utf8_valid c_str then c_str else as_bytes ''there''))"
proof -
  have join: "as_bytes (''Hello '' @ s) = as_bytes ''Hello '' @ as_bytes s" for s by (simp add: as_bytes_def)
  have "0 \<notin> set (as_bytes ''Hello '')" "0 \<notin> set (as_bytes ''there'')" by (simp_all add: as_bytes_def)
  then show ?thesis using assms by (simp add: greeting_text_def from_utf8_def Let_def join del: append.simps)
qed

text \<open>
  With a fresh address from the allocator, a greeting can be read there, freeing it restores the memory,
  and freeing it twice, or a string of C, is undefined.
\<close>

lemma greeting_freed:
  assumes "mem to = Some (owned, c_str)" and "to \<noteq> 0" and "0 \<notin> set c_str" and "place \<noteq> 0" and "mem place = None"
  shows "\<exists>text_bytes mem'. rust_greeting place mem to = Some (Ok (place, mem')) \<and> mem' place = Some (True, text_bytes) \<and>
    text_bytes = as_bytes ''Hello '' @ (if utf8_valid c_str then c_str else as_bytes ''there'') \<and>
    rust_greeting_free mem' place = Some mem \<and> rust_greeting_free mem place = None \<and>
    (\<not> owned \<longrightarrow> rust_greeting_free mem to = None)"
proof -
  have "mem(place := None) = mem" using assms(5) by auto
  then show ?thesis using assms greeting_text_total [OF assms(3)]
    by (simp add: rust_greeting_def rust_greeting_free_def)
qed

end
