(* ===== verification/Wire.thy ===== *)
theory Wire
  imports Serialization
begin

text \<open>
  A concrete message format, for instantiating the protobuf codecs that the build generates: a
  message is the list of its fields, each a length and that many bytes, and a field that is a message
  is its encoding. It stands in for protobuf where a witness needs a codec that decodes what it
  encodes; the properties themselves hold for any codec with that law.
\<close>

fun enc_len :: "nat \<Rightarrow> bytes" where
  "enc_len 0 = [0]"
| "enc_len (Suc n) = 1 # enc_len n"

fun dec_len :: "bytes \<Rightarrow> (nat \<times> bytes) option" where
  "dec_len [] = None"
| "dec_len (b # bs) = (if b = 0 then Some (0, bs) else map_option (\<lambda>(n, r). (Suc n, r)) (dec_len bs))"

lemma dec_enc_len [simp]: "dec_len (enc_len n @ r) = Some (n, r)"
  by (induction n) simp_all

lemma dec_len_shorter: "dec_len bs = Some (n, r) \<Longrightarrow> length r < length bs"
  by (induction bs arbitrary: n r) (fastforce split: if_splits)+

fun enc_fields :: "bytes list \<Rightarrow> bytes" where
  "enc_fields [] = []"
| "enc_fields (f # fs) = enc_len (length f) @ f @ enc_fields fs"

function dec_fields :: "bytes \<Rightarrow> bytes list option" where
  "dec_fields bs =
     (if bs = [] then Some []
      else case dec_len bs of
          None \<Rightarrow> None
        | Some (n, r) \<Rightarrow>
            if length r < n then None
            else map_option ((#) (take n r)) (dec_fields (drop n r)))"
  by pat_completeness auto

termination dec_fields
  by (relation "measure length") (auto dest: dec_len_shorter)

declare dec_fields.simps [simp del]

lemma enc_len_not_Nil [simp]: "enc_len n \<noteq> []"
  by (cases n) simp_all

lemma dec_enc_fields [simp]: "dec_fields (enc_fields fs) = Some fs"
proof (induction fs)
  case (Cons f fs)
  then show ?case by (subst dec_fields.simps) simp
qed (simp add: dec_fields.simps)

declare enc_fields.simps [simp del]

text \<open>Optional fields and repeated ones.\<close>

definition enc_opt :: "('a \<Rightarrow> bytes) \<Rightarrow> 'a option \<Rightarrow> bytes" where
  "enc_opt enc x = (case x of None \<Rightarrow> [0] | Some y \<Rightarrow> 1 # enc y)"

definition dec_opt :: "(bytes \<Rightarrow> 'a option) \<Rightarrow> bytes \<Rightarrow> 'a option option" where
  "dec_opt dec bs = (case bs of [] \<Rightarrow> None | b # r \<Rightarrow> if b = 0 then Some None else map_option Some (dec r))"

lemma dec_enc_opt:
  "(\<And>y. x = Some y \<Longrightarrow> dec (enc y) = Some y) \<Longrightarrow> dec_opt dec (enc_opt enc x) = Some x"
  by (cases x) (simp_all add: enc_opt_def dec_opt_def)

fun dec_all :: "(bytes \<Rightarrow> 'a option) \<Rightarrow> bytes list \<Rightarrow> 'a list option" where
  "dec_all dec [] = Some []"
| "dec_all dec (f # fs) =
     (case (dec f, dec_all dec fs) of (Some x, Some xs) \<Rightarrow> Some (x # xs) | _ \<Rightarrow> None)"

lemma dec_all_map: "(\<And>x. dec (enc x) = Some x) \<Longrightarrow> dec_all dec (map enc xs) = Some xs"
  by (induction xs) simp_all

lemma be_roundtrip [simp]:
  "be_get (be_put 8 (x :: 64 word)) = x" "be_get (be_put 4 (y :: 32 word)) = y"
  using take_bit_word_eq_self [of 64 x] take_bit_word_eq_self [of 32 y] by (simp_all add: be_get_put)

end
