(* ===== verification/Transaction.thy ===== *)
theory Transaction
  imports Crypto Wire
begin

text \<open>
  \<^verbatim>\<open>src/payload.rs\<close>, \<^verbatim>\<open>src/tx.rs\<close> and \<^verbatim>\<open>src/signature.rs\<close>: the payloads of a transaction, transactions, and
  signing. The messages are those of \<^verbatim>\<open>protos/transaction.proto\<close>; the protobuf encoders that the build
  generates from it are the parameter \<open>tx_codec\<close>. Random attributes are arguments.

  The trait \<^verbatim>\<open>SignableData\<close> is the locale \<open>signable\<close>, which \<open>Transaction\<close> implements.
\<close>

section \<open>Payloads\<close>

datatype payload_type =
    CoinbaseType | TransferAssetType | SigChainTxnType | RegisterNameType | TransferNameType
  | DeleteNameType | SubscribeType | UnsubscribeType | GenerateIdType | NanoPayType
  | IssueAssetType | GenerateId2Type

primrec payload_type_code :: "payload_type \<Rightarrow> i32" where
  "payload_type_code CoinbaseType = 0"
| "payload_type_code TransferAssetType = 1"
| "payload_type_code SigChainTxnType = 2"
| "payload_type_code RegisterNameType = 3"
| "payload_type_code TransferNameType = 4"
| "payload_type_code DeleteNameType = 5"
| "payload_type_code SubscribeType = 6"
| "payload_type_code UnsubscribeType = 7"
| "payload_type_code GenerateIdType = 8"
| "payload_type_code NanoPayType = 9"
| "payload_type_code IssueAssetType = 10"
| "payload_type_code GenerateId2Type = 11"

text \<open>\<^verbatim>\<open>PayloadType::from_i32\<close>, generated from the enumeration.\<close>

definition payload_type_from_i32 :: "i32 \<Rightarrow> payload_type option" where
  "payload_type_from_i32 i =
     List.find (\<lambda>t. payload_type_code t = i)
       [CoinbaseType, TransferAssetType, SigChainTxnType, RegisterNameType, TransferNameType,
        DeleteNameType, SubscribeType, UnsubscribeType, GenerateIdType, NanoPayType, IssueAssetType,
        GenerateId2Type]"

text \<open>The messages that a payload carries, one constructor for each type.\<close>

record nano_pay =
  np_sender :: bytes
  np_recipient :: bytes
  np_id :: u64
  np_amount :: i64
  np_txn_expiration :: u32
  np_nano_pay_expiration :: u32

datatype payload_msg =
    Coinbase bytes bytes i64                           \<comment> \<open>sender, recipient, amount\<close>
  | TransferAsset bytes bytes i64                      \<comment> \<open>sender, recipient, amount\<close>
  | SigChainTxn bytes bytes                            \<comment> \<open>signature chain, submitter\<close>
  | GenerateId bytes bytes i64 i32                     \<comment> \<open>public key, sender, registration fee, version\<close>
  | NanoPayMsg nano_pay
  | Subscribe bytes string string u32 u32 bytes        \<comment> \<open>subscriber, identifier, topic, bucket, duration, meta\<close>
  | Unsubscribe bytes string string                    \<comment> \<open>subscriber, identifier, topic\<close>
  | IssueAsset bytes string string u32 i64             \<comment> \<open>sender, name, symbol, precision, total supply\<close>
  | RegisterName bytes string i64                      \<comment> \<open>registrant, name, registration fee\<close>
  | TransferName bytes bytes string                    \<comment> \<open>registrant, recipient, name\<close>
  | DeleteName bytes string                            \<comment> \<open>registrant, name\<close>

record payload =
  pl_type :: i32
  pl_data :: bytes

record unsigned_tx =
  utx_payload :: "payload option"
  utx_nonce :: u64
  utx_fee :: i64
  utx_attributes :: bytes

record pb_transaction =
  unsigned_tx_of :: "unsigned_tx option"
  programs_of :: "program list"

record tx_codec =
  encode_msg :: "payload_msg \<Rightarrow> bytes"
  decode_nano_pay :: "bytes \<Rightarrow> nano_pay option"
  encode_pb_tx :: "pb_transaction \<Rightarrow> bytes"
  decode_pb_tx :: "bytes \<Rightarrow> pb_transaction option"

text \<open>Decoding gives back what was encoded.\<close>

definition tx_codec_laws :: "tx_codec \<Rightarrow> bool" where
  "tx_codec_laws tc \<longleftrightarrow>
     (\<forall>t. decode_pb_tx tc (encode_pb_tx tc t) = Some t) \<and>
     (\<forall>n. decode_nano_pay tc (encode_msg tc (NanoPayMsg n)) = Some n)"

definition pack_payload :: "tx_codec \<Rightarrow> payload_type \<Rightarrow> payload_msg \<Rightarrow> payload" where
  "pack_payload tc t m = \<lparr>pl_type = payload_type_code t, pl_data = encode_msg tc m\<rparr>"

definition unpack_payload :: "payload \<Rightarrow> bytes" where
  "unpack_payload pl = pl_data pl"

definition new_coinbase :: "bytes \<Rightarrow> bytes \<Rightarrow> i64 \<Rightarrow> payload_msg" where
  "new_coinbase sender recipient amount = Coinbase sender recipient amount"

definition new_transfer_asset :: "bytes \<Rightarrow> bytes \<Rightarrow> i64 \<Rightarrow> payload_msg" where
  "new_transfer_asset sender recipient amount = TransferAsset sender recipient amount"

definition new_sigchain :: "bytes \<Rightarrow> bytes \<Rightarrow> payload_msg" where
  "new_sigchain sig_chain submitter = SigChainTxn sig_chain submitter"

definition new_generate_id :: "bytes \<Rightarrow> bytes \<Rightarrow> i64 \<Rightarrow> i32 \<Rightarrow> payload_msg" where
  "new_generate_id pubkey sender registration_fee version =
     GenerateId pubkey sender registration_fee version"

definition new_nanopay :: "bytes \<Rightarrow> bytes \<Rightarrow> u64 \<Rightarrow> i64 \<Rightarrow> u32 \<Rightarrow> u32 \<Rightarrow> payload_msg" where
  "new_nanopay sender recipient i amount txn_expiration nano_pay_expiration =
     NanoPayMsg \<lparr>np_sender = sender, np_recipient = recipient, np_id = i, np_amount = amount,
       np_txn_expiration = txn_expiration, np_nano_pay_expiration = nano_pay_expiration\<rparr>"

definition new_subscribe :: "bytes \<Rightarrow> string \<Rightarrow> string \<Rightarrow> u32 \<Rightarrow> bytes \<Rightarrow> payload_msg" where
  "new_subscribe subscriber identifier topic duration meta =
     Subscribe subscriber identifier topic 0 duration meta"

definition new_unsubscribe :: "bytes \<Rightarrow> string \<Rightarrow> string \<Rightarrow> payload_msg" where
  "new_unsubscribe subscriber identifier topic = Unsubscribe subscriber identifier topic"

definition new_issue_asset :: "bytes \<Rightarrow> string \<Rightarrow> string \<Rightarrow> u32 \<Rightarrow> i64 \<Rightarrow> payload_msg" where
  "new_issue_asset sender name symbol precision total_supply =
     IssueAsset sender name symbol precision total_supply"

definition new_register_name :: "bytes \<Rightarrow> string \<Rightarrow> i64 \<Rightarrow> payload_msg" where
  "new_register_name registrant name registration_fee = RegisterName registrant name registration_fee"

definition new_transfer_name :: "bytes \<Rightarrow> bytes \<Rightarrow> string \<Rightarrow> payload_msg" where
  "new_transfer_name registrant recipient name = TransferName registrant recipient name"

definition new_delete_name :: "bytes \<Rightarrow> string \<Rightarrow> payload_msg" where
  "new_delete_name registrant name = DeleteName registrant name"

section \<open>Transactions\<close>

record transaction =
  pb_tx :: pb_transaction
  tx_hash :: bytes
  tx_size :: u32
  is_signature_verified :: bool

definition transaction_new :: "pb_transaction \<Rightarrow> bytes \<Rightarrow> u32 \<Rightarrow> bool \<Rightarrow> transaction" where
  "transaction_new pb h n verified =
     \<lparr>pb_tx = pb, tx_hash = h, tx_size = n, is_signature_verified = verified\<rparr>"

text \<open>\<^verbatim>\<open>Transaction { pb_tx, ..Default::default() }\<close>.\<close>

definition tx_of :: "pb_transaction \<Rightarrow> transaction" where
  "tx_of pb = \<lparr>pb_tx = pb, tx_hash = replicate UINT256SIZE 0, tx_size = 0, is_signature_verified = False\<rparr>"

definition tx_encode :: "tx_codec \<Rightarrow> transaction \<Rightarrow> bytes" where
  "tx_encode tc tx = encode_pb_tx tc (pb_tx tx)"

definition tx_decode :: "tx_codec \<Rightarrow> bytes \<Rightarrow> (transaction, string) outcome" where
  "tx_decode tc buf = and_then (unwrap (decode_pb_tx tc buf)) (\<lambda>pb. Ok (tx_of pb))"

definition new_msg_tx :: "payload \<Rightarrow> u64 \<Rightarrow> i64 \<Rightarrow> bytes \<Rightarrow> pb_transaction" where
  "new_msg_tx pl nonce fee attrs =
     \<lparr>unsigned_tx_of = Some \<lparr>utx_payload = Some pl, utx_nonce = nonce, utx_fee = fee, utx_attributes = attrs\<rparr>,
      programs_of = []\<rparr>"

definition tx_new_nanopay ::
    "tx_codec \<Rightarrow> bytes \<Rightarrow> bytes \<Rightarrow> bytes \<Rightarrow> u64 \<Rightarrow> i64 \<Rightarrow> u32 \<Rightarrow> u32 \<Rightarrow> transaction" where
  "tx_new_nanopay tc attrs sender recipient i amount txn_expiration nano_pay_expiration =
     tx_of (new_msg_tx (pack_payload tc NanoPayType
       (new_nanopay sender recipient i amount txn_expiration nano_pay_expiration)) 0 0 attrs)"

definition tx_new_transfer_asset ::
    "tx_codec \<Rightarrow> bytes \<Rightarrow> bytes \<Rightarrow> i64 \<Rightarrow> u64 \<Rightarrow> i64 \<Rightarrow> bytes \<Rightarrow> transaction" where
  "tx_new_transfer_asset tc sender recipient amount nonce fee attrs =
     tx_of (new_msg_tx (pack_payload tc TransferAssetType
       (new_transfer_asset sender recipient amount)) nonce fee attrs)"

definition tx_new_sigchain :: "tx_codec \<Rightarrow> bytes \<Rightarrow> bytes \<Rightarrow> bytes \<Rightarrow> u64 \<Rightarrow> transaction" where
  "tx_new_sigchain tc attrs sig_chain submitter nonce =
     tx_of (new_msg_tx (pack_payload tc SigChainTxnType (new_sigchain sig_chain submitter)) nonce 0 attrs)"

definition tx_new_generate_id ::
    "tx_codec \<Rightarrow> bytes \<Rightarrow> bytes \<Rightarrow> i64 \<Rightarrow> i32 \<Rightarrow> u64 \<Rightarrow> i64 \<Rightarrow> bytes \<Rightarrow> transaction" where
  "tx_new_generate_id tc pubkey sender registration_fee version nonce fee attrs =
     tx_of (new_msg_tx (pack_payload tc GenerateIdType
       (new_generate_id pubkey sender registration_fee version)) nonce fee attrs)"

definition tx_new_subscribe ::
    "tx_codec \<Rightarrow> bytes \<Rightarrow> bytes \<Rightarrow> string \<Rightarrow> string \<Rightarrow> u32 \<Rightarrow> bytes \<Rightarrow> u64 \<Rightarrow> i64 \<Rightarrow> transaction" where
  "tx_new_subscribe tc attrs subscriber identifier topic duration meta nonce fee =
     tx_of (new_msg_tx (pack_payload tc SubscribeType
       (new_subscribe subscriber identifier topic duration meta)) nonce fee attrs)"

definition tx_new_unsubscribe ::
    "tx_codec \<Rightarrow> bytes \<Rightarrow> bytes \<Rightarrow> string \<Rightarrow> string \<Rightarrow> u64 \<Rightarrow> i64 \<Rightarrow> transaction" where
  "tx_new_unsubscribe tc attrs subscriber identifier topic nonce fee =
     tx_of (new_msg_tx (pack_payload tc UnsubscribeType
       (new_unsubscribe subscriber identifier topic)) nonce fee attrs)"

text \<open>\<open>verify\<close>, \<open>program_hashes\<close> and \<open>programs\<close> are \<^verbatim>\<open>todo!()\<close> in the code.\<close>

definition tx_verify :: "transaction \<Rightarrow> u32 \<Rightarrow> (bool, string) outcome" where
  "tx_verify tx height = Panic"

definition tx_program_hashes :: "transaction \<Rightarrow> (bytes list, string) outcome" where
  "tx_program_hashes tx = Panic"

definition tx_programs :: "transaction \<Rightarrow> (program list, string) outcome" where
  "tx_programs tx = Panic"

definition tx_set_programs :: "transaction \<Rightarrow> program list \<Rightarrow> transaction" where
  "tx_set_programs tx ps = tx\<lparr>pb_tx := (pb_tx tx)\<lparr>programs_of := ps\<rparr>\<rparr>"

text \<open>\<^verbatim>\<open>to_le_bytes\<close> of a 64-bit integer.\<close>

definition le_bytes :: "u64 \<Rightarrow> bytes" where
  "le_bytes x = map (\<lambda>i. ucast (drop_bit (8 * i) x)) [0..<8]"

definition tx_serialize_unsigned :: "tx_codec \<Rightarrow> transaction \<Rightarrow> (bytes, string) outcome" where
  "tx_serialize_unsigned tc tx =
     (let buf = tx_encode tc tx in
      and_then (unwrap (unsigned_tx_of (pb_tx tx))) (\<lambda>utx.
        Ok (buf @ le_bytes (utx_nonce utx) @ le_bytes (utx_fee utx) @
            [of_nat (length (utx_attributes utx))] @ utx_attributes utx)))"

section \<open>Signing\<close>

text \<open>The generic functions of \<^verbatim>\<open>signature.rs\<close>: \<open>ser\<close> is the \<^verbatim>\<open>serialize_unsigned\<close> of the data's type.\<close>

definition get_hash_data :: "('d \<Rightarrow> (bytes, string) outcome) \<Rightarrow> 'd \<Rightarrow> (bytes, string) outcome" where
  "get_hash_data ser d = ser d"

definition get_hash_for_signing ::
    "crates \<Rightarrow> ('d \<Rightarrow> (bytes, string) outcome) \<Rightarrow> 'd \<Rightarrow> (bytes, string) outcome" where
  "get_hash_for_signing cr ser d = and_then (get_hash_data ser d) (\<lambda>bs. Ok (sha256_hash cr bs))"

definition sign_data ::
    "crates \<Rightarrow> ('d \<Rightarrow> (bytes, string) outcome) \<Rightarrow> 'd \<Rightarrow> bytes \<Rightarrow> (bytes, string) outcome" where
  "sign_data cr ser d key = and_then (get_hash_for_signing cr ser d) (\<lambda>h. ed25519_sign cr h key)"

definition verify_signable_data :: "'d \<Rightarrow> (bool, string) outcome" where
  "verify_signable_data d = Panic"

definition verify_signature ::
    "crates \<Rightarrow> ('d \<Rightarrow> (bytes, string) outcome) \<Rightarrow> 'd \<Rightarrow> bytes \<Rightarrow> bytes \<Rightarrow> (bool, string) outcome" where
  "verify_signature cr ser d pubkey signature =
     and_then (get_hash_for_signing cr ser d) (\<lambda>h. ed25519_verify cr h pubkey signature)"

text \<open>
  What signing relies on of the type it signs: the data to be signed exists for the values with
  contents, and attaching programs neither adds nor removes contents.
\<close>

locale signable =
  fixes ser :: "'d \<Rightarrow> (bytes, string) outcome"
    and set_programs :: "'d \<Rightarrow> program list \<Rightarrow> 'd"
    and has_contents :: "'d \<Rightarrow> bool"
  assumes ser_total: "has_contents d \<Longrightarrow> \<exists>bs. ser d = Ok bs"
    and ser_partial: "\<not> has_contents d \<Longrightarrow> ser d = Panic"
    and contents_kept: "has_contents (set_programs d ps) = has_contents d"
begin

lemma sign_verifies:
  assumes "ed25519_laws cr" and "length sk = 32" and "secret_to_public cr sk = Some pk" and "has_contents d"
  shows "\<exists>sig. sign_data cr ser d (sk @ pk) = Ok sig \<and> length sig = 64 \<and>
    verify_signature cr ser d pk sig = Ok True"
proof -
  obtain bs where bs: "ser d = Ok bs" using ser_total [OF assms(4)] by blast
  obtain sig where "keypair_sign cr (sk @ pk) (sha256 cr bs) = Some sig" "length sig = 64"
      "key_verify cr pk (sha256 cr bs) sig = Some True"
    using assms(1-3) unfolding ed25519_laws_def by (metis option.inject)
  then show ?thesis
    using bs by (simp add: sign_data_def verify_signature_def get_hash_for_signing_def get_hash_data_def
        ed25519_sign_def ed25519_verify_def sha256_hash_def)
qed

lemma sign_panics: "\<not> has_contents d \<Longrightarrow> sign_data cr ser (set_programs d ps) key = Panic"
  using ser_partial [of "set_programs d ps"] contents_kept
  by (simp add: sign_data_def get_hash_for_signing_def get_hash_data_def)

end

definition tx_has_contents :: "transaction \<Rightarrow> bool" where
  "tx_has_contents tx \<longleftrightarrow> unsigned_tx_of (pb_tx tx) \<noteq> None"

interpretation tx_signable: signable "tx_serialize_unsigned tc" tx_set_programs tx_has_contents
  by unfold_locales (auto simp: tx_serialize_unsigned_def tx_has_contents_def tx_set_programs_def Let_def)

section \<open>Lemmas\<close>

lemma payload_type_roundtrip: "payload_type_from_i32 (payload_type_code t) = Some t"
  by (cases t) (simp_all add: payload_type_from_i32_def)

lemma encode_pb_tx_inj:
  "tx_codec_laws tc \<Longrightarrow> encode_pb_tx tc t = encode_pb_tx tc u \<longleftrightarrow> t = u"
  unfolding tx_codec_laws_def by (metis option.inject)

lemma tx_set_programs_simps [simp]:
  "unsigned_tx_of (pb_tx (tx_set_programs tx ps)) = unsigned_tx_of (pb_tx tx)"
  "programs_of (pb_tx (tx_set_programs tx ps)) = ps"
  by (simp_all add: tx_set_programs_def)

text \<open>
  The bytes to be signed contain the programs: changing the programs changes them.
\<close>

lemma serialize_unsigned_programs:
  assumes "tx_codec_laws tc" and "tx_has_contents tx"
  shows "tx_serialize_unsigned tc (tx_set_programs tx ps) = tx_serialize_unsigned tc (tx_set_programs tx qs) \<longleftrightarrow>
    ps = qs"
proof -
  obtain utx where "unsigned_tx_of (pb_tx tx) = Some utx" using assms(2) by (auto simp: tx_has_contents_def)
  then show ?thesis
    using encode_pb_tx_inj [OF assms(1), of "pb_tx (tx_set_programs tx ps)" "pb_tx (tx_set_programs tx qs)"]
    by (auto simp: tx_serialize_unsigned_def tx_encode_def tx_set_programs_def
        dest: arg_cong [of _ _ programs_of])
qed

section \<open>Properties\<close>

text \<open>A codec for the witnesses, in the format of \<open>Wire\<close>.\<close>

definition enc_nano_pay :: "nano_pay \<Rightarrow> bytes" where
  "enc_nano_pay n = enc_fields [np_sender n, np_recipient n, be_put 8 (np_id n), be_put 8 (np_amount n),
     be_put 4 (np_txn_expiration n), be_put 4 (np_nano_pay_expiration n)]"

definition dec_nano_pay :: "bytes \<Rightarrow> nano_pay option" where
  "dec_nano_pay bs = (case dec_fields bs of
       Some [s, r, i, a, e1, e2] \<Rightarrow> Some \<lparr>np_sender = s, np_recipient = r, np_id = be_get i,
         np_amount = be_get a, np_txn_expiration = be_get e1, np_nano_pay_expiration = be_get e2\<rparr>
     | _ \<Rightarrow> None)"

definition enc_payload :: "payload \<Rightarrow> bytes" where
  "enc_payload pl = enc_fields [be_put 4 (pl_type pl), pl_data pl]"

definition dec_payload :: "bytes \<Rightarrow> payload option" where
  "dec_payload bs = (case dec_fields bs of
       Some [t, d] \<Rightarrow> Some \<lparr>pl_type = be_get t, pl_data = d\<rparr> | _ \<Rightarrow> None)"

definition enc_utx :: "unsigned_tx \<Rightarrow> bytes" where
  "enc_utx u = enc_fields [enc_opt enc_payload (utx_payload u), be_put 8 (utx_nonce u),
     be_put 8 (utx_fee u), utx_attributes u]"

definition dec_utx :: "bytes \<Rightarrow> unsigned_tx option" where
  "dec_utx bs = (case dec_fields bs of
       Some [p, n, f, a] \<Rightarrow> map_option (\<lambda>pl. \<lparr>utx_payload = pl, utx_nonce = be_get n,
         utx_fee = be_get f, utx_attributes = a\<rparr>) (dec_opt dec_payload p)
     | _ \<Rightarrow> None)"

definition enc_program :: "program \<Rightarrow> bytes" where
  "enc_program p = enc_fields [prog_code p, parameter p]"

definition dec_program :: "bytes \<Rightarrow> program option" where
  "dec_program bs = (case dec_fields bs of
       Some [c, q] \<Rightarrow> Some \<lparr>prog_code = c, parameter = q\<rparr> | _ \<Rightarrow> None)"

definition enc_tx :: "pb_transaction \<Rightarrow> bytes" where
  "enc_tx t = enc_fields (enc_opt enc_utx (unsigned_tx_of t) # map enc_program (programs_of t))"

definition dec_tx :: "bytes \<Rightarrow> pb_transaction option" where
  "dec_tx bs = (case dec_fields bs of
       Some (u # ps) \<Rightarrow>
         (case (dec_opt dec_utx u, dec_all dec_program ps) of
            (Some utx, Some progs) \<Rightarrow> Some \<lparr>unsigned_tx_of = utx, programs_of = progs\<rparr> | _ \<Rightarrow> None)
     | _ \<Rightarrow> None)"

definition demo_tx_codec :: tx_codec where
  "demo_tx_codec = \<lparr>encode_msg = (\<lambda>m. case m of NanoPayMsg n \<Rightarrow> enc_nano_pay n | _ \<Rightarrow> []),
     decode_nano_pay = dec_nano_pay, encode_pb_tx = enc_tx, decode_pb_tx = dec_tx\<rparr>"

lemma dec_enc_payload: "dec_payload (enc_payload pl) = Some pl"
  by (simp add: enc_payload_def dec_payload_def)

lemma dec_enc_utx: "dec_utx (enc_utx u) = Some u"
  using dec_enc_opt [of "utx_payload u" dec_payload enc_payload] dec_enc_payload
  by (simp add: enc_utx_def dec_utx_def)

lemma dec_enc_program: "dec_program (enc_program p) = Some p"
  by (simp add: enc_program_def dec_program_def)

lemma demo_tx_codec_laws: "tx_codec_laws demo_tx_codec"
proof -
  have "dec_tx (enc_tx t) = Some t" for t
    using dec_enc_opt [of "unsigned_tx_of t" dec_utx enc_utx] dec_enc_utx
      dec_all_map [of dec_program enc_program "programs_of t"] dec_enc_program
    by (simp add: enc_tx_def dec_tx_def)
  moreover have "dec_nano_pay (enc_nano_pay n) = Some n" for n
    by (simp add: enc_nano_pay_def dec_nano_pay_def)
  ultimately show ?thesis by (simp add: tx_codec_laws_def demo_tx_codec_def)
qed



text \<open>C34: the bytes that a transaction's signature covers include its programs. A signature made
  with the account's key verifies for the data that was signed, but attaching it as a program, as
  the wallet does, changes the bytes that a later verification hashes.\<close>

theorem signing_changes_signed_bytes:
  assumes "tx_codec_laws tc" and "ed25519_laws cr" and "wf_account cr acc" and "tx_has_contents tx"
    and "programs_of (pb_tx tx) = []"
  shows "\<exists>sig. sign_data cr (tx_serialize_unsigned tc) tx (private_key acc @ public_key acc) = Ok sig \<and>
    verify_signature cr (tx_serialize_unsigned tc) tx (public_key acc) sig = Ok True \<and>
    tx_serialize_unsigned tc (tx_set_programs tx
      [new_program (create_signature_program_context cr (public_key acc)) sig]) \<noteq> tx_serialize_unsigned tc tx"
proof -
  obtain sig where sig: "sign_data cr (tx_serialize_unsigned tc) tx (private_key acc @ public_key acc) = Ok sig"
      "verify_signature cr (tx_serialize_unsigned tc) tx (public_key acc) sig = Ok True"
    using tx_signable.sign_verifies [OF assms(2) _ _ assms(4), of "private_key acc" "public_key acc"] assms(3)
    by (auto simp: wf_account_def)
  have "tx_set_programs tx [] = tx" using assms(5) by (simp add: tx_set_programs_def)
  then show ?thesis
    using sig serialize_unsigned_programs [OF assms(1,4), of _ "[]"] by auto
qed

theorem signing_changes_signed_bytes_witness:
  "\<exists>acc sig. wf_account demo acc \<and>
     sign_data demo (tx_serialize_unsigned demo_tx_codec) (tx_new_nanopay demo_tx_codec [9] [1] [3] 7 100 20 30)
       (private_key acc @ public_key acc) = Ok sig \<and>
     tx_serialize_unsigned demo_tx_codec (tx_set_programs (tx_new_nanopay demo_tx_codec [9] [1] [3] 7 100 20 30)
         [new_program (create_signature_program_context demo (public_key acc)) sig]) \<noteq>
       tx_serialize_unsigned demo_tx_codec (tx_new_nanopay demo_tx_codec [9] [1] [3] 7 100 20 30)"
proof -
  obtain acc where acc: "wf_account demo acc"
    using from_seed_wf [OF demo_laws(3), of "replicate 32 5"] by auto
  let ?tx = "tx_new_nanopay demo_tx_codec [9] [1] [3] 7 100 20 30"
  have "tx_has_contents ?tx" "programs_of (pb_tx ?tx) = []"
    by (simp_all add: tx_has_contents_def tx_new_nanopay_def tx_of_def new_msg_tx_def)
  from signing_changes_signed_bytes [OF demo_tx_codec_laws demo_laws(3) acc this] acc show ?thesis by blast
qed

end
