(* ===== verification/Wallet.thy ===== *)
theory Wallet
  imports Transaction
begin

text \<open>
  \<^verbatim>\<open>src/wallet.rs\<close>: a wallet's configuration, its encrypted form, and signing. The random bytes that
  \<^verbatim>\<open>Default\<close> draws are arguments. The JSON text is read and written by \<^verbatim>\<open>serde_json\<close>, the parameter
  \<open>json_codec\<close>; what the derived (de)serialisers hand to it is the record \<open>wallet_json\<close>, in which the
  cost of scrypt is a JSON number, written and read by \<open>log2_serialize\<close> and \<open>log2_deserialize\<close>.
\<close>

section \<open>The cost parameter in JSON\<close>

text \<open>
  \<^verbatim>\<open>1 << x\<close> is an \<^verbatim>\<open>i32\<close>; shifting by its width or more panics in a debug build and is taken modulo
  the width in a release build.
\<close>

definition log2_serialize :: "profile \<Rightarrow> u8 \<Rightarrow> (int, string) outcome" where
  "log2_serialize p x =
     and_then (overflow p (32 \<le> x) (push_bit (unat x mod 32) (1 :: i32))) (\<lambda>y. Ok (sint y))"

definition trailing_zeros :: "u32 \<Rightarrow> nat" where
  "trailing_zeros w = length (takeWhile (\<lambda>i. \<not> bit w i) [0..<32])"

definition log2_deserialize :: "int \<Rightarrow> (u8, string) outcome" where
  "log2_deserialize n =
     (if 0 \<le> n \<and> n < 2 ^ 32 then Ok (of_nat (trailing_zeros (word_of_int n)))
      else Err ''invalid value'')"

definition default_scrypt_config :: "crates \<Rightarrow> bytes \<Rightarrow> scrypt_config" where
  "default_scrypt_config cr random_salt =
     \<lparr>log_n = SCRYPT_LOG_N, r_cost = SCRYPT_R, p_cost = SCRYPT_P, salt = hex_encode cr random_salt\<rparr>"

section \<open>Configuration and data\<close>

record wallet_config =
  seed_rpc_server :: "string list"
  wc_rpc_timeout :: u64
  rcp_concurrency :: u32
  wc_password :: string
  wc_iv :: bytes
  wc_master_key :: bytes
  wc_scrypt :: scrypt_config

definition default_wallet_config :: "crates \<Rightarrow> bytes \<Rightarrow> bytes \<Rightarrow> bytes \<Rightarrow> wallet_config" where
  "default_wallet_config cr random_iv random_key random_salt =
     \<lparr>seed_rpc_server = DEFAULT_RPC_SERVER, wc_rpc_timeout = DEFAULT_RPC_TIMEOUT,
      rcp_concurrency = DEFAULT_RPC_CONCURRENCY, wc_password = ''123456'', wc_iv = random_iv,
      wc_master_key = random_key, wc_scrypt = default_scrypt_config cr random_salt\<rparr>"

record wallet_data =
  wd_version :: u32
  wd_iv :: string
  wd_master_key :: string
  wd_seed_encrypted :: string
  wd_address :: string
  wd_scrypt :: scrypt_config

definition wallet_data_new :: "crates \<Rightarrow> account \<Rightarrow> wallet_config \<Rightarrow> (wallet_data, string) outcome" where
  "wallet_data_new cr acc config =
     and_then (password_to_aes_key_scrypt cr (wc_password config) (wc_scrypt config)) (\<lambda>password_key.
     and_then (aes_encrypt cr (wc_master_key config) password_key (wc_iv config)) (\<lambda>master_key_cipher.
     and_then (aes_encrypt cr (private_key acc) (wc_master_key config) (wc_iv config)) (\<lambda>seed_cipher.
       Ok \<lparr>wd_version = WALLET_VERSION, wd_iv = hex_encode cr (wc_iv config),
           wd_master_key = hex_encode cr master_key_cipher,
           wd_seed_encrypted = hex_encode cr seed_cipher,
           wd_address = account_address cr acc, wd_scrypt = wc_scrypt config\<rparr>)))"

definition decrypt_master_key :: "crates \<Rightarrow> wallet_data \<Rightarrow> string \<Rightarrow> (bytes, string) outcome" where
  "decrypt_master_key cr wd password =
     and_then (scrypt_kdf cr password (wd_scrypt wd)) (\<lambda>password_key.
     and_then (unwrap (hex_decode cr (wd_iv wd))) (\<lambda>iv.
     and_then (unwrap (hex_decode cr (wd_master_key wd))) (\<lambda>master_key_cipher.
       aes_decrypt cr master_key_cipher password_key iv)))"

definition decrypt_account :: "crates \<Rightarrow> wallet_data \<Rightarrow> string \<Rightarrow> (account, string) outcome" where
  "decrypt_account cr wd password =
     and_then (decrypt_master_key cr wd password) (\<lambda>master_key.
     and_then (unwrap (hex_decode cr (wd_iv wd))) (\<lambda>iv.
     and_then (unwrap (hex_decode cr (wd_seed_encrypted wd))) (\<lambda>seed_cipher.
     and_then (aes_decrypt cr seed_cipher master_key iv) (\<lambda>seed.
       if length seed \<noteq> SEED_LEN then Panic else from_seed cr seed))))"

section \<open>Wallets\<close>

record wallet =
  w_config :: wallet_config
  w_account :: account
  w_data :: wallet_data

definition wallet_new :: "crates \<Rightarrow> account \<Rightarrow> wallet_config \<Rightarrow> (wallet, string) outcome" where
  "wallet_new cr acc config =
     and_then (wallet_data_new cr acc config) (\<lambda>wd.
       Ok \<lparr>w_config = config, w_account = acc, w_data = wd\<rparr>)"

record wallet_json =
  j_version :: u32
  j_iv :: string
  j_master_key :: string
  j_seed_encrypted :: string
  j_address :: string
  j_n :: int
  j_r :: u32
  j_p :: u32
  j_salt :: string

record json_codec =
  json_print :: "wallet_json \<Rightarrow> string"
  json_parse :: "string \<Rightarrow> wallet_json option"

definition json_laws :: "json_codec \<Rightarrow> bool" where
  "json_laws jc \<longleftrightarrow> (\<forall>j. json_parse jc (json_print jc j) = Some j)"

text \<open>The derived \<^verbatim>\<open>Serialize\<close> and \<^verbatim>\<open>Deserialize\<close> of \<^verbatim>\<open>WalletData\<close> and \<^verbatim>\<open>ScryptConfig\<close>.\<close>

definition serialize_wallet_data :: "profile \<Rightarrow> wallet_data \<Rightarrow> (wallet_json, string) outcome" where
  "serialize_wallet_data p wd =
     and_then (log2_serialize p (log_n (wd_scrypt wd))) (\<lambda>n.
       Ok \<lparr>j_version = wd_version wd, j_iv = wd_iv wd, j_master_key = wd_master_key wd,
           j_seed_encrypted = wd_seed_encrypted wd, j_address = wd_address wd, j_n = n,
           j_r = r_cost (wd_scrypt wd), j_p = p_cost (wd_scrypt wd), j_salt = salt (wd_scrypt wd)\<rparr>)"

definition deserialize_wallet_data :: "wallet_json \<Rightarrow> (wallet_data, string) outcome" where
  "deserialize_wallet_data j =
     and_then (log2_deserialize (j_n j)) (\<lambda>n.
       Ok \<lparr>wd_version = j_version j, wd_iv = j_iv j, wd_master_key = j_master_key j,
           wd_seed_encrypted = j_seed_encrypted j, wd_address = j_address j,
           wd_scrypt = \<lparr>log_n = n, r_cost = j_r j, p_cost = j_p j, salt = j_salt j\<rparr>\<rparr>)"

definition to_json :: "profile \<Rightarrow> json_codec \<Rightarrow> wallet \<Rightarrow> (string, string) outcome" where
  "to_json p jc w =
     and_then (unwrap_result (serialize_wallet_data p (w_data w))) (\<lambda>j. Ok (json_print jc j))"

definition from_json ::
    "crates \<Rightarrow> json_codec \<Rightarrow> string \<Rightarrow> wallet_config \<Rightarrow> (wallet, string) outcome" where
  "from_json cr jc json config =
     and_then (case json_parse jc json of
         None \<Rightarrow> Err ''Invalid JSON''
       | Some j \<Rightarrow> (case deserialize_wallet_data j of
             Ok wd \<Rightarrow> Ok wd | Err _ \<Rightarrow> Err ''Invalid JSON'' | Panic \<Rightarrow> Panic)) (\<lambda>wd.
     and_then (decrypt_master_key cr wd (wc_password config)) (\<lambda>master_key.
     and_then (decrypt_account cr wd (wc_password config)) (\<lambda>acc.
       if account_address cr acc \<noteq> wd_address wd then Err ''Wrong password''
       else Ok \<lparr>w_config = config\<lparr>wc_master_key := master_key\<rparr>, w_account = acc, w_data = wd\<rparr>)))"

definition set_config :: "wallet \<Rightarrow> wallet_config \<Rightarrow> wallet" where
  "set_config w config = w\<lparr>w_config := config\<rparr>"

definition wallet_sign :: "crates \<Rightarrow> wallet \<Rightarrow> bytes \<Rightarrow> (bytes, string) outcome" where
  "wallet_sign cr w message =
     ed25519_sign cr message (private_key (w_account w) @ public_key (w_account w))"

definition sign_transaction :: "crates \<Rightarrow> tx_codec \<Rightarrow> wallet \<Rightarrow> transaction \<Rightarrow> (transaction, string) outcome" where
  "sign_transaction cr tc w tx =
     (let ct = create_signature_program_context cr (public_key (w_account w)) in
      and_then (tx_serialize_unsigned tc tx) (\<lambda>bs.
      and_then (wallet_sign cr w (sha256_hash cr bs)) (\<lambda>signature.
        Ok (tx_set_programs tx [new_program ct signature]))))"

section \<open>Lemmas\<close>

lemma trailing_zeros_power:
  assumes "k < 32"
  shows "trailing_zeros (push_bit k 1) = k"
proof -
  have "takeWhile (\<lambda>i. \<not> bit (push_bit k 1 :: u32) i) ([0..<k] @ k # [Suc k..<32]) = [0..<k]"
    using assms by (subst takeWhile_append2) (auto simp: bit_exp_iff)
  moreover have "[0..<32] = [0..<k] @ k # [Suc k..<32]"
    using assms upt_add_eq_append [of 0 k "32 - k"] by (simp add: upt_conv_Cons)
  ultimately show ?thesis by (simp add: trailing_zeros_def)
qed

lemma sint_power_i32: "k < 31 \<Longrightarrow> sint (push_bit k 1 :: i32) = 2 ^ k"
proof -
  have "\<forall>k \<in> set [0..<31]. sint (push_bit k 1 :: i32) = 2 ^ k" by code_simp
  then show "k < 31 \<Longrightarrow> sint (push_bit k 1 :: i32) = 2 ^ k" by simp
qed

lemma log2_small:
  assumes "x < 31"
  shows "log2_serialize p x = Ok (2 ^ unat x)" and "log2_deserialize (2 ^ unat x) = Ok x"
proof -
  have k: "unat x < 31" using assms by (simp add: word_less_nat_alt)
  have "\<not> 32 \<le> x" using assms by (simp add: not_le word_less_nat_alt)
  then show "log2_serialize p x = Ok (2 ^ unat x)"
    using k sint_power_i32 [OF k] by (simp add: log2_serialize_def)
  have "(2 :: int) ^ unat x < 2 ^ 32" using k by (intro power_strict_increasing) simp_all
  moreover have "trailing_zeros (word_of_int (2 ^ unat x)) = unat x"
    using trailing_zeros_power [of "unat x"] k by simp
  ultimately show "log2_deserialize (2 ^ unat x) = Ok x" by (simp add: log2_deserialize_def)
qed

lemma deserialize_serialize:
  assumes "log_n (wd_scrypt wd) < 31"
  shows "\<exists>j. serialize_wallet_data p wd = Ok j \<and> deserialize_wallet_data j = Ok wd"
  using log2_small [OF assms] by (simp add: serialize_wallet_data_def deserialize_wallet_data_def)

text \<open>The password and the sizes that make a configuration work.\<close>

definition wf_config :: "crates \<Rightarrow> wallet_config \<Rightarrow> bool" where
  "wf_config cr config \<longleftrightarrow> length (wc_iv config) = IV_LEN \<and> length (wc_master_key config) = MASTER_KEY_LEN \<and>
     hex_decode cr (salt (wc_scrypt config)) \<noteq> None \<and> log_n (wc_scrypt config) < 31"

lemma default_config_wf:
  "hex_laws cr \<Longrightarrow> length iv = 16 \<Longrightarrow> length key = 32 \<Longrightarrow> wf_config cr (default_wallet_config cr iv key rs)"
  by (simp add: wf_config_def default_wallet_config_def default_scrypt_config_def hex_laws_D)

lemma cbc_laws_E:
  assumes "cbc_laws cr" and "length key = 32" and "length iv = 16" and "length x = 32"
  obtains c where "cbc_encrypt cr x key iv = Some c" and "cbc_decrypt cr c key iv = Some x"
proof -
  have "length x mod 16 = 0" using assms(4) by simp
  then show thesis using assms that unfolding cbc_laws_def by metis
qed

lemma wallet_data_decrypts:
  assumes laws: "hex_laws cr" "cbc_laws cr" "scrypt_laws cr"
    and acc: "wf_account cr acc" and config: "wf_config cr config"
  shows "\<exists>wd. wallet_data_new cr acc config = Ok wd \<and> wd_scrypt wd = wc_scrypt config \<and>
    wd_address wd = account_address cr acc \<and>
    decrypt_master_key cr wd (wc_password config) = Ok (wc_master_key config) \<and>
    decrypt_account cr wd (wc_password config) = Ok acc"
proof -
  obtain s where s: "hex_decode cr (salt (wc_scrypt config)) = Some s"
    using config by (auto simp: wf_config_def)
  define key where "key = scrypt cr (as_bytes (wc_password config)) s (log_n (wc_scrypt config))
    (r_cost (wc_scrypt config)) (p_cost (wc_scrypt config))"
  have len: "length key = 32" "length (wc_iv config) = 16" "length (wc_master_key config) = 32"
      "length (private_key acc) = 32"
    using laws(3) config acc by (simp_all add: key_def scrypt_laws_def wf_config_def wf_account_def)
  obtain c where c: "cbc_encrypt cr (wc_master_key config) key (wc_iv config) = Some c"
      "cbc_decrypt cr c key (wc_iv config) = Some (wc_master_key config)"
    using cbc_laws_E [OF laws(2) len(1,2,3)] by blast
  obtain d where d: "cbc_encrypt cr (private_key acc) (wc_master_key config) (wc_iv config) = Some d"
      "cbc_decrypt cr d (wc_master_key config) (wc_iv config) = Some (private_key acc)"
    using cbc_laws_E [OF laws(2) len(3,2,4)] by blast
  show ?thesis
    using c d len s wf_account_from_seed [OF acc]
    by (simp add: wallet_data_new_def decrypt_master_key_def decrypt_account_def password_to_aes_key_scrypt_def
        scrypt_kdf_def aes_encrypt_def aes_decrypt_def hex_laws_D [OF laws(1)] key_def)
qed
section \<open>Properties\<close>


text \<open>A JSON codec for the witness, in the format of \<open>Wire\<close>.\<close>

definition demo_json :: json_codec where
  "demo_json = \<lparr>json_print = (\<lambda>j. of_bytes (enc_fields [be_put 4 (j_version j), as_bytes (j_iv j),
       as_bytes (j_master_key j), as_bytes (j_seed_encrypted j), as_bytes (j_address j),
       [if j_n j < 0 then 1 else 0], replicate (nat \<bar>j_n j\<bar>) 0, be_put 4 (j_r j), be_put 4 (j_p j), as_bytes (j_salt j)])),
     json_parse = (\<lambda>s. case dec_fields (as_bytes s) of
         Some [v, iv, mk, se, ad, sg, n, r, p, sa] \<Rightarrow> Some \<lparr>j_version = be_get v, j_iv = of_bytes iv,
           j_master_key = of_bytes mk, j_seed_encrypted = of_bytes se, j_address = of_bytes ad,
           j_n = (if sg = [1] then - int (length n) else int (length n)), j_r = be_get r, j_p = be_get p,
           j_salt = of_bytes sa\<rparr>
       | _ \<Rightarrow> None)\<rparr>"

lemma demo_json_laws: "json_laws demo_json"
  by (simp add: json_laws_def demo_json_def)


text \<open>Reading a wallet succeeds only when the seed that the password decrypts is the seed of the
  stored address; a seed of another address is reported as a wrong password.\<close>

theorem from_json_checks_address:
  "(from_json cr jc json config = Ok w \<longrightarrow>
      account_address cr (w_account w) = wd_address (w_data w) \<and>
      decrypt_account cr (w_data w) (wc_password config) = Ok (w_account w) \<and>
      decrypt_master_key cr (w_data w) (wc_password config) = Ok (wc_master_key (w_config w))) \<and>
   (json_parse jc json = Some j \<and> deserialize_wallet_data j = Ok wd \<and>
      decrypt_account cr wd (wc_password config) = Ok acc \<and> account_address cr acc \<noteq> wd_address wd \<longrightarrow>
      from_json cr jc json config = Err ''Wrong password'')"
  by (auto simp: from_json_def decrypt_account_def outcome_simps split: if_splits)

theorem from_json_checks_address_witness:
  "\<exists>json. from_json demo demo_json json
     (default_wallet_config demo (replicate 16 1) (replicate 32 2) (replicate 8 3)) = Err ''Wrong password''"
proof -
  let ?config = "default_wallet_config demo (replicate 16 1) (replicate 32 2) (replicate 8 3)"
  obtain acc where acc: "wf_account demo acc"
    using from_seed_wf [OF demo_laws(3), of "replicate 32 5"] by auto
  have config: "wf_config demo ?config" by (intro default_config_wf demo_laws(1)) simp_all
  obtain wd where wd: "wd_scrypt wd = wc_scrypt ?config"
      "decrypt_account demo wd (wc_password ?config) = Ok acc"
    using wallet_data_decrypts [OF demo_laws(1,6,7) acc config] by blast
  let ?wd = "wd\<lparr>wd_address := account_address demo acc @ ''x''\<rparr>"
  have dec: "decrypt_account demo ?wd (wc_password ?config) = Ok acc"
    using wd(2) by (simp add: decrypt_account_def decrypt_master_key_def)
  have "log_n (wd_scrypt ?wd) < 31" using wd(1) config by (simp add: wf_config_def)
  then obtain j where j: "deserialize_wallet_data j = Ok ?wd"
    using deserialize_serialize [of ?wd Debug] by blast
  have "json_parse demo_json (json_print demo_json j) = Some j" using demo_json_laws by (simp add: json_laws_def)
  then have "from_json demo demo_json (json_print demo_json j) ?config = Err ''Wrong password''"
    using from_json_checks_address [of demo demo_json "json_print demo_json j" ?config _ j ?wd acc] j dec by simp
  then show ?thesis by blast
qed

text \<open>C33: the cost parameter survives JSON exactly up to 30. At 31 the shifted \<^verbatim>\<open>i32\<close> is negative and the
  text cannot be read back; from 32 on writing panics in a debug build, and a release build writes
  the cost of the value modulo 32.\<close>

theorem log2_roundtrip_bounds:
  "(x < 31 \<longrightarrow> and_then (log2_serialize p x) log2_deserialize = Ok x) \<and>
   (x = 31 \<longrightarrow> (\<exists>e. and_then (log2_serialize p x) log2_deserialize = Err e)) \<and>
   (32 \<le> x \<longrightarrow> log2_serialize Debug x = Panic \<and>
      log2_serialize Release x = log2_serialize Release (of_nat (unat x mod 32)))"
proof (intro conjI impI)
  show "x < 31 \<Longrightarrow> and_then (log2_serialize p x) log2_deserialize = Ok x"
    using log2_small(1) [of x p] log2_small(2) [of x] by simp
  show "x = 31 \<Longrightarrow> \<exists>e. and_then (log2_serialize p x) log2_deserialize = Err e"
    by (simp add: log2_serialize_def log2_deserialize_def)
  show "32 \<le> x \<Longrightarrow> log2_serialize Debug x = Panic"
    by (simp add: log2_serialize_def overflow_def)
  show "log2_serialize Release x = log2_serialize Release (of_nat (unat x mod 32))"
    by (simp add: log2_serialize_def overflow_def unat_of_nat_fits)
qed

theorem log2_roundtrip_bounds_witness:
  "and_then (log2_serialize Debug SCRYPT_LOG_N) log2_deserialize = Ok SCRYPT_LOG_N \<and>
   log2_serialize Debug 40 = Panic"
  using log2_roundtrip_bounds [where x = SCRYPT_LOG_N and p = Debug] log2_roundtrip_bounds [where x = 40] by simp

end
