(* ===== verification/Rpc.thy ===== *)
theory Rpc
  imports Transaction
begin

text \<open>
  \<^verbatim>\<open>src/rpc.rs\<close>: JSON-RPC calls. \<open>http_post\<close> turns what the HTTP client and \<^verbatim>\<open>serde_json\<close> give into a
  result. \<open>rpc_call\<close> spawns tasks that go through the servers, each from another starting point, and
  share one result; the tasks interleave at their \<^verbatim>\<open>await\<close>s, so the call is the step relation
  \<open>rpc_step\<close> on the shared result and the tasks. The lemmas show how the result comes about, that
  every run ends, and that it cannot get stuck.
\<close>

section \<open>Data\<close>

record node =
  n_addr :: string
  n_rpc_addr :: string
  n_pubkey :: string
  n_id :: string

record rpc_config =
  rpc_server_address :: "string list"
  rpc_timeout :: u64
  rpc_concurrency :: u32

definition default_rpc_config :: rpc_config where
  "default_rpc_config = \<lparr>rpc_server_address = [], rpc_timeout = DEFAULT_RPC_TIMEOUT,
     rpc_concurrency = DEFAULT_RPC_CONCURRENCY\<rparr>"

record rpc_error =
  e_code :: i32
  e_message :: string
  e_data :: string

text \<open>What the calls return: the result types of the methods.\<close>

record balance =
  b_amount :: i64

record node_state =
  ns_addr :: string
  ns_curr_time_stamp :: u64
  ns_height :: u32
  ns_id :: string
  ns_json_rpc_port :: u32
  ns_proposal_submitted :: u32
  ns_protocol_version :: u32
  ns_public_key :: string
  ns_relay_message_count :: u64
  ns_sync_state :: string
  ns_tls_json_rpc_domain :: string
  ns_tls_json_rpc_port :: u32
  ns_tls_websocket_domain :: string
  ns_tls_websocket_port :: u32
  ns_uptime :: u64
  ns_version :: string
  ns_websocket_port :: u32

record subscription =
  sub_meta :: string
  sub_expires_at :: u64

record registrant =
  r_registrant :: string
  r_expires_at :: u64

section \<open>One request\<close>

text \<open>
  What the HTTP client gives: no request, when the address is no URI, an error of the request, of
  reading the body, or the body.
\<close>

datatype exchange = NoRequest | RequestFailed string | BodyFailed string | Body bytes

text \<open>
  \<open>parse\<close> is \<^verbatim>\<open>serde_json\<close> on the response type: its text of the error, or the two optional fields.
\<close>

definition http_post ::
    "(string \<Rightarrow> (('d option \<times> rpc_error option), string) outcome) \<Rightarrow> exchange \<Rightarrow> ('d, string) outcome" where
  "http_post parse x =
     (case x of
        NoRequest \<Rightarrow> Panic
      | RequestFailed e \<Rightarrow> Err (''Client: '' @ e)
      | BodyFailed e \<Rightarrow> Err (''Body: '' @ e)
      | Body bs \<Rightarrow>
          (case from_utf8 bs of
             None \<Rightarrow> Err ''Body: invalid utf-8''
           | Some body_str \<Rightarrow>
               (case parse body_str of
                  Err e \<Rightarrow> Err (''Json: '' @ e)
                | Panic \<Rightarrow> Panic
                | Ok (res, Some err) \<Rightarrow> Err (e_message err @ '': '' @ e_data err)
                | Ok (res, None) \<Rightarrow> unwrap res)))"

section \<open>The tasks of a call\<close>

text \<open>The addresses of task \<open>i\<close>: \<^verbatim>\<open>split_at\<close>, the right part first.\<close>

definition task_addresses :: "string list \<Rightarrow> nat \<Rightarrow> string list" where
  "task_addresses servers i =
     (let k = i mod length servers in drop k servers @ take k servers)"

definition task_count :: "rpc_config \<Rightarrow> nat" where
  "task_count config = (if 0 < rpc_concurrency config then unat (rpc_concurrency config)
     else length (rpc_server_address config))"

text \<open>
  A task has addresses left and may be waiting for the response of the first of them. The answers
  are logged, with the number of their task, in the order in which the tasks look at them.
\<close>

record task =
  todo :: "string list"
  awaiting :: bool

record 'd rpc_state =
  shared :: "('d, string) outcome"
  tasks :: "task list"
  panicked :: bool
  answers :: "(nat \<times> string \<times> ('d, string) outcome) list"

definition is_ok :: "('a, 'e) outcome \<Rightarrow> bool" where
  "is_ok r = (case r of Ok _ \<Rightarrow> True | _ \<Rightarrow> False)"

definition is_err :: "('a, 'e) outcome \<Rightarrow> bool" where
  "is_err r = (case r of Err _ \<Rightarrow> True | _ \<Rightarrow> False)"

definition rpc_start :: "rpc_config \<Rightarrow> 'd rpc_state" where
  "rpc_start config = \<lparr>shared = Err ''couldn't find'',
     tasks = map (\<lambda>i. \<lparr>todo = task_addresses (rpc_server_address config) i, awaiting = False\<rparr>)
               [0..<task_count config],
     panicked = False, answers = []\<rparr>"

definition set_task :: "nat \<Rightarrow> task \<Rightarrow> 'd rpc_state \<Rightarrow> 'd rpc_state" where
  "set_task i t s = s\<lparr>tasks := (tasks s)[i := t]\<rparr>"

text \<open>
  The steps of task \<open>i\<close>: leave when the shared result is a success, send the request to the next
  server, take its answer. An answer that panics ends the task, and the call panics when it joins it.
\<close>

inductive rpc_step :: "'d rpc_state \<Rightarrow> 'd rpc_state \<Rightarrow> bool" where
  leave: "\<lbrakk>i < length (tasks s); tasks s ! i = \<lparr>todo = a # as, awaiting = False\<rparr>; is_ok (shared s)\<rbrakk> \<Longrightarrow>
    rpc_step s (set_task i \<lparr>todo = [], awaiting = False\<rparr> s)"
| request: "\<lbrakk>i < length (tasks s); tasks s ! i = \<lparr>todo = a # as, awaiting = False\<rparr>; \<not> is_ok (shared s)\<rbrakk> \<Longrightarrow>
    rpc_step s (set_task i \<lparr>todo = a # as, awaiting = True\<rparr> s)"
| answer: "\<lbrakk>i < length (tasks s); tasks s ! i = \<lparr>todo = a # as, awaiting = True\<rparr>; r \<noteq> Panic\<rbrakk> \<Longrightarrow>
    rpc_step s (set_task i \<lparr>todo = as, awaiting = False\<rparr>
      (s\<lparr>shared := (if is_err (shared s) then r else shared s), answers := answers s @ [(i, a, r)]\<rparr>))"
| crash: "\<lbrakk>i < length (tasks s); tasks s ! i = \<lparr>todo = a # as, awaiting = True\<rparr>\<rbrakk> \<Longrightarrow>
    rpc_step s (set_task i \<lparr>todo = [], awaiting = False\<rparr>
      (s\<lparr>panicked := True, answers := answers s @ [(i, a, Panic)]\<rparr>))"

definition rpc_done :: "'d rpc_state \<Rightarrow> bool" where
  "rpc_done s \<longleftrightarrow> (\<forall>t \<in> set (tasks s). todo t = [])"

text \<open>What \<open>rpc_call\<close> returns when its tasks are joined.\<close>

definition rpc_result :: "'d rpc_state \<Rightarrow> ('d, string) outcome" where
  "rpc_result s = (if panicked s then Panic else shared s)"

definition rpc_call :: "rpc_config \<Rightarrow> ('d, string) outcome \<Rightarrow> bool" where
  "rpc_call config r \<longleftrightarrow>
     (if rpc_server_address config = [] then r = Err ''No server addresses in config''
      else \<exists>s. rpc_step\<^sup>*\<^sup>* (rpc_start config) s \<and> rpc_done s \<and> r = rpc_result s)"

section \<open>Requests\<close>

text \<open>The methods the program calls, with the parameters of the JSON body.\<close>

datatype rpc_request =
    GetBalance string | GetHeight | GetWsAddress string | GetWssAddress string
  | GetRegistrant string | SendRawTransaction string | GetNodeState

primrec rpc_method :: "rpc_request \<Rightarrow> string" where
  "rpc_method (GetBalance a) = ''getbalancebyaddr''"
| "rpc_method GetHeight = ''getlatestblockheight''"
| "rpc_method (GetWsAddress a) = ''getwsaddr''"
| "rpc_method (GetWssAddress a) = ''getwssaddr''"
| "rpc_method (GetRegistrant n) = ''getregistrant''"
| "rpc_method (SendRawTransaction t) = ''sendrawtransaction''"
| "rpc_method GetNodeState = ''getnodestate''"

primrec rpc_params :: "rpc_request \<Rightarrow> (string \<times> string) list" where
  "rpc_params (GetBalance a) = [(''address'', a)]"
| "rpc_params GetHeight = []"
| "rpc_params (GetWsAddress a) = [(''address'', a)]"
| "rpc_params (GetWssAddress a) = [(''address'', a)]"
| "rpc_params (GetRegistrant n) = [(''name'', n)]"
| "rpc_params (SendRawTransaction t) = [(''tx'', t)]"
| "rpc_params GetNodeState = []"

text \<open>The balance out of the answer of its call.\<close>

definition get_balance :: "(balance, string) outcome \<Rightarrow> (i64, string) outcome" where
  "get_balance answer = and_then answer (\<lambda>balance. Ok (b_amount balance))"

text \<open>\<open>send_raw_transaction\<close> up to the call: the encoding has to be UTF-8.\<close>

definition send_raw_transaction :: "tx_codec \<Rightarrow> transaction \<Rightarrow> (rpc_request, string) outcome" where
  "send_raw_transaction tc tx =
     (case from_utf8 (tx_encode tc tx) of
        None \<Rightarrow> Err ''Utf8: invalid utf-8''
      | Some encoded \<Rightarrow> Ok (SendRawTransaction encoded))"

section \<open>How the result comes about\<close>

text \<open>Reference: the first answer that is a success, else the last one.\<close>

fun settle :: "('d, string) outcome \<Rightarrow> (nat \<times> string \<times> ('d, string) outcome) list \<Rightarrow> ('d, string) outcome" where
  "settle r [] = r"
| "settle r ((i, a, x) # log) = settle (if is_err r \<and> x \<noteq> Panic then x else r) log"

lemma settle_append:
  "settle r (log @ [(i, a, x)]) = (let r' = settle r log in if is_err r' \<and> x \<noteq> Panic then x else r')"
  by (induction r log rule: settle.induct) (simp_all add: Let_def)

definition answered :: "nat \<Rightarrow> (nat \<times> string \<times> ('d, string) outcome) list \<Rightarrow> string list" where
  "answered i log = map (\<lambda>(j, a, r). a) (filter (\<lambda>(j, a, r). j = i) log)"

lemma answered_append:
  "answered i (log @ [(j, a, r)]) = (if i = j then answered i log @ [a] else answered i log)"
  by (simp add: answered_def)

text \<open>
  The shared result is what the answers settle to. While it is an error and no task has crashed,
  each task has asked exactly the servers it no longer has to do.
\<close>

definition rpc_inv :: "rpc_config \<Rightarrow> 'd rpc_state \<Rightarrow> bool" where
  "rpc_inv config s \<longleftrightarrow>
     shared s = settle (Err ''couldn't find'') (answers s) \<and> length (tasks s) = task_count config \<and>
     (is_ok (shared s) \<or> is_err (shared s)) \<and>
     (\<forall>i < length (tasks s). awaiting (tasks s ! i) \<longrightarrow> todo (tasks s ! i) \<noteq> []) \<and>
     (is_err (shared s) \<and> \<not> panicked s \<longrightarrow>
        (\<forall>i < length (tasks s).
           answered i (answers s) @ todo (tasks s ! i) = task_addresses (rpc_server_address config) i))"

lemma rpc_inv_start: "rpc_inv config (rpc_start config)"
  by (simp add: rpc_inv_def rpc_start_def is_err_def answered_def)

lemma set_task_simps [simp]:
  "shared (set_task i t s) = shared s" "panicked (set_task i t s) = panicked s"
  "answers (set_task i t s) = answers s" "tasks (set_task i t s) = (tasks s)[i := t]"
  by (simp_all add: set_task_def)

lemma not_ok_err: "is_ok r \<Longrightarrow> \<not> is_err r"
  by (cases r) (simp_all add: is_ok_def is_err_def)

lemma ok_or_err: "r \<noteq> Panic \<Longrightarrow> is_ok r \<or> is_err r"
  by (cases r) (simp_all add: is_ok_def is_err_def)

lemma nth_list_update_cases:
  "i < length xs \<Longrightarrow> (xs[j := x]) ! i = (if i = j then x else xs ! i)"
  by (cases "i = j") simp_all

interpretation rpc: step_invariant rpc_step "rpc_inv config"
proof
  fix s t :: "'a rpc_state"
  assume inv: "rpc_inv config s" and "rpc_step s t"
  from \<open>rpc_step s t\<close> show "rpc_inv config t"
  proof cases
    case (leave i a as)
    then show ?thesis using inv not_ok_err [of "shared s"] by (auto simp: rpc_inv_def nth_list_update_cases)
  next
    case (request i a as)
    have "todo (tasks s ! i) = a # as" using request by simp
    then show ?thesis using inv request(1) by (auto simp: rpc_inv_def nth_list_update_cases)
  next
    case (answer i a as r)
    have "todo (tasks s ! i) = a # as" using answer by simp
    then show ?thesis
      using inv answer(1,4) ok_or_err [of r] not_ok_err [of "shared s"]
      by (auto simp: rpc_inv_def nth_list_update_cases settle_append answered_append Let_def)
  next
    case (crash i a as)
    then show ?thesis
      using inv by (auto simp: rpc_inv_def nth_list_update_cases settle_append Let_def)
  qed
qed

text \<open>Every step uses up a request or a response: a bound on the length of a run.\<close>

definition task_work :: "task \<Rightarrow> nat" where
  "task_work t = 2 * length (todo t) - (if awaiting t then 1 else 0)"

definition rpc_work :: "'d rpc_state \<Rightarrow> nat" where
  "rpc_work s = sum_list (map task_work (tasks s))"

lemma sum_list_update_less:
  "i < length xs \<Longrightarrow> f x < f (xs ! i) \<Longrightarrow> sum_list (map f (xs[i := x])) < (sum_list (map f xs) :: nat)"
proof (induction xs arbitrary: i)
  case (Cons y xs)
  then show ?case by (cases i) auto
qed simp

lemma rpc_step_work: "rpc_step s t \<Longrightarrow> rpc_work t < rpc_work s"
  unfolding rpc_work_def
  by (induction rule: rpc_step.induct) (auto intro!: sum_list_update_less simp: task_work_def)

lemma rpc_step_enabled: "\<not> rpc_done s \<Longrightarrow> \<exists>t. rpc_step s t"
proof -
  assume "\<not> rpc_done s"
  then obtain i a as where i: "i < length (tasks s)" "todo (tasks s ! i) = a # as"
    by (auto simp: rpc_done_def in_set_conv_nth neq_Nil_conv)
  then have t: "tasks s ! i = \<lparr>todo = a # as, awaiting = awaiting (tasks s ! i)\<rparr>" by simp
  show ?thesis
  proof (cases "awaiting (tasks s ! i)")
    case True
    then show ?thesis using rpc_step.crash [OF i(1), of a as] t by auto
  next
    case False
    then show ?thesis using rpc_step.leave [OF i(1), of a as] rpc_step.request [OF i(1), of a as] t
      by (cases "is_ok (shared s)") auto
  qed
qed

lemma settle_keeps: "is_ok r \<Longrightarrow> settle r log = r"
  by (induction r log rule: settle.induct) (simp_all add: not_ok_err)

lemma settle_first_ok:
  "is_err r \<Longrightarrow> settle r log = Ok x \<Longrightarrow>
     \<exists>pre i a post. log = pre @ (i, a, Ok x) # post \<and> (\<forall>(j, b, y) \<in> set pre. \<not> is_ok y)"
proof (induction log arbitrary: r)
  case (Cons e log)
  obtain i a y where e: "e = (i, a, y)" by (cases e)
  show ?case
  proof (cases "is_ok y")
    case True
    then have "y \<noteq> Panic" by (auto simp: is_ok_def)
    then have "y = Ok x" using Cons.prems e settle_keeps [OF True, of log] by simp
    then show ?thesis using e by (intro exI [of _ "[]"]) auto
  next
    case False
    have "\<exists>r'. is_err r' \<and> settle r' log = Ok x"
      using Cons.prems e False ok_or_err [of y]
      by (cases "y = Panic") (auto split: if_splits)
    then obtain pre j b post where "log = pre @ (j, b, Ok x) # post" "\<forall>(j, b, y) \<in> set pre. \<not> is_ok y"
      using Cons.IH by blast
    then show ?thesis using e False by (intro exI [of _ "e # pre"]) auto
  qed
qed (auto simp: is_err_def)

lemma settle_err: "is_err r \<Longrightarrow> is_err (settle r log) \<Longrightarrow> (j, b, y) \<in> set log \<Longrightarrow> \<not> is_ok y"
proof (induction log arbitrary: r)
  case (Cons e log)
  obtain i a z where e: "e = (i, a, z)" by (cases e)
  have nok: "\<not> is_ok z"
    using Cons.prems(1,2) e settle_keeps [of z log] not_ok_err [of z] by (auto simp: is_ok_def split: if_splits)
  have "\<exists>r'. is_err r' \<and> is_err (settle r' log)"
    using Cons.prems(1,2) e nok ok_or_err [of z] by (cases "z = Panic") (auto split: if_splits)
  then show ?case using Cons.IH Cons.prems(3) e nok by auto
qed simp

lemma set_task_addresses: "servers \<noteq> [] \<Longrightarrow> set (task_addresses servers i) = set servers"
  unfolding task_addresses_def Let_def
  by (metis Un_commute append_take_drop_id set_append)

section \<open>Properties\<close>

text \<open>C31: what \<open>rpc_call\<close> returns when no task crashed, however its tasks interleave. A success is the
  first successful answer that came in. An error means that every task asked every server, in its
  own order, and none of the answers was a success.\<close>

theorem rpc_call_result:
  assumes run: "rpc_step\<^sup>*\<^sup>* (rpc_start config) s" and "rpc_done s" and "rpc_result s \<noteq> Panic"
  shows "(\<forall>x. rpc_result s = Ok x \<longrightarrow>
      (\<exists>pre i a post. answers s = pre @ (i, a, Ok x) # post \<and> (\<forall>(j, b, y) \<in> set pre. \<not> is_ok y))) \<and>
    (\<forall>e. rpc_result s = Err e \<longrightarrow>
      (\<forall>i < task_count config. answered i (answers s) = task_addresses (rpc_server_address config) i) \<and>
      (\<forall>(j, b, y) \<in> set (answers s). \<not> is_ok y))"
proof -
  have inv: "rpc_inv config s" using rpc.run [OF run rpc_inv_start] .
  have np: "\<not> panicked s" "rpc_result s = shared s" using assms(3) by (auto simp: rpc_result_def)
  have e: "is_err (Err ''couldn't find'')" by (simp add: is_err_def)
  have ok: "\<exists>pre i a post. answers s = pre @ (i, a, Ok x) # post \<and> (\<forall>(j, b, y) \<in> set pre. \<not> is_ok y)"
    if "rpc_result s = Ok x" for x
  proof -
    have "settle (Err ''couldn't find'') (answers s) = Ok x"
      using that inv np by (simp only: rpc_inv_def)
    then show ?thesis by (rule settle_first_ok [OF e])
  qed
  have err: "(\<forall>i < task_count config. answered i (answers s) = task_addresses (rpc_server_address config) i) \<and>
      (\<forall>(j, b, y) \<in> set (answers s). \<not> is_ok y)" if "rpc_result s = Err m" for m
  proof -
    have "is_err (shared s)" using that np by (simp add: is_err_def)
    moreover have "todo (tasks s ! i) = []" if "i < length (tasks s)" for i
      using that assms(2) by (simp add: rpc_done_def)
    ultimately show ?thesis
      using inv np settle_err [OF e, of "answers s"] by (auto simp: rpc_inv_def)
  qed
  show ?thesis using ok err by blast
qed

theorem rpc_call_result_witness:
  "\<exists>s. rpc_step\<^sup>*\<^sup>* (rpc_start (default_rpc_config\<lparr>rpc_server_address := [''a'', ''b'']\<rparr>)) s \<and> rpc_done s \<and>
     rpc_result s = Ok (7 :: nat) \<and> (\<exists>pre i a post. answers s = pre @ (i, a, Ok 7) # post)"
proof -
  let ?config = "default_rpc_config\<lparr>rpc_server_address := [''a'', ''b'']\<rparr>"
  let ?s0 = "\<lparr>shared = Err ''couldn't find'', tasks = [\<lparr>todo = [''a'', ''b''], awaiting = False\<rparr>],
      panicked = False, answers = []\<rparr> :: nat rpc_state"
  let ?s1 = "?s0\<lparr>tasks := [\<lparr>todo = [''a'', ''b''], awaiting = True\<rparr>]\<rparr>"
  let ?s2 = "?s0\<lparr>shared := Err ''x'', tasks := [\<lparr>todo = [''b''], awaiting = False\<rparr>],
      answers := [(0, ''a'', Err ''x'')]\<rparr>"
  let ?s3 = "?s2\<lparr>tasks := [\<lparr>todo = [''b''], awaiting = True\<rparr>]\<rparr>"
  let ?s4 = "?s2\<lparr>shared := Ok 7, tasks := [\<lparr>todo = [], awaiting = False\<rparr>],
      answers := [(0, ''a'', Err ''x''), (0, ''b'', Ok 7)]\<rparr>"
  have start: "rpc_start ?config = ?s0"
    by (simp add: rpc_start_def default_rpc_config_def task_count_def task_addresses_def)
  have "rpc_step ?s0 ?s1"
    using rpc_step.request [of 0 ?s0 "''a''" "[''b'']"] by (simp add: is_ok_def set_task_def)
  moreover have "rpc_step ?s1 ?s2"
    using rpc_step.answer [of 0 ?s1 "''a''" "[''b'']" "Err ''x''"] by (simp add: is_err_def set_task_def)
  moreover have "rpc_step ?s2 ?s3"
    using rpc_step.request [of 0 ?s2 "''b''" "[]"] by (simp add: is_ok_def set_task_def)
  moreover have "rpc_step ?s3 ?s4"
    using rpc_step.answer [of 0 ?s3 "''b''" "[]" "Ok 7"] by (simp add: is_err_def set_task_def)
  ultimately have run: "rpc_step\<^sup>*\<^sup>* (rpc_start ?config) ?s4" unfolding start
    by (meson converse_rtranclp_into_rtranclp rtranclp.rtrancl_refl)
  have fin: "rpc_done ?s4" "rpc_result ?s4 = Ok 7" by (simp_all add: rpc_done_def rpc_result_def)
  show ?thesis using run fin rpc_call_result [OF run fin(1)] by (intro exI [of _ ?s4]) fastforce
qed



end
