(* ===== verification/Nanopay.thy ===== *)
theory Nanopay
  imports Address Wallet Rpc
begin

text \<open>
  \<^verbatim>\<open>src/nanopay.rs\<close>: the payer of a payment channel (\<^verbatim>\<open>NanoPay\<close>) and its claimer (\<^verbatim>\<open>NanoPayClaimer\<close>).
  The results of the RPC calls, the clock and the random numbers are arguments. Amounts are
  64-bit words, read with \<open>sint\<close> where the code compares them as \<^verbatim>\<open>i64\<close>.

  \<open>claim_with\<close> is \<open>claim\<close> with the transaction's verification as an argument; the code's
  \<^verbatim>\<open>Transaction::verify\<close> is \<^verbatim>\<open>todo!()\<close>.
\<close>

section \<open>Paying\<close>

definition SENDER_EXPIRATION_DELTA :: u32 where [simp]: "SENDER_EXPIRATION_DELTA = 5"
definition FORCE_FLUSH_DELTA :: u32 where [simp]: "FORCE_FLUSH_DELTA = 2"
definition RECEIVER_EXPIRATION_DELTA :: u32 where [simp]: "RECEIVER_EXPIRATION_DELTA = 3"
definition CONSENSUS_DURATION :: u32 where [simp]: "CONSENSUS_DURATION = 20"

record payer =
  pay_rpc :: rpc_config
  pay_wallet :: wallet
  pay_recipient_address :: string
  pay_recipient_hash :: bytes
  pay_fee :: i64
  pay_duration :: u32
  pay_id :: u64
  pay_amount :: u64
  pay_expiration :: u32

text \<open>\<^verbatim>\<open>as_bytes().try_into().unwrap()\<close> to an array of 32 bytes.\<close>

definition address_key :: "string \<Rightarrow> (bytes, string) outcome" where
  "address_key address = (if length address = PUBLIC_KEY_LEN then Ok (as_bytes address) else Panic)"

definition payer_new ::
    "crates \<Rightarrow> rpc_config \<Rightarrow> wallet \<Rightarrow> string \<Rightarrow> i64 \<Rightarrow> u32 \<Rightarrow> u64 \<Rightarrow> (payer, string) outcome" where
  "payer_new cr rpc w address fee duration random_id =
     and_then (address_key address) (\<lambda>key.
       Ok \<lparr>pay_rpc = rpc, pay_wallet = w, pay_recipient_address = address,
           pay_recipient_hash = create_program_hash cr key, pay_fee = fee, pay_duration = duration,
           pay_id = random_id, pay_amount = 0, pay_expiration = 0\<rparr>)"

definition set_fee :: "i64 \<Rightarrow> transaction \<Rightarrow> (transaction, string) outcome" where
  "set_fee fee tx = and_then (unwrap (unsigned_tx_of (pb_tx tx))) (\<lambda>utx.
     Ok (tx\<lparr>pb_tx := (pb_tx tx)\<lparr>unsigned_tx_of := Some (utx\<lparr>utx_fee := fee\<rparr>)\<rparr>\<rparr>))"

text \<open>The first part of \<open>increase_amount\<close>: a new channel when there is none or it is about to expire.\<close>

definition renew_channel :: "profile \<Rightarrow> u32 \<Rightarrow> u64 \<Rightarrow> payer \<Rightarrow> (payer, string) outcome" where
  "renew_channel p height random_id s =
     and_then (if pay_expiration s = 0 then Ok True
               else and_then (add_u p height SENDER_EXPIRATION_DELTA) (\<lambda>least.
                 Ok (pay_expiration s < least))) (\<lambda>renew.
     if renew
     then and_then (add_u p height SENDER_EXPIRATION_DELTA) (\<lambda>expiration.
       Ok (s\<lparr>pay_expiration := expiration, pay_id := random_id, pay_amount := 0\<rparr>))
     else Ok s)"

definition increase_amount ::
    "profile \<Rightarrow> tx_codec \<Rightarrow> (u32, string) outcome \<Rightarrow> u64 \<Rightarrow> bytes \<Rightarrow> payer \<Rightarrow> u64 \<Rightarrow> u64 \<Rightarrow>
      (transaction \<times> payer, string) outcome" where
  "increase_amount p tc got_height random_id attrs s delta fee =
     and_then got_height (\<lambda>height.
     and_then (renew_channel p height random_id s) (\<lambda>s.
     and_then (add_u p (pay_amount s) delta) (\<lambda>amount.
     and_then (add_u p (pay_expiration s) (pay_duration s)) (\<lambda>nano_pay_expiration.
       let s = s\<lparr>pay_amount := amount\<rparr>;
           tx = tx_new_nanopay tc attrs (account_program_hash (w_account (pay_wallet s)))
                  (pay_recipient_hash s) (pay_id s) amount (pay_expiration s) nano_pay_expiration;
           new_fee = (if fee = 0 then pay_fee s else fee)
       in and_then (set_fee new_fee tx) (\<lambda>tx. Ok (tx, s))))))"

section \<open>Claiming\<close>

record claimer =
  c_recipient_address :: string
  c_recipient_hash :: bytes
  c_id :: "u64 option"
  c_min_flush_amount :: i64
  c_amount :: i64
  c_closed :: bool
  c_expiration :: u32
  c_last_claim_time :: int
  c_prev_claimed_amount :: i64
  c_prev_flush_amount :: i64
  c_tx :: "transaction option"

definition claimer_new :: "crates \<Rightarrow> string \<Rightarrow> i64 \<Rightarrow> int \<Rightarrow> (claimer, string) outcome" where
  "claimer_new cr address min_flush_amount now =
     and_then (address_key address) (\<lambda>key.
       Ok \<lparr>c_recipient_address = address, c_recipient_hash = create_program_hash cr key, c_id = None,
           c_min_flush_amount = min_flush_amount, c_amount = 0, c_closed = False, c_expiration = 0,
           c_last_claim_time = now, c_prev_claimed_amount = 0, c_prev_flush_amount = 0, c_tx = None\<rparr>)"

definition claimer_amount :: "profile \<Rightarrow> claimer \<Rightarrow> (i64, string) outcome" where
  "claimer_amount p c = add_s p (c_prev_claimed_amount c) (c_amount c)"

definition claimer_close :: "claimer \<Rightarrow> claimer" where
  "claimer_close c = c\<lparr>c_closed := True\<rparr>"

text \<open>The payload of a transaction; both parts are optional in protobuf.\<close>

definition payload_of :: "transaction \<Rightarrow> (payload, string) outcome" where
  "payload_of tx = and_then (unwrap (unsigned_tx_of (pb_tx tx))) (\<lambda>utx. unwrap (utx_payload utx))"

definition flush_fn ::
    "profile \<Rightarrow> tx_codec \<Rightarrow> (string, string) outcome \<Rightarrow> int \<Rightarrow> bool \<Rightarrow> claimer \<Rightarrow> (claimer, string) outcome" where
  "flush_fn p tc sent now force c =
     and_then (if force then Ok False
               else and_then (sub_s p (c_amount c) (c_prev_flush_amount c)) (\<lambda>d.
                 Ok (sint d < sint (c_min_flush_amount c)))) (\<lambda>too_small.
     if too_small then Ok c
     else (case c_tx c of
             None \<Rightarrow> Ok c
           | Some tx \<Rightarrow>
               and_then (payload_of tx) (\<lambda>pl.
               and_then (unwrap (decode_nano_pay tc (unpack_payload pl))) (\<lambda>np.
                 if payload_type_from_i32 (pl_type pl) \<noteq> Some NanoPayType then Err ''not a NanoPay payload''
                 else and_then (send_raw_transaction tc tx) (\<lambda>_.
                      and_then sent (\<lambda>_.
                        Ok (c\<lparr>c_tx := None, c_expiration := 0, c_last_claim_time := now,
                              c_prev_flush_amount := np_amount np\<rparr>)))))))"

text \<open>What a claim takes from outside.\<close>

record claim_env =
  got_height :: "(u32, string) outcome"
  got_balance :: "(i64, string) outcome"
  got_sent :: "(string, string) outcome"
  claim_time :: int

definition nanopay_of :: "tx_codec \<Rightarrow> transaction \<Rightarrow> (nano_pay, string) outcome" where
  "nanopay_of tc tx = and_then (payload_of tx) (\<lambda>pl.
     if payload_type_from_i32 (pl_type pl) = Some NanoPayType then unwrap (decode_nano_pay tc (pl_data pl))
     else Err ''not a NanoPay payload'')"

text \<open>The handling of a new channel id: flush the old channel and start a new one.\<close>

definition switch_id ::
    "profile \<Rightarrow> tx_codec \<Rightarrow> claim_env \<Rightarrow> claimer \<Rightarrow> nano_pay \<Rightarrow> (claimer, string) outcome" where
  "switch_id p tc env c np =
     (case c_id c of
        None \<Rightarrow> Ok c
      | Some i \<Rightarrow>
          if i = np_id np then
            (if sint (np_amount np) \<le> sint (c_amount c) then Err ''invalid amount'' else Ok c)
          else
            and_then (flush_fn p tc (got_sent env) (claim_time env) False c) (\<lambda>c.
            and_then (add_s p (c_prev_claimed_amount c) (c_amount c)) (\<lambda>claimed.
              Ok (c\<lparr>c_id := None, c_prev_claimed_amount := claimed, c_prev_flush_amount := 0, c_amount := 0\<rparr>))))"

definition accept_claim ::
    "profile \<Rightarrow> claim_env \<Rightarrow> u32 \<Rightarrow> claimer \<Rightarrow> nano_pay \<Rightarrow> transaction \<Rightarrow> (i64, string) outcome \<times> claimer" where
  "accept_claim p env height c np tx =
     (case and_then (got_balance env) (\<lambda>balance.
           and_then (add_s p balance (c_prev_flush_amount c)) (\<lambda>funds.
             if sint funds < sint (np_amount np) then Err ''insufficient balance''
             else and_then (add_u p height RECEIVER_EXPIRATION_DELTA) (\<lambda>limit.
               if np_txn_expiration np \<le> limit then Err ''expired nanopay transaction''
               else if np_nano_pay_expiration np \<le> limit then Err ''expired nanopay''
               else Ok ()))) of
        Ok _ \<Rightarrow>
          let c = c\<lparr>c_id := Some (np_id np), c_tx := Some tx, c_expiration := np_txn_expiration np,
                    c_amount := np_amount np\<rparr>
          in (add_s p (c_prev_claimed_amount c) (c_amount c), c)
      | Err e \<Rightarrow> (Err e, c)
      | Panic \<Rightarrow> (Panic, c))"

text \<open>The checks of a claim before it looks at the channel.\<close>

definition claim_check ::
    "(transaction \<Rightarrow> u32 \<Rightarrow> (bool, string) outcome) \<Rightarrow> tx_codec \<Rightarrow> u32 \<Rightarrow> claimer \<Rightarrow> transaction \<Rightarrow> (nano_pay, string) outcome" where
  "claim_check verify tc height c tx =
     and_then (nanopay_of tc tx) (\<lambda>np.
     and_then (uint160_from_bytes (np_recipient np)) (\<lambda>recipient.
       if recipient \<noteq> c_recipient_hash c then Err ''wrong recipient''
       else and_then (verify tx height) (\<lambda>valid.
         if \<not> valid then Err ''incorrect transaction''
         else and_then (uint160_from_bytes (np_sender np)) (\<lambda>sender.
           if c_closed c then Err ''nanopay closed'' else Ok np))))"

definition claim_with ::
    "(transaction \<Rightarrow> u32 \<Rightarrow> (bool, string) outcome) \<Rightarrow> profile \<Rightarrow> tx_codec \<Rightarrow> claim_env \<Rightarrow>
      claimer \<Rightarrow> transaction \<Rightarrow> (i64, string) outcome \<times> claimer" where
  "claim_with verify p tc env c tx =
     (case and_then (got_height env) (\<lambda>height.
           and_then (claim_check verify tc height c tx) (\<lambda>np.
           and_then (switch_id p tc env c np) (\<lambda>c. Ok (height, np, c)))) of
        Ok (height, np, c) \<Rightarrow> accept_claim p env height c np tx
      | Err e \<Rightarrow> (Err e, c)
      | Panic \<Rightarrow> (Panic, c))"

definition claim ::
    "profile \<Rightarrow> tx_codec \<Rightarrow> claim_env \<Rightarrow> claimer \<Rightarrow> transaction \<Rightarrow> (i64, string) outcome \<times> claimer" where
  "claim p tc env c tx = claim_with tx_verify p tc env c tx"

section \<open>Lemmas\<close>

lemma add_s_Debug: "add_s Debug a b = Ok c \<Longrightarrow> sint (c :: i64) = sint a + sint b"
  by (auto simp: add_s_def overflow_Ok_iff intro: sint_add_64)

lemma add_u_Debug: "add_u Debug a b = Ok c \<Longrightarrow> unat c = unat a + unat b"
  by (rule add_u_Debug_Ok_D)

lemma payload_of_nanopay:
  "payload_of (tx_new_nanopay tc attrs sender recipient i a e1 e2) =
     Ok (pack_payload tc NanoPayType (new_nanopay sender recipient i a e1 e2))"
  by (simp add: payload_of_def tx_new_nanopay_def tx_of_def new_msg_tx_def)

lemma nanopay_of_payload:
  assumes "tx_codec_laws tc" and "payload_of tx = Ok (pack_payload tc NanoPayType (NanoPayMsg np))"
  shows "nanopay_of tc tx = Ok np"
  using assms payload_type_roundtrip [of NanoPayType]
  by (simp add: nanopay_of_def pack_payload_def tx_codec_laws_def)

lemma payload_of_set_fee: "set_fee fee tx = Ok tx' \<Longrightarrow> payload_of tx' = payload_of tx"
  by (auto simp: set_fee_def payload_of_def outcome_simps)

lemma flush_fn_frame:
  "flush_fn p tc sent now force c = Ok c' \<Longrightarrow>
     c_amount c' = c_amount c \<and> c_prev_claimed_amount c' = c_prev_claimed_amount c \<and> c_id c' = c_id c"
  by (auto simp: flush_fn_def outcome_simps split: if_splits option.splits)

lemma switch_id_cases:
  assumes "switch_id p tc env c np = Ok c'"
  shows "(c_id c = None \<and> c' = c) \<or>
    (c_id c = Some (np_id np) \<and> c' = c \<and> sint (c_amount c) < sint (np_amount np)) \<or>
    (\<exists>i. c_id c = Some i \<and> i \<noteq> np_id np \<and> c_id c' = None \<and> c_amount c' = 0 \<and> c_prev_flush_amount c' = 0 \<and>
       add_s p (c_prev_claimed_amount c) (c_amount c) = (Ok (c_prev_claimed_amount c') :: (i64, string) outcome))"
  using assms flush_fn_frame
  by (fastforce simp: switch_id_def outcome_simps not_le split: option.splits if_splits)

lemma accept_claim_Ok:
  assumes "accept_claim p env height c np tx = (Ok total_claimed, c')"
  shows "c' = c\<lparr>c_id := Some (np_id np), c_tx := Some tx, c_expiration := np_txn_expiration np,
           c_amount := np_amount np\<rparr>"
    and "add_s p (c_prev_claimed_amount c) (np_amount np) = (Ok total_claimed :: (i64, string) outcome)"
    and "\<exists>limit. add_u p height RECEIVER_EXPIRATION_DELTA = (Ok limit :: (u32, string) outcome) \<and>
      limit < np_txn_expiration np \<and> limit < np_nano_pay_expiration np"
  using assms by (auto simp: accept_claim_def outcome_simps not_le split: outcome.splits if_splits)

lemma renew_channel_Debug:
  assumes "renew_channel Debug height random_id s = Ok t"
  shows "t = (if pay_expiration s = 0 \<or> unat (pay_expiration s) < unat height + 5
      then s\<lparr>pay_expiration := height + 5, pay_id := random_id, pay_amount := 0\<rparr> else s) \<and>
    unat height + 5 \<le> unat (pay_expiration t)"
proof -
  obtain x where x: "add_u Debug height 5 = (Ok x :: (u32, string) outcome)"
    using assms by (cases "pay_expiration s = 0") (auto simp: renew_channel_def outcome_simps)
  then have "x = height + 5" "unat x = unat height + 5" by (auto dest: add_u_Ok_D add_u_Debug)
  then show ?thesis
    using assms by (auto simp: renew_channel_def x word_less_nat_alt split: if_splits)
qed

text \<open>The amount a claimer can count on.\<close>

definition claimed :: "claimer \<Rightarrow> int" where
  "claimed c = sint (c_prev_claimed_amount c) + sint (c_amount c)"

lemma accept_claim_cases:
  assumes "accept_claim p env height c np tx = (r, c')"
  shows "(c' = c \<and> (\<forall>x. r \<noteq> Ok x)) \<or> c' = c\<lparr>c_id := Some (np_id np), c_tx := Some tx,
      c_expiration := np_txn_expiration np, c_amount := np_amount np\<rparr>"
  using assms by (auto simp: accept_claim_def Let_def split: outcome.splits)

text \<open>A claim that leaves the claimer without the channel it had settled that channel and failed.\<close>

lemma claim_with_settled:
  assumes "claim_with verify p tc env c tx = (r, c')" and "c_id c = Some i" and "c_id c' = None"
  shows "c_amount c' = 0 \<and> add_s p (c_prev_claimed_amount c) (c_amount c) = (Ok (c_prev_claimed_amount c') :: (i64, string) outcome)"
proof -
  obtain height np d where *: "switch_id p tc env c np = Ok d" "accept_claim p env height d np tx = (r, c')"
    using assms by (auto simp: claim_with_def claim_check_def outcome_simps split: outcome.splits if_splits prod.splits)
  then have "c' = d" using accept_claim_cases [OF *(2)] assms(3) by auto
  then show ?thesis using switch_id_cases [OF *(1)] assms(2,3) by auto
qed

lemma claim_with_Ok:
  assumes "claim_with verify p tc env c tx = (Ok total_claimed, c')"
  shows "\<exists>np. nanopay_of tc tx = Ok np \<and> c_id c' = Some (np_id np) \<and> c_amount c' = np_amount np \<and>
    (c_id c = None \<longrightarrow> c_prev_claimed_amount c' = c_prev_claimed_amount c)"
proof -
  obtain height np d where *: "nanopay_of tc tx = Ok np" "switch_id p tc env c np = Ok d"
      "accept_claim p env height d np tx = (Ok total_claimed, c')"
    using assms by (auto simp: claim_with_def claim_check_def outcome_simps split: outcome.splits if_splits)
  show ?thesis using * accept_claim_Ok(1) [OF *(3)] switch_id_cases [OF *(2)] by auto
qed

section \<open>Properties\<close>

text \<open>C35: \<open>increase_amount\<close> in a debug build. The transaction it returns carries the running total of
  the channel: the amount so far plus the increase, starting from 0 under a new id when the channel
  is new or would expire within \<^verbatim>\<open>SENDER_EXPIRATION_DELTA\<close> blocks. Its expiration is at least that far
  ahead, and the payer keeps exactly what the transaction says.\<close>

theorem increase_amount_total:
  assumes "tx_codec_laws tc" and "increase_amount Debug tc (Ok height) random_id attrs s delta fee = Ok (tx, s')"
  shows "let renew = (pay_expiration s = 0 \<or> unat (pay_expiration s) < unat height + 5) in
    unat (pay_amount s') = (if renew then 0 else unat (pay_amount s)) + unat delta \<and>
    pay_id s' = (if renew then random_id else pay_id s) \<and>
    unat height + 5 \<le> unat (pay_expiration s') \<and>
    (\<exists>np. nanopay_of tc tx = Ok np \<and> np_amount np = pay_amount s' \<and> np_id np = pay_id s' \<and>
       np_recipient np = pay_recipient_hash s \<and> np_txn_expiration np = pay_expiration s' \<and>
       unat (np_nano_pay_expiration np) = unat (pay_expiration s') + unat (pay_duration s))"
proof -
  obtain t amount e2 tx0 where t: "renew_channel Debug height random_id s = Ok t"
      and amount: "add_u Debug (pay_amount t) delta = (Ok amount :: (_, string) outcome)"
      and e2: "add_u Debug (pay_expiration t) (pay_duration t) = (Ok e2 :: (_, string) outcome)"
      and s': "s' = t\<lparr>pay_amount := amount\<rparr>"
      and tx0: "tx0 = tx_new_nanopay tc attrs (account_program_hash (w_account (pay_wallet t)))
        (pay_recipient_hash t) (pay_id t) amount (pay_expiration t) e2"
      and tx: "set_fee (if fee = 0 then pay_fee t else fee) tx0 = Ok tx"
    using assms(2) by (auto simp: increase_amount_def outcome_simps Let_def cong: if_cong)
  have "payload_of tx = Ok (pack_payload tc NanoPayType (NanoPayMsg \<lparr>np_sender = account_program_hash (w_account (pay_wallet t)),
      np_recipient = pay_recipient_hash t, np_id = pay_id t, np_amount = amount,
      np_txn_expiration = pay_expiration t, np_nano_pay_expiration = e2\<rparr>))"
    using payload_of_set_fee [OF tx] by (simp add: tx0 payload_of_nanopay new_nanopay_def)
  from nanopay_of_payload [OF assms(1) this]
  show ?thesis
    using renew_channel_Debug [OF t] s' add_u_Debug [OF amount] add_u_Debug [OF e2]
    by (auto simp: Let_def split: if_splits)
qed
text \<open>A payer for the witnesses.\<close>

definition demo_account :: account where
  "demo_account = \<lparr>private_key = replicate 32 5, public_key = replicate 32 5,
     account_program_hash = create_program_hash demo (replicate 32 5)\<rparr>"

definition demo_payer :: payer where
  "demo_payer = \<lparr>pay_rpc = default_rpc_config, pay_wallet = \<lparr>w_config = default_wallet_config demo [] [] [],
       w_account = demo_account, w_data = \<lparr>wd_version = 2, wd_iv = [], wd_master_key = [],
         wd_seed_encrypted = [], wd_address = [], wd_scrypt = default_scrypt_config demo []\<rparr>\<rparr>,
     pay_recipient_address = replicate 32 (CHR ''a''), pay_recipient_hash = replicate 20 7, pay_fee = 1,
     pay_duration = 100, pay_id = 3, pay_amount = 40, pay_expiration = 20\<rparr>"

theorem increase_amount_total_witness:
  "\<exists>tx s'. increase_amount Debug demo_tx_codec (Ok 10) 8 [] demo_payer 2 0 = Ok (tx, s') \<and>
     unat (pay_amount s') = 42"
proof -
  obtain tx s' where r: "increase_amount Debug demo_tx_codec (Ok 10) 8 [] demo_payer 2 0 = Ok (tx, s')"
    by (simp add: increase_amount_def renew_channel_def demo_payer_def arith_defs set_fee_def
        tx_new_nanopay_def tx_of_def new_msg_tx_def)
  show ?thesis
    using r increase_amount_total [OF demo_tx_codec_laws r] by (simp add: demo_payer_def)
qed

text \<open>C40: no claim ever succeeds: \<open>claim\<close> returns an error or, once the payload, the recipient and the
  height are in order, panics in the transaction's verification; it changes nothing.\<close>

theorem claim_never_succeeds:
  "snd (claim p tc env c tx) = c \<and> (\<forall>x. fst (claim p tc env c tx) \<noteq> Ok x) \<and>
   (got_height env = Ok height \<and> nanopay_of tc tx = Ok np \<and>
      uint160_from_bytes (np_recipient np) = (Ok (c_recipient_hash c) :: (bytes, string) outcome) \<longrightarrow>
    fst (claim p tc env c tx) = Panic)"
proof -
  let ?m = "and_then (got_height env) (\<lambda>height. and_then (claim_check tx_verify tc height c tx) (\<lambda>np.
      and_then (switch_id p tc env c np) (\<lambda>c. Ok (height, np, c))))"
  have check: "claim_check tx_verify tc h c tx \<noteq> Ok y" for h y
    by (auto simp: claim_check_def outcome_simps tx_verify_def split: if_splits)
  then have "?m \<noteq> Ok y" for y by (auto simp: outcome_simps)
  then have "claim p tc env c tx = (case ?m of Err e \<Rightarrow> (Err e, c) | _ \<Rightarrow> (Panic, c))"
    by (cases ?m) (auto simp: claim_def claim_with_def)
  then show ?thesis by (auto simp: claim_check_def tx_verify_def split: outcome.splits)
qed

theorem claim_never_succeeds_witness:
  "fst (claim Debug demo_tx_codec \<lparr>got_height = Ok 1, got_balance = Ok 100, got_sent = Ok '''', claim_time = 0\<rparr>
     \<lparr>c_recipient_address = '''', c_recipient_hash = replicate 20 1, c_id = None, c_min_flush_amount = 0,
      c_amount = 0, c_closed = False, c_expiration = 0, c_last_claim_time = 0, c_prev_claimed_amount = 0,
      c_prev_flush_amount = 0, c_tx = None\<rparr>
     (tx_new_nanopay demo_tx_codec [] (replicate 20 2) (replicate 20 1) 7 50 100 200)) = Panic"
proof -
  let ?np = "\<lparr>np_sender = replicate 20 2, np_recipient = replicate 20 1, np_id = 7, np_amount = 50,
      np_txn_expiration = 100, np_nano_pay_expiration = 200\<rparr> :: nano_pay"
  let ?tx = "tx_new_nanopay demo_tx_codec [] (replicate 20 2) (replicate 20 1) 7 50 100 200"
  have "nanopay_of demo_tx_codec ?tx = Ok ?np"
    by (rule nanopay_of_payload [OF demo_tx_codec_laws]) (simp add: payload_of_nanopay new_nanopay_def)
  then show ?thesis
    using claim_never_succeeds [of Debug demo_tx_codec
        "\<lparr>got_height = Ok 1, got_balance = Ok 100, got_sent = Ok '''', claim_time = 0\<rparr>"
        "\<lparr>c_recipient_address = '''', c_recipient_hash = replicate 20 1, c_id = None, c_min_flush_amount = 0,
          c_amount = 0, c_closed = False, c_expiration = 0, c_last_claim_time = 0, c_prev_claimed_amount = 0,
          c_prev_flush_amount = 0, c_tx = None\<rparr>" ?tx 1 ?np]
    by (simp add: uint160_from_bytes_def)
qed

text \<open>C39: the accounting of a claim, in a debug build and for any verification of transactions. A
  claim succeeds only on a transaction that verifies, for this recipient, on an open claimer, that
  neither expires within \<^verbatim>\<open>RECEIVER_EXPIRATION_DELTA\<close> blocks; on the channel it already follows only
  with a larger amount. What it returns is the claimer's new total: on the same channel the amount
  is replaced, on another channel it is added to all that was claimed before.\<close>

theorem claim_with_accounts:
  assumes "claim_with verify Debug tc env c tx = (Ok total_claimed, c')"
  shows "\<exists>height np. got_height env = Ok height \<and> nanopay_of tc tx = Ok np \<and> verify tx height = Ok True \<and>
    take 20 (np_recipient np) = c_recipient_hash c \<and> \<not> c_closed c \<and>
    unat height + 3 < unat (np_txn_expiration np) \<and> unat height + 3 < unat (np_nano_pay_expiration np) \<and>
    c_id c' = Some (np_id np) \<and> c_amount c' = np_amount np \<and> c_tx c' = Some tx \<and>
    sint total_claimed = claimed c' \<and>
    (c_id c = Some (np_id np) \<longrightarrow> sint (c_amount c) < sint (np_amount np) \<and>
       claimed c' = claimed c + (sint (np_amount np) - sint (c_amount c))) \<and>
    (c_id c = None \<longrightarrow> claimed c' = sint (c_prev_claimed_amount c) + sint (np_amount np)) \<and>
    (\<forall>i. c_id c = Some i \<and> i \<noteq> np_id np \<longrightarrow> claimed c' = claimed c + sint (np_amount np))"
proof -
  obtain height np d where *: "got_height env = Ok height" "nanopay_of tc tx = Ok np" "verify tx height = Ok True"
      "uint160_from_bytes (np_recipient np) = (Ok (c_recipient_hash c) :: (bytes, string) outcome)"
      "\<not> c_closed c" "switch_id Debug tc env c np = Ok d"
      "accept_claim Debug env height d np tx = (Ok total_claimed, c')"
    using assms by (auto simp: claim_with_def claim_check_def outcome_simps split: outcome.splits if_splits)
  note acc = accept_claim_Ok [OF *(7)]
  obtain limit where limit: "add_u Debug height 3 = (Ok limit :: (u32, string) outcome)"
      "limit < np_txn_expiration np" "limit < np_nano_pay_expiration np"
    using acc(3) by auto
  have exp: "unat height + 3 < unat (np_txn_expiration np)" "unat height + 3 < unat (np_nano_pay_expiration np)"
    using limit add_u_Debug [OF limit(1)] by (simp_all add: word_less_nat_alt)
  have tot: "sint total_claimed = sint (c_prev_claimed_amount d) + sint (np_amount np)"
    using add_s_Debug [OF acc(2)] .
  have switched: "sint (c_prev_claimed_amount d) = claimed c" if "c_id c = Some i" "i \<noteq> np_id np" for i
    using switch_id_cases [OF *(6)] that add_s_Debug by (fastforce simp: claimed_def)
  show ?thesis
    using * acc(1) exp tot switched switch_id_cases [OF *(6)]
    by (intro exI [of _ height] exI [of _ np])
      (auto simp: uint160_from_bytes_def claimed_def split: if_splits)
qed

theorem claim_with_accounts_witness:
  "\<exists>c'. claim_with (\<lambda>tx h. Ok True) Debug demo_tx_codec
     \<lparr>got_height = Ok 1, got_balance = Ok 100, got_sent = Ok '''', claim_time = 0\<rparr>
     \<lparr>c_recipient_address = '''', c_recipient_hash = replicate 20 1, c_id = Some 7, c_min_flush_amount = 0,
      c_amount = 30, c_closed = False, c_expiration = 0, c_last_claim_time = 0, c_prev_claimed_amount = 4,
      c_prev_flush_amount = 0, c_tx = None\<rparr>
     (tx_new_nanopay demo_tx_codec [] (replicate 20 2) (replicate 20 1) 7 50 100 200) = (Ok 54, c') \<and>
   claimed c' = 54"
proof -
  let ?np = "\<lparr>np_sender = replicate 20 2, np_recipient = replicate 20 1, np_id = 7, np_amount = 50,
      np_txn_expiration = 100, np_nano_pay_expiration = 200\<rparr> :: nano_pay"
  let ?tx = "tx_new_nanopay demo_tx_codec [] (replicate 20 2) (replicate 20 1) 7 50 100 200"
  have "nanopay_of demo_tx_codec ?tx = Ok ?np"
    by (rule nanopay_of_payload [OF demo_tx_codec_laws]) (simp add: payload_of_nanopay new_nanopay_def)
  then obtain c' where c': "claim_with (\<lambda>tx h. Ok True) Debug demo_tx_codec
     \<lparr>got_height = Ok 1, got_balance = Ok 100, got_sent = Ok '''', claim_time = 0\<rparr>
     \<lparr>c_recipient_address = '''', c_recipient_hash = replicate 20 1, c_id = Some 7, c_min_flush_amount = 0,
      c_amount = 30, c_closed = False, c_expiration = 0, c_last_claim_time = 0, c_prev_claimed_amount = 4,
      c_prev_flush_amount = 0, c_tx = None\<rparr> ?tx = (Ok 54, c')"
    by (simp add: claim_with_def claim_check_def uint160_from_bytes_def switch_id_def accept_claim_def arith_defs)
  show ?thesis using c' claim_with_accounts [OF c'] by auto
qed

text \<open>A claimer on channel 7, the environment of its claims, and their transactions.\<close>

definition demo_claimer :: "u64 option \<Rightarrow> i64 \<Rightarrow> i64 \<Rightarrow> claimer" where
  "demo_claimer i amount prev = \<lparr>c_recipient_address = '''', c_recipient_hash = replicate 20 1, c_id = i,
     c_min_flush_amount = 1000, c_amount = amount, c_closed = False, c_expiration = 0, c_last_claim_time = 0,
     c_prev_claimed_amount = prev, c_prev_flush_amount = 0, c_tx = None\<rparr>"

definition demo_claim :: "i64 \<Rightarrow> u64 \<Rightarrow> i64 \<Rightarrow> claim_env \<times> transaction" where
  "demo_claim balance i amount = (\<lparr>got_height = Ok 1, got_balance = Ok balance, got_sent = Ok '''', claim_time = 0\<rparr>,
     tx_new_nanopay demo_tx_codec [] (replicate 20 2) (replicate 20 1) i amount 100 200)"

lemma demo_claim_nanopay:
  "nanopay_of demo_tx_codec (snd (demo_claim balance i amount)) = Ok \<lparr>np_sender = replicate 20 2,
     np_recipient = replicate 20 1, np_id = i, np_amount = amount, np_txn_expiration = 100, np_nano_pay_expiration = 200\<rparr>"
  by (rule nanopay_of_payload [OF demo_tx_codec_laws])
    (simp add: demo_claim_def payload_of_nanopay new_nanopay_def)



end
