(* ===== verification/ClaimerTasks.thy ===== *)
theory ClaimerTasks
  imports Nanopay
begin

text \<open>
  A claimer with its background task (\<^verbatim>\<open>src/nanopay.rs\<close>). The claimer's fields are shared: the user
  claims, flushes and closes, the task that \<^verbatim>\<open>NanoPayClaimer::new\<close> spawns flushes from time to time. Both
  are state machines whose phases are their \<^verbatim>\<open>await\<close>s, and \<open>claim_sys_step\<close> interleaves them there; the
  answers from outside (heights, balances, the acceptance of a transaction, the clock) are arbitrary.

  \<open>claim_phases\<close> runs the phases of one claim without a break; it is \<open>claim_with\<close>. The ledger is the
  abstract specification: a channel with its amount, and what the channels before it came to.
\<close>

section \<open>Phases\<close>

text \<open>A flush up to its call, and what it writes when the call has succeeded.\<close>

definition flush_begin :: "profile \<Rightarrow> tx_codec \<Rightarrow> bool \<Rightarrow> claimer \<Rightarrow> ((transaction \<times> nano_pay) option, string) outcome" where
  "flush_begin p tc force c =
     and_then (if force then Ok False
               else and_then (sub_s p (c_amount c) (c_prev_flush_amount c)) (\<lambda>d.
                 Ok (sint d < sint (c_min_flush_amount c)))) (\<lambda>too_small.
     if too_small then Ok None
     else (case c_tx c of
             None \<Rightarrow> Ok None
           | Some tx \<Rightarrow>
               and_then (payload_of tx) (\<lambda>pl.
               and_then (unwrap (decode_nano_pay tc (unpack_payload pl))) (\<lambda>np.
                 if payload_type_from_i32 (pl_type pl) \<noteq> Some NanoPayType then Err ''not a NanoPay payload''
                 else and_then (send_raw_transaction tc tx) (\<lambda>_. Ok (Some (tx, np)))))))"

definition flush_end :: "int \<Rightarrow> nano_pay \<Rightarrow> claimer \<Rightarrow> claimer" where
  "flush_end now np c = c\<lparr>c_tx := None, c_expiration := 0, c_last_claim_time := now, c_prev_flush_amount := np_amount np\<rparr>"

text \<open>
  What the user waits for: nothing, the call of a flush, the call of the flush inside a claim, and the
  balance of a claim. A panic ends the user's task, and so does one of the background task end it; the
  mutexes that a panic poisons are left out, since they can only stop the other task at its next lock.
\<close>

datatype user_phase =
    UserIdle
  | UserFlushing nano_pay
  | ClaimFlushing transaction nano_pay u32 nano_pay   \<comment> \<open>the claim and its height; what is flushed\<close>
  | ClaimFunding transaction nano_pay u32
  | UserPanicked

text \<open>
  What the background task waits for: its minute, the height, with the time left of the claim interval
  in nanoseconds, the delay before a flush, the call of the flush.
\<close>

datatype task_phase = TaskSleeping | TaskHeight nat | TaskDelay nat | TaskSending nano_pay | TaskEnded

record claim_sys =
  cs_claimer :: claimer
  cs_user :: user_phase
  cs_task :: task_phase
  cs_sent :: "transaction list"     \<comment> \<open>the transactions whose sending was started\<close>

definition claim_sys_start :: "claimer \<Rightarrow> claim_sys" where
  "claim_sys_start c = \<lparr>cs_claimer = c, cs_user = UserIdle, cs_task = TaskSleeping, cs_sent = []\<rparr>"

section \<open>The user\<close>

definition settle_channel :: "profile \<Rightarrow> claimer \<Rightarrow> (claimer, string) outcome" where
  "settle_channel p c = and_then (add_s p (c_prev_claimed_amount c) (c_amount c)) (\<lambda>claimed.
     Ok (c\<lparr>c_id := None, c_prev_claimed_amount := claimed, c_prev_flush_amount := 0, c_amount := 0\<rparr>))"

text \<open>A claim from the height it got to the next thing it waits for.\<close>

definition claim_start ::
    "(transaction \<Rightarrow> u32 \<Rightarrow> (bool, string) outcome) \<Rightarrow> profile \<Rightarrow> tx_codec \<Rightarrow> u32 \<Rightarrow> transaction \<Rightarrow> claimer \<Rightarrow>
      (user_phase \<times> claimer \<times> transaction list, string) outcome" where
  "claim_start verify p tc height tx c =
     and_then (claim_check verify tc height c tx) (\<lambda>np.
       case c_id c of
         None \<Rightarrow> Ok (ClaimFunding tx np height, c, [])
       | Some i \<Rightarrow>
           if i = np_id np then
             (if sint (np_amount np) \<le> sint (c_amount c) then Err ''invalid amount''
              else Ok (ClaimFunding tx np height, c, []))
           else and_then (flush_begin p tc False c) (\<lambda>r. case r of
               None \<Rightarrow> and_then (settle_channel p c) (\<lambda>c. Ok (ClaimFunding tx np height, c, []))
             | Some (tx0, np0) \<Rightarrow> Ok (ClaimFlushing tx np height np0, c, [tx0])))"

text \<open>What the user does when idle, and what comes back from outside.\<close>

datatype user_event =
    Claim "(u32, string) outcome" transaction   \<comment> \<open>with the height it gets\<close>
  | Flush bool
  | Close
  | SentAnswer "(string, string) outcome" int   \<comment> \<open>and the time of the answer\<close>
  | BalanceAnswer "(i64, string) outcome"

definition user_move ::
    "(transaction \<Rightarrow> u32 \<Rightarrow> (bool, string) outcome) \<Rightarrow> profile \<Rightarrow> tx_codec \<Rightarrow> user_event \<Rightarrow> claim_sys \<Rightarrow> claim_sys option" where
  "user_move verify p tc ev s =
     (let c = cs_claimer s in
      case (cs_user s, ev) of
        (UserIdle, Claim got tx) \<Rightarrow>
          Some (case and_then got (\<lambda>height. claim_start verify p tc height tx c) of
                  Ok (ph, c, sent) \<Rightarrow> s\<lparr>cs_user := ph, cs_claimer := c, cs_sent := cs_sent s @ sent\<rparr>
                | Err _ \<Rightarrow> s
                | Panic \<Rightarrow> s\<lparr>cs_user := UserPanicked\<rparr>)
      | (UserIdle, Flush force) \<Rightarrow>
          Some (case flush_begin p tc force c of
                  Ok (Some (tx, np)) \<Rightarrow> s\<lparr>cs_user := UserFlushing np, cs_sent := cs_sent s @ [tx]\<rparr>
                | Panic \<Rightarrow> s\<lparr>cs_user := UserPanicked\<rparr>
                | _ \<Rightarrow> s)
      | (UserIdle, Close) \<Rightarrow> Some (s\<lparr>cs_claimer := claimer_close c\<rparr>)
      | (UserFlushing np, SentAnswer r now) \<Rightarrow>
          Some (case r of
                  Ok _ \<Rightarrow> s\<lparr>cs_user := UserIdle, cs_claimer := flush_end now np c\<rparr>
                | Err _ \<Rightarrow> s\<lparr>cs_user := UserIdle\<rparr>
                | Panic \<Rightarrow> s\<lparr>cs_user := UserPanicked\<rparr>)
      | (ClaimFlushing tx np height np0, SentAnswer r now) \<Rightarrow>
          Some (case r of
                  Ok _ \<Rightarrow>
                    (case settle_channel p (flush_end now np0 c) of
                       Ok c \<Rightarrow> s\<lparr>cs_user := ClaimFunding tx np height, cs_claimer := c\<rparr>
                     | _ \<Rightarrow> s\<lparr>cs_user := UserPanicked, cs_claimer := flush_end now np0 c\<rparr>)
                | Err _ \<Rightarrow> s\<lparr>cs_user := UserIdle\<rparr>
                | Panic \<Rightarrow> s\<lparr>cs_user := UserPanicked\<rparr>)
      | (ClaimFunding tx np height, BalanceAnswer r) \<Rightarrow>
          let (res, c) = accept_claim p \<lparr>got_height = Ok height, got_balance = r, got_sent = Panic, claim_time = 0\<rparr>
                height c np tx
          in Some (s\<lparr>cs_user := (case res of Panic \<Rightarrow> UserPanicked | _ \<Rightarrow> UserIdle), cs_claimer := c\<rparr>)
      | _ \<Rightarrow> None)"

section \<open>The background task\<close>

text \<open>
  How long the task waits before it flushes, given what is left of the claim interval, the height and
  the expiration of the transaction in hand; \<open>None\<close> when it flushes at once.
\<close>

definition flush_delay :: "profile \<Rightarrow> nat \<Rightarrow> u32 \<Rightarrow> u32 \<Rightarrow> (nat option, string) outcome" where
  "flush_delay p duration1 height expiration =
     and_then (add_u p height FORCE_FLUSH_DELTA) (\<lambda>limit.
       if limit < expiration then
         and_then (sub_u p expiration height) (\<lambda>blocks.
         and_then (add_u p blocks FORCE_FLUSH_DELTA) (\<lambda>blocks.
         and_then (mul_u p blocks CONSENSUS_DURATION) (\<lambda>secs.
           let duration2 = unat secs * 1000000000
           in Ok (Some (if duration2 < duration1 then duration2 else duration1)))))
       else Ok None)"

definition task_flush :: "profile \<Rightarrow> tx_codec \<Rightarrow> claim_sys \<Rightarrow> claim_sys" where
  "task_flush p tc s =
     (case flush_begin p tc False (cs_claimer s) of
        Ok None \<Rightarrow> s\<lparr>cs_task := TaskSleeping\<rparr>
      | Ok (Some (tx, np)) \<Rightarrow> s\<lparr>cs_task := TaskSending np, cs_sent := cs_sent s @ [tx]\<rparr>
      | _ \<Rightarrow> s\<lparr>cs_task := TaskEnded\<rparr>)"

text \<open>What wakes the task: the end of a sleep, with the time, the height, or the answer to the flush.\<close>

datatype task_event =
    Woken int
  | HeightAnswer "(u32, string) outcome"
  | FlushAnswer "(string, string) outcome" int

definition task_move :: "profile \<Rightarrow> tx_codec \<Rightarrow> nat \<Rightarrow> task_event \<Rightarrow> claim_sys \<Rightarrow> claim_sys option" where
  "task_move p tc claim_interval_ns ev s =
     (let c = cs_claimer s in
      case (cs_task s, ev) of
        (TaskSleeping, Woken now) \<Rightarrow>
          Some (if c_closed c then s\<lparr>cs_task := TaskEnded\<rparr>
            else if c_tx c = None then s
            else (case (sub_s p (c_amount c) (c_prev_flush_amount c) :: (i64, string) outcome) of
                Ok d \<Rightarrow>
                  if sint d < sint (c_min_flush_amount c) then s
                  else if now < 0 \<or> c_last_claim_time c < 0 then s\<lparr>cs_task := TaskEnded\<rparr>
                  else if now < c_last_claim_time c + int claim_interval_ns
                  then s\<lparr>cs_task := TaskHeight (nat (c_last_claim_time c + int claim_interval_ns - now))\<rparr>
                  else task_flush p tc s
              | _ \<Rightarrow> s\<lparr>cs_task := TaskEnded\<rparr>))
      | (TaskHeight duration1, HeightAnswer got) \<Rightarrow>
          Some (case got of
              Err _ \<Rightarrow> s\<lparr>cs_task := TaskSleeping\<rparr>
            | Panic \<Rightarrow> s\<lparr>cs_task := TaskEnded\<rparr>
            | Ok height \<Rightarrow>
                (case flush_delay p duration1 height (c_expiration c) of
                   Ok None \<Rightarrow> task_flush p tc s
                 | Ok (Some d) \<Rightarrow> s\<lparr>cs_task := TaskDelay d\<rparr>
                 | _ \<Rightarrow> s\<lparr>cs_task := TaskEnded\<rparr>))
      | (TaskDelay d, Woken now) \<Rightarrow>
          Some (if c_closed c then s\<lparr>cs_task := TaskEnded\<rparr> else task_flush p tc s)
      | (TaskSending np, FlushAnswer r now) \<Rightarrow>
          Some (case r of
                  Ok _ \<Rightarrow> s\<lparr>cs_task := TaskSleeping, cs_claimer := flush_end now np c\<rparr>
                | _ \<Rightarrow> s\<lparr>cs_task := TaskEnded\<rparr>)
      | _ \<Rightarrow> None)"

inductive claim_sys_step ::
    "(transaction \<Rightarrow> u32 \<Rightarrow> (bool, string) outcome) \<Rightarrow> profile \<Rightarrow> tx_codec \<Rightarrow> nat \<Rightarrow> claim_sys \<Rightarrow> claim_sys \<Rightarrow> bool"
  for verify p tc interval where
  user: "user_move verify p tc ev s = Some s' \<Longrightarrow> claim_sys_step verify p tc interval s s'"
| background: "task_move p tc interval tev s = Some s' \<Longrightarrow> claim_sys_step verify p tc interval s s'"

section \<open>One claim without a break\<close>

definition claim_phases ::
    "(transaction \<Rightarrow> u32 \<Rightarrow> (bool, string) outcome) \<Rightarrow> profile \<Rightarrow> tx_codec \<Rightarrow> claim_env \<Rightarrow> claimer \<Rightarrow> transaction \<Rightarrow>
      (i64, string) outcome \<times> claimer" where
  "claim_phases verify p tc env c tx =
     (case and_then (got_height env) (\<lambda>height. claim_start verify p tc height tx c) of
        Ok (ClaimFunding tx np height, d, _) \<Rightarrow> accept_claim p env height d np tx
      | Ok (ClaimFlushing tx np height np0, d, _) \<Rightarrow>
          (case and_then (got_sent env) (\<lambda>_. settle_channel p (flush_end (claim_time env) np0 d)) of
             Ok d \<Rightarrow> accept_claim p env height d np tx
           | Err e \<Rightarrow> (Err e, c)
           | Panic \<Rightarrow> (Panic, c))
      | Err e \<Rightarrow> (Err e, c)
      | _ \<Rightarrow> (Panic, c))"

lemma flush_fn_phases:
  "flush_fn p tc sent now force c = and_then (flush_begin p tc force c) (\<lambda>r. case r of
     None \<Rightarrow> Ok c | Some (tx, np) \<Rightarrow> and_then sent (\<lambda>_. Ok (flush_end now np c)))"
  by (auto simp: flush_fn_def flush_begin_def flush_end_def and_then_assoc split: option.splits
      intro!: arg_cong [of _ _ "and_then _"] ext)

lemma switch_id_phases:
  "switch_id p tc env c np =
     (case c_id c of
        None \<Rightarrow> Ok c
      | Some i \<Rightarrow>
          if i = np_id np then
            (if sint (np_amount np) \<le> sint (c_amount c) then Err ''invalid amount'' else Ok c)
          else and_then (flush_begin p tc False c) (\<lambda>r. case r of
              None \<Rightarrow> settle_channel p c
            | Some (tx0, np0) \<Rightarrow> and_then (got_sent env) (\<lambda>_. settle_channel p (flush_end (claim_time env) np0 c))))"
  by (auto simp: switch_id_def flush_fn_phases and_then_assoc settle_channel_def split: option.splits
      intro!: arg_cong [of _ _ "and_then _"] ext)

text \<open>The phases of a claim, one after the other, are the claim.\<close>

lemma claim_with_phases: "claim_with verify p tc env c tx = claim_phases verify p tc env c tx"
proof (cases "and_then (got_height env) (\<lambda>height. and_then (claim_check verify tc height c tx) (\<lambda>np. Ok (height, np)))")
  case (Ok hn)
  then obtain height np where h: "got_height env = Ok height" "claim_check verify tc height c tx = Ok np"
    by (auto simp: outcome_simps)
  show ?thesis
  proof (cases "flush_begin p tc False c")
    case (Ok r)
    then show ?thesis
      by (auto simp: claim_with_def claim_phases_def claim_start_def switch_id_phases h outcome_simps and_then_Err_iff and_then_Panic_iff
          split: option.splits outcome.splits)
  qed (auto simp: claim_with_def claim_phases_def claim_start_def switch_id_phases h split: option.splits)
next
  case (Err e)
  then show ?thesis
    by (cases "got_height env") (auto simp: claim_with_def claim_phases_def claim_start_def and_then_Err_iff)
next
  case Panic
  then show ?thesis
    by (cases "got_height env") (auto simp: claim_with_def claim_phases_def claim_start_def and_then_Panic_iff)
qed

section \<open>The ledger\<close>

text \<open>
  What a claimer is for, as a specification: the channel in force with its amount, and what the
  channels before it came to. The channel is settled, or a verified transaction puts an amount on it:
  on a new channel any, on the channel in force a larger one.
\<close>

type_synonym ledger = "u64 option \<times> int \<times> int"

inductive ledger_move ::
    "(transaction \<Rightarrow> u32 \<Rightarrow> (bool, string) outcome) \<Rightarrow> tx_codec \<Rightarrow> ledger \<Rightarrow> ledger \<Rightarrow> bool"
  for verify tc where
  settled: "ledger_move verify tc (Some i, amount, before) (None, 0, before + amount)"
| accepted: "\<lbrakk>verify tx height = Ok True; nanopay_of tc tx = Ok np;
    ch = None \<or> ch = Some (np_id np) \<and> amount < sint (np_amount np)\<rbrakk> \<Longrightarrow>
    ledger_move verify tc (ch, amount, before) (Some (np_id np), sint (np_amount np), before)"

definition ledger_abs :: "claimer \<Rightarrow> ledger" where
  "ledger_abs c = (c_id c, sint (c_amount c), sint (c_prev_claimed_amount c))"

definition ledger_total :: "ledger \<Rightarrow> int" where
  "ledger_total l = fst (snd l) + snd (snd l)"

definition ledger_ok :: "ledger \<Rightarrow> bool" where
  "ledger_ok l \<longleftrightarrow> (fst l = None \<longrightarrow> fst (snd l) = 0)"

lemma claimed_ledger_total: "claimed c = ledger_total (ledger_abs c)"
  by (simp add: claimed_def ledger_total_def ledger_abs_def)

lemma ledger_move_ok: "ledger_move verify tc l l' \<Longrightarrow> ledger_ok l'"
  by (induction rule: ledger_move.induct) (simp_all add: ledger_ok_def)

text \<open>Verified transactions do not have negative amounts.\<close>

definition verified_amounts :: "(transaction \<Rightarrow> u32 \<Rightarrow> (bool, string) outcome) \<Rightarrow> tx_codec \<Rightarrow> bool" where
  "verified_amounts verify tc \<longleftrightarrow>
     (\<forall>tx height np. verify tx height = Ok True \<and> nanopay_of tc tx = Ok np \<longrightarrow> 0 \<le> sint (np_amount np))"

lemma ledger_run_total:
  assumes "(ledger_move verify tc)\<^sup>*\<^sup>* l l'" and "ledger_ok l" and "verified_amounts verify tc"
  shows "ledger_total l \<le> ledger_total l'"
  using assms(1)
proof (induction rule: rtranclp_induct)
  case (step m m')
  have "ledger_ok m" using step.hyps(1) assms(2) ledger_move_ok by (induction rule: rtranclp_induct) auto
  with step.hyps(2) have "ledger_total m \<le> ledger_total m'"
    using assms(3) by cases (auto simp: ledger_ok_def ledger_total_def verified_amounts_def)
  then show ?case using step.IH by simp
qed simp

section \<open>The interleaving refines the ledger\<close>

text \<open>What a claim that waits has established, whatever the background task does meanwhile.\<close>

fun phase_ok ::
    "(transaction \<Rightarrow> u32 \<Rightarrow> (bool, string) outcome) \<Rightarrow> tx_codec \<Rightarrow> claimer \<Rightarrow> user_phase \<Rightarrow> bool" where
  "phase_ok verify tc c (ClaimFunding tx np height) \<longleftrightarrow> verify tx height = Ok True \<and> nanopay_of tc tx = Ok np \<and>
     (c_id c = None \<or> c_id c = Some (np_id np) \<and> sint (c_amount c) < sint (np_amount np))"
| "phase_ok verify tc c (ClaimFlushing tx np height np0) \<longleftrightarrow> verify tx height = Ok True \<and> nanopay_of tc tx = Ok np \<and>
     c_id c \<noteq> None"
| "phase_ok verify tc c _ \<longleftrightarrow> True"

definition claim_sys_inv :: "(transaction \<Rightarrow> u32 \<Rightarrow> (bool, string) outcome) \<Rightarrow> tx_codec \<Rightarrow> claim_sys \<Rightarrow> bool" where
  "claim_sys_inv verify tc s \<longleftrightarrow> phase_ok verify tc (cs_claimer s) (cs_user s)"

lemma flush_end_ledger [simp]:
  "ledger_abs (flush_end now np c) = ledger_abs c" "c_id (flush_end now np c) = c_id c"
  "c_amount (flush_end now np c) = c_amount c"
  by (simp_all add: flush_end_def ledger_abs_def)

lemma phase_ok_cong: "ledger_abs c' = ledger_abs c \<Longrightarrow> phase_ok verify tc c' ph = phase_ok verify tc c ph"
  by (cases ph) (auto simp: ledger_abs_def)

lemma task_flush_claimer [simp]:
  "cs_claimer (task_flush p tc s) = cs_claimer s" "cs_user (task_flush p tc s) = cs_user s"
  by (auto simp: task_flush_def split: outcome.splits option.splits)

text \<open>The background task never touches the ledger.\<close>

lemma task_move_ledger:
  assumes "task_move p tc interval ev s = Some s'"
  shows "ledger_abs (cs_claimer s') = ledger_abs (cs_claimer s) \<and> cs_user s' = cs_user s"
  using assms by (auto simp: task_move_def Let_def split: task_phase.splits task_event.splits outcome.splits option.splits if_splits)

lemma claim_check_Ok:
  "claim_check verify tc height c tx = Ok np \<Longrightarrow> nanopay_of tc tx = Ok np \<and> verify tx height = Ok True"
  by (auto simp: claim_check_def outcome_simps split: if_splits)

lemma settle_channel_ledger:
  assumes "settle_channel Debug c = Ok c'" and "c_id c \<noteq> None"
  shows "ledger_move verify tc (ledger_abs c) (ledger_abs c')" and "c_id c' = None"
proof -
  have "ledger_abs c' = (None, 0, sint (c_prev_claimed_amount c) + sint (c_amount c))" "c_id c' = None"
    using assms(1) by (auto simp: settle_channel_def outcome_simps ledger_abs_def dest: add_s_Debug)
  then show "ledger_move verify tc (ledger_abs c) (ledger_abs c')" "c_id c' = None"
    using assms(2) ledger_move.settled by (auto simp: ledger_abs_def)
qed

lemma claim_start_ledger:
  assumes "claim_start verify Debug tc height tx c = Ok (ph, c', sent)"
  shows "(ledger_move verify tc)\<^sup>*\<^sup>* (ledger_abs c) (ledger_abs c') \<and> phase_ok verify tc c' ph"
proof -
  obtain np where np: "claim_check verify tc height c tx = Ok np"
    using assms by (auto simp: claim_start_def outcome_simps)
  note ok = claim_check_Ok [OF np]
  show ?thesis
    using assms ok settle_channel_ledger [of c]
    by (fastforce simp: claim_start_def np outcome_simps not_le split: option.splits if_splits)
qed

lemma accept_claim_ledger:
  assumes "phase_ok verify tc c (ClaimFunding tx np height)" and "accept_claim p env height c np tx = (r, c')"
  shows "(ledger_move verify tc)\<^sup>*\<^sup>* (ledger_abs c) (ledger_abs c')"
proof -
  have "ledger_move verify tc (ledger_abs c) (Some (np_id np), sint (np_amount np), sint (c_prev_claimed_amount c))"
    using assms(1) unfolding ledger_abs_def by (intro ledger_move.accepted [of _ tx height]) auto
  then show ?thesis using accept_claim_cases [OF assms(2)] by (auto simp: ledger_abs_def)
qed

lemma user_move_ledger:
  assumes "user_move verify Debug tc ev s = Some s'" and "claim_sys_inv verify tc s"
  shows "(ledger_move verify tc)\<^sup>*\<^sup>* (ledger_abs (cs_claimer s)) (ledger_abs (cs_claimer s')) \<and> claim_sys_inv verify tc s'"
proof (cases "cs_user s")
  case UserIdle
  then show ?thesis
  proof (cases ev)
    case (Claim got tx)
    then show ?thesis using assms UserIdle claim_start_ledger
      by (auto simp: user_move_def claim_sys_inv_def Let_def outcome_simps split: outcome.splits)
  qed (use assms UserIdle in \<open>auto simp: user_move_def claim_sys_inv_def Let_def claimer_close_def ledger_abs_def
      split: outcome.splits option.splits\<close>)
next
  case (ClaimFlushing tx np height np0)
  then have ph: "verify tx height = Ok True" "nanopay_of tc tx = Ok np" "c_id (cs_claimer s) \<noteq> None"
    using assms(2) by (simp_all add: claim_sys_inv_def)
  have "(ledger_move verify tc)\<^sup>*\<^sup>* (ledger_abs (cs_claimer s)) (ledger_abs d) \<and> c_id d = None"
    if "settle_channel Debug (flush_end now np0 (cs_claimer s)) = Ok d" for now d
    using settle_channel_ledger [OF that] ph(3) by auto
  then show ?thesis using assms(1) ClaimFlushing ph
    by (auto simp: user_move_def claim_sys_inv_def Let_def split: user_event.splits outcome.splits)
next
  case (ClaimFunding tx np height)
  then show ?thesis using assms accept_claim_ledger
    by (auto simp: user_move_def claim_sys_inv_def Let_def split: user_event.splits prod.splits outcome.splits)
qed (use assms in \<open>auto simp: user_move_def claim_sys_inv_def Let_def split: user_event.splits outcome.splits\<close>)

lemma claim_sys_step_ledger:
  assumes "claim_sys_step verify Debug tc interval s t" and "claim_sys_inv verify tc s"
  shows "(ledger_move verify tc)\<^sup>*\<^sup>* (ledger_abs (cs_claimer s)) (ledger_abs (cs_claimer t)) \<and> claim_sys_inv verify tc t"
  using assms(1)
proof cases
  case (user ev)
  show ?thesis using user_move_ledger [OF user assms(2)] .
next
  case (background ev)
  have same: "ledger_abs (cs_claimer t) = ledger_abs (cs_claimer s)" "cs_user t = cs_user s"
    using task_move_ledger [OF background] by simp_all
  have "claim_sys_inv verify tc t"
    using assms(2) unfolding claim_sys_inv_def same(2) phase_ok_cong [OF same(1)] .
  then show ?thesis using same(1) by simp
qed

interpretation claim_sys: simulation "claim_sys_step verify Debug tc interval" "claim_sys_inv verify tc"
    "ledger_move verify tc" "\<lambda>s. ledger_abs (cs_claimer s)"
  by unfold_locales (rule conjunct2 [OF claim_sys_step_ledger] conjunct1 [OF claim_sys_step_ledger], assumption+)+

text \<open>
  A run for the witnesses, with a codec whose transactions encode to text: a claim of 30, a flush of it
  by the background task, and a claim of 50 on the same channel before the flush comes back.
\<close>

definition text_codec :: tx_codec where
  "text_codec = demo_tx_codec\<lparr>encode_pb_tx := (\<lambda>_. [])\<rparr>"

definition demo_hash :: bytes where
  "demo_hash = create_program_hash demo (as_bytes (replicate 32 (CHR ''a'')))"

definition demo_np :: "i64 \<Rightarrow> nano_pay" where
  "demo_np a = \<lparr>np_sender = replicate 20 2, np_recipient = demo_hash, np_id = 7, np_amount = a, np_txn_expiration = 100,
     np_nano_pay_expiration = 200\<rparr>"

definition demo_tx :: "i64 \<Rightarrow> transaction" where
  "demo_tx a = tx_new_nanopay demo_tx_codec [] (replicate 20 2) demo_hash 7 a 100 200"

definition demo_state :: "u64 option \<Rightarrow> i64 \<Rightarrow> u32 \<Rightarrow> transaction option \<Rightarrow> claimer" where
  "demo_state i amount expiration tx = \<lparr>c_recipient_address = replicate 32 (CHR ''a''), c_recipient_hash = demo_hash,
     c_id = i, c_min_flush_amount = 10, c_amount = amount, c_closed = False, c_expiration = expiration,
     c_last_claim_time = 0, c_prev_claimed_amount = 0, c_prev_flush_amount = 0, c_tx = tx\<rparr>"

abbreviation demo_verify :: "transaction \<Rightarrow> u32 \<Rightarrow> (bool, string) outcome" where
  "demo_verify \<equiv> \<lambda>tx h. Ok True"

lemma demo_claimer_new: "claimer_new demo (replicate 32 (CHR ''a'')) 10 0 = Ok (demo_state None 0 0 None)"
  by (simp add: claimer_new_def address_key_def demo_state_def demo_hash_def)

lemma length_demo_hash: "length demo_hash = 20"
  by (simp add: demo_hash_def create_program_hash_def to_code_hash_def ripemd160_hash_def demo_def)

lemma demo_tx_payload:
  "payload_of (demo_tx a) = Ok (pack_payload demo_tx_codec NanoPayType (NanoPayMsg (demo_np a)))"
  by (simp add: demo_tx_def payload_of_nanopay new_nanopay_def demo_np_def)

lemma text_codec_decode [simp]: "decode_nano_pay text_codec = decode_nano_pay demo_tx_codec"
  by (simp add: text_codec_def)

lemma demo_tx_nanopay: "nanopay_of text_codec (demo_tx a) = Ok (demo_np a)"
  using nanopay_of_payload [OF demo_tx_codec_laws demo_tx_payload, of a] by (simp add: nanopay_of_def cong: if_cong)

lemma demo_tx_inject:
  assumes "demo_tx a = demo_tx b"
  shows "a = b"
proof -
  have "demo_np a = demo_np b" using demo_tx_nanopay [of a] demo_tx_nanopay [of b] unfolding assms by simp
  then show ?thesis by (simp add: demo_np_def)
qed

lemma demo_claim_start:
  "sint (c_amount c) < sint a \<Longrightarrow> c_id c \<in> {None, Some 7} \<Longrightarrow> c_recipient_hash c = demo_hash \<Longrightarrow> \<not> c_closed c \<Longrightarrow>
     claim_start demo_verify Debug text_codec 1 (demo_tx a) c = Ok (ClaimFunding (demo_tx a) (demo_np a) 1, c, [])"
  using length_demo_hash
  by (auto simp: claim_start_def claim_check_def demo_tx_nanopay uint160_from_bytes_def demo_np_def)

lemma demo_flush_begin:
  "flush_begin Debug text_codec False (demo_state (Some 7) 30 100 (Some (demo_tx 30))) = Ok (Some (demo_tx 30, demo_np 30))"
proof -
  have "decode_nano_pay text_codec (unpack_payload (pack_payload demo_tx_codec NanoPayType (NanoPayMsg (demo_np 30)))) = Some (demo_np 30)"
    using demo_tx_codec_laws by (simp add: unpack_payload_def pack_payload_def tx_codec_laws_def)
  then show ?thesis
    using payload_type_roundtrip [of NanoPayType]
    by (simp add: flush_begin_def demo_state_def arith_defs demo_tx_payload send_raw_transaction_def text_codec_def
        tx_encode_def from_utf8_def pack_payload_def)
qed

definition demo_sys :: "claimer \<Rightarrow> user_phase \<Rightarrow> task_phase \<Rightarrow> transaction list \<Rightarrow> claim_sys" where
  "demo_sys c u t sent = \<lparr>cs_claimer = c, cs_user = u, cs_task = t, cs_sent = sent\<rparr>"

abbreviation demo_race :: claim_sys where
  "demo_race \<equiv> demo_sys (demo_state (Some 7) 30 100 (Some (demo_tx 30))) (ClaimFunding (demo_tx 50) (demo_np 50) 1)
     (TaskSending (demo_np 30)) [demo_tx 30]"

lemma demo_accept:
  assumes "0 \<le> sint b" and "sint b \<le> 100"
  shows "user_move demo_verify Debug text_codec (BalanceAnswer (Ok 100))
      (demo_sys (demo_state i a e tx) (ClaimFunding (demo_tx b) (demo_np b) 1) t sent) =
    Some (demo_sys (demo_state (Some 7) b 100 (Some (demo_tx b))) UserIdle t sent)"
  using assms by (simp add: user_move_def Let_def demo_sys_def accept_claim_def arith_defs demo_state_def demo_np_def)

lemma demo_task_flush:
  "task_flush Debug text_codec (demo_sys (demo_state (Some 7) 30 100 (Some (demo_tx 30))) u t sent) =
     demo_sys (demo_state (Some 7) 30 100 (Some (demo_tx 30))) u (TaskSending (demo_np 30)) (sent @ [demo_tx 30])"
  by (simp add: task_flush_def demo_sys_def demo_flush_begin)

lemma demo_woken:
  "task_move Debug text_codec 0 (Woken 1) (demo_sys (demo_state (Some 7) 30 100 (Some (demo_tx 30))) u TaskSleeping sent) =
     Some (task_flush Debug text_codec (demo_sys (demo_state (Some 7) 30 100 (Some (demo_tx 30))) u TaskSleeping sent))"
  by (simp add: task_move_def demo_sys_def demo_state_def arith_defs)

lemma demo_race_reached:
  "(claim_sys_step demo_verify Debug text_codec 0)\<^sup>*\<^sup>* (claim_sys_start (demo_state None 0 0 None)) demo_race"
proof -
  let ?step = "claim_sys_step demo_verify Debug text_codec 0"
  let ?c = "demo_state (Some 7) 30 100 (Some (demo_tx 30))"
  have "?step (claim_sys_start (demo_state None 0 0 None))
      (demo_sys (demo_state None 0 0 None) (ClaimFunding (demo_tx 30) (demo_np 30) 1) TaskSleeping [])"
    by (rule claim_sys_step.user [of _ _ _ "Claim (Ok 1) (demo_tx 30)"])
      (simp add: user_move_def claim_sys_start_def demo_sys_def demo_claim_start demo_state_def)
  moreover have "?step (demo_sys (demo_state None 0 0 None) (ClaimFunding (demo_tx 30) (demo_np 30) 1) TaskSleeping [])
      (demo_sys ?c UserIdle TaskSleeping [])"
    by (rule claim_sys_step.user [of _ _ _ "BalanceAnswer (Ok 100)"]) (simp add: demo_accept)
  moreover have "?step (demo_sys ?c UserIdle TaskSleeping []) (demo_sys ?c UserIdle (TaskSending (demo_np 30)) [demo_tx 30])"
    by (rule claim_sys_step.background [of _ _ _ "Woken 1"])
      (simp add: demo_woken demo_task_flush)
  moreover have "?step (demo_sys ?c UserIdle (TaskSending (demo_np 30)) [demo_tx 30]) demo_race"
    by (rule claim_sys_step.user [of _ _ _ "Claim (Ok 1) (demo_tx 50)"])
      (simp add: user_move_def demo_sys_def demo_claim_start demo_state_def)
  ultimately show ?thesis by (meson converse_rtranclp_into_rtranclp rtranclp.rtrancl_refl)
qed

lemma task_move_no_tx:
  assumes "task_move p tc interval ev s = Some s'" and "c_tx (cs_claimer s) = None"
    and "cs_task s \<in> {TaskSleeping, TaskEnded}"
  shows "s' = s \<or> s' = s\<lparr>cs_task := TaskEnded\<rparr>"
  using assms by (auto simp: task_move_def Let_def split: task_event.splits if_splits)

section \<open>Properties\<close>

text \<open>C36: the claimer refines a ledger, in a debug build, for any verification of transactions and however the
  background task interleaves with the user. From a new claimer every run is a run of the ledger:
  amounts come only from verified transactions, on the channel in force only larger ones, and a
  channel is settled before another begins. If verified amounts are not negative, what the claimer
  counts on never shrinks.\<close>

theorem claimer_refines_ledger:
  assumes "claimer_new cr address min_flush_amount now = Ok c"
    and "(claim_sys_step verify Debug tc interval)\<^sup>*\<^sup>* (claim_sys_start c) s"
  shows "(ledger_move verify tc)\<^sup>*\<^sup>* (None, 0, 0) (ledger_abs (cs_claimer s)) \<and>
    (\<forall>s'. verified_amounts verify tc \<and> (claim_sys_step verify Debug tc interval)\<^sup>*\<^sup>* s s' \<longrightarrow>
       claimed (cs_claimer s) \<le> claimed (cs_claimer s'))"
proof -
  have start: "ledger_abs c = (None, 0, 0)" "claim_sys_inv verify tc (claim_sys_start c)"
    using assms(1) by (auto simp: claimer_new_def outcome_simps ledger_abs_def claim_sys_start_def claim_sys_inv_def)
  have run: "(ledger_move verify tc)\<^sup>*\<^sup>* (None, 0, 0) (ledger_abs (cs_claimer s))"
    using claim_sys.simulated_run [OF assms(2) start(2)] start(1) by (simp add: claim_sys_start_def)
  have inv: "claim_sys_inv verify tc s" using claim_sys.run [OF assms(2) start(2)] .
  have "ledger_ok (ledger_abs (cs_claimer s))"
    using run by (cases rule: rtranclp.cases) (auto simp: ledger_ok_def dest: ledger_move_ok)
  then have "claimed (cs_claimer s) \<le> claimed (cs_claimer s')"
    if "verified_amounts verify tc" "(claim_sys_step verify Debug tc interval)\<^sup>*\<^sup>* s s'" for s'
    using ledger_run_total [OF claim_sys.simulated_run [OF that(2) inv]] that(1) by (simp add: claimed_ledger_total)
  then show ?thesis using run by blast
qed

theorem claimer_refines_ledger_witness:
  "\<exists>s. (claim_sys_step demo_verify Debug text_codec 0)\<^sup>*\<^sup>* (claim_sys_start (demo_state None 0 0 None)) s \<and>
     cs_task s = TaskSending (demo_np 30) \<and> (ledger_move demo_verify text_codec)\<^sup>*\<^sup>* (None, 0, 0) (ledger_abs (cs_claimer s)) \<and>
     ledger_abs (cs_claimer s) = (Some 7, 30, 0)"
  using claimer_refines_ledger [OF demo_claimer_new demo_race_reached] demo_race_reached
  by (intro exI [of _ demo_race]) (simp add: demo_sys_def demo_state_def ledger_abs_def)





end
