(* ===== verification/Client.thy ===== *)
theory Client
  imports Address SigChain Wallet Rpc Errors
begin

text \<open>
  \<^verbatim>\<open>src/client.rs\<close> and \<^verbatim>\<open>src/message.rs\<close>: what a client sends and how it handles what it receives. The
  messages are those of \<^verbatim>\<open>protos/payloads.proto\<close> and \<^verbatim>\<open>protos/clientmessage.proto\<close>, their generated
  encoders the parameter \<open>client_codec\<close>. Random bytes, RPC results and the parsed JSON of a control
  message are arguments; the WebSocket and the channels are effects. The state behind the mutexes
  is the record \<open>client_state\<close>.
\<close>

section \<open>Messages\<close>

record msg_payload =
  pp_type :: i32
  pp_message_id :: bytes
  pp_data :: bytes
  pp_reply_to_id :: bytes
  pp_no_reply :: bool

record pb_message =
  pm_payload :: bytes
  pm_encrypted :: bool
  pm_nonce :: bytes
  pm_encrypted_key :: bytes

record outbound_message =
  om_dest :: string
  om_dests :: "string list"
  om_payload :: bytes
  om_max_holding_seconds :: u32
  om_nonce :: u32
  om_block_hash :: bytes
  om_signatures :: "bytes list"
  om_payloads :: "bytes list"

record inbound_message =
  im_src :: string
  im_payload :: bytes
  im_prev_hash :: bytes

datatype client_message_type = OutboundMessage | InboundMessage | ReceiptMessage

datatype compression_type = CompressionNone | CompressionZlib

record client_message =
  cm_type :: "client_message_type option"      \<comment> \<open>\<open>None\<close>: a number that is no message type\<close>
  cm_message :: bytes
  cm_compression :: compression_type

record client_codec =
  enc_msg_payload :: "msg_payload \<Rightarrow> bytes"
  dec_msg_payload :: "bytes \<Rightarrow> msg_payload option"
  enc_pb_message :: "pb_message \<Rightarrow> bytes"
  dec_pb_message :: "bytes \<Rightarrow> pb_message option"
  enc_outbound :: "outbound_message \<Rightarrow> bytes"
  dec_inbound :: "bytes \<Rightarrow> inbound_message option"
  enc_client_message :: "client_message \<Rightarrow> bytes"
  dec_client_message :: "bytes \<Rightarrow> client_message option"
  enc_receipt :: "bytes \<Rightarrow> bytes \<Rightarrow> bytes"       \<comment> \<open>previous hash, signature\<close>
  dec_text_data :: "bytes \<Rightarrow> string option"

record message =
  m_src :: string
  m_data :: bytes
  m_type :: u32
  m_encrypted :: bool
  m_message_id :: bytes
  m_no_reply :: bool

record message_config =
  mc_unencrypted :: bool
  mc_no_reply :: bool
  mc_max_holding_secs :: u32
  mc_message_id :: bytes
  mc_tx_pool :: bool
  mc_offset :: u32
  mc_limit :: u32

definition default_message_config :: message_config where
  "default_message_config = \<lparr>mc_unencrypted = False, mc_no_reply = False, mc_max_holding_secs = 10000,
     mc_message_id = [], mc_tx_pool = False, mc_offset = 0, mc_limit = 1000\<rparr>"

record client_config =
  cc_rpc_server_address :: "string list"
  cc_rpc_timeout :: u64
  cc_rpc_concurrency :: u32
  cc_msg_chan_length :: u32
  cc_connect_retries :: u32
  cc_msg_cache_expiration :: u32
  cc_msg_cache_cleanup_interval :: u32
  cc_ws_handshake_timeout :: u64
  cc_ws_write_timeout :: u64
  cc_min_reconnect_interval :: u64
  cc_max_reconnect_interval :: u64
  cc_message_config :: "message_config option"

definition default_client_config :: client_config where
  "default_client_config = \<lparr>cc_rpc_server_address = DEFAULT_RPC_SERVER, cc_rpc_timeout = DEFAULT_RPC_TIMEOUT,
     cc_rpc_concurrency = DEFAULT_RPC_CONCURRENCY, cc_msg_chan_length = 1024, cc_connect_retries = 3,
     cc_msg_cache_expiration = 300000, cc_msg_cache_cleanup_interval = 60000,
     cc_ws_handshake_timeout = 5000, cc_ws_write_timeout = 10000, cc_min_reconnect_interval = 1000,
     cc_max_reconnect_interval = 64000, cc_message_config = None\<rparr>"

definition client_config_to_rpc_config :: "client_config \<Rightarrow> rpc_config" where
  "client_config_to_rpc_config config = \<lparr>rpc_server_address = cc_rpc_server_address config,
     rpc_timeout = cc_rpc_timeout config, rpc_concurrency = cc_rpc_concurrency config\<rparr>"

definition MAX_CLIENT_MESSAGE_SIZE :: nat where [simp]: "MAX_CLIENT_MESSAGE_SIZE = 4000000"
definition PING_INTERVAL :: u64 where [simp]: "PING_INTERVAL = 8"
definition PONG_TIMEOUT :: u64 where [simp]: "PONG_TIMEOUT = 10"

section \<open>Destinations\<close>

text \<open>
  \<open>process_dests\<close>: a last component shorter than a hex public key is a name to look up;
  \<open>lookup\<close> is the registrant that \<^verbatim>\<open>get_registrant\<close> returns. Names that cannot be resolved are dropped.
\<close>

definition process_dest :: "(string \<Rightarrow> (registrant, string) outcome) \<Rightarrow> string \<Rightarrow> (string option, string) outcome" where
  "process_dest lookup dest =
     (let address = split_on (CHR ''.'') dest in
      if length (last address) < 2 * PUBLIC_KEY_LEN then
        (case lookup (last address) of
           Ok reg \<Rightarrow> Ok (if r_registrant reg = [] then None
             else Some (join_with ''.'' (butlast address @ [r_registrant reg])))
         | Err _ \<Rightarrow> Ok None
         | Panic \<Rightarrow> Panic)
      else Ok (Some (join_with ''.'' address)))"

definition process_dests ::
    "(string \<Rightarrow> (registrant, string) outcome) \<Rightarrow> string list \<Rightarrow> (string list, string) outcome" where
  "process_dests lookup dests =
     (if dests = [] then Ok []
      else
        and_then (map_outcome (process_dest lookup) dests) (\<lambda>found.
          let processed_dests = List.map_filter (\<lambda>d. d) found
          in if processed_dests = [] then Err ''invalid destination'' else Ok processed_dests))"

section \<open>Encryption\<close>

text \<open>The random bytes of one call: message key, message nonce, a nonce for each destination.\<close>

record enc_random =
  rand_key :: bytes
  rand_nonce :: bytes
  rand_key_nonces :: "bytes list"

text \<open>
  One destination of a message to several: the shared key comes from the cache or is put there.
\<close>

definition encrypt_key_for ::
    "crates \<Rightarrow> client_codec \<Rightarrow> bytes \<Rightarrow> bytes \<Rightarrow> bytes \<Rightarrow> bytes \<Rightarrow> bytes \<Rightarrow> string \<Rightarrow> key_cache \<Rightarrow>
      (bytes, string) outcome \<times> key_cache" where
  "encrypt_key_for cr cc curve_secret_key encrypted_payload key msg_nonce key_nonce dest cache =
     (case parse_client_address cr dest of
        Ok (_, dpk, _) \<Rightarrow>
          let (got, cache) = get_or_compute_shared_key cr dpk curve_secret_key cache
          in (and_then got (\<lambda>shared_key.
              and_then (encrypt cr key key_nonce shared_key) (\<lambda>encrypted_key.
                Ok (enc_pb_message cc \<lparr>pm_payload = encrypted_payload, pm_encrypted = True,
                  pm_nonce = key_nonce @ msg_nonce, pm_encrypted_key = encrypted_key\<rparr>))), cache)
      | Err e \<Rightarrow> (Err e, cache)
      | Panic \<Rightarrow> (Panic, cache))"

fun encrypt_keys ::
    "crates \<Rightarrow> client_codec \<Rightarrow> bytes \<Rightarrow> bytes \<Rightarrow> bytes \<Rightarrow> bytes \<Rightarrow> (string \<times> bytes) list \<Rightarrow> key_cache \<Rightarrow>
      (bytes list, string) outcome \<times> key_cache" where
  "encrypt_keys cr cc sk ep key msg_nonce [] cache = (Ok [], cache)"
| "encrypt_keys cr cc sk ep key msg_nonce ((dest, key_nonce) # rest) cache =
     (let (r, cache) = encrypt_key_for cr cc sk ep key msg_nonce key_nonce dest cache
      in case r of
           Ok msg \<Rightarrow>
             let (rs, cache) = encrypt_keys cr cc sk ep key msg_nonce rest cache
             in (and_then rs (\<lambda>msgs. Ok (msg # msgs)), cache)
         | Err e \<Rightarrow> (Err e, cache)
         | Panic \<Rightarrow> (Panic, cache))"

definition encrypt_payload ::
    "crates \<Rightarrow> client_codec \<Rightarrow> enc_random \<Rightarrow> msg_payload \<Rightarrow> string list \<Rightarrow> bytes \<Rightarrow> key_cache \<Rightarrow>
      (bytes list, string) outcome \<times> key_cache" where
  "encrypt_payload cr cc rnd pl dests curve_secret_key cache =
     (let raw_payload = enc_msg_payload cc pl in
      if 1 < length dests then
        (case encrypt cr raw_payload (rand_nonce rnd) (rand_key rnd) of
           Ok encrypted_payload \<Rightarrow>
             encrypt_keys cr cc curve_secret_key encrypted_payload (rand_key rnd) (rand_nonce rnd)
               (zip dests (rand_key_nonces rnd)) cache
         | Err e \<Rightarrow> (Err e, cache)
         | Panic \<Rightarrow> (Panic, cache))
      else
        (case dests of
           [] \<Rightarrow> (Panic, cache)
         | dest # _ \<Rightarrow>
             (case parse_client_address cr dest of
                Ok (_, dpk, _) \<Rightarrow>
                  let (got, cache) = get_or_compute_shared_key cr dpk curve_secret_key cache
                  in (and_then got (\<lambda>shared_key.
                      and_then (encrypt cr raw_payload (rand_nonce rnd) shared_key) (\<lambda>encrypted_payload.
                        Ok [enc_pb_message cc \<lparr>pm_payload = encrypted_payload, pm_encrypted = True,
                          pm_nonce = rand_nonce rnd, pm_encrypted_key = []\<rparr>])), cache)
              | Err e \<Rightarrow> (Err e, cache)
              | Panic \<Rightarrow> (Panic, cache))))"

text \<open>
  \<open>decrypt_payload\<close>; a failed decryption is unwrapped, and the slices of the nonce panic when it is
  shorter than the key's nonce.
\<close>

definition decrypt_payload ::
    "crates \<Rightarrow> pb_message \<Rightarrow> string \<Rightarrow> bytes \<Rightarrow> key_cache \<Rightarrow> (bytes, string) outcome \<times> key_cache" where
  "decrypt_payload cr msg src_address curve_secret_key cache =
     (case parse_client_address cr src_address of
        Ok (_, spk, _) \<Rightarrow>
          let (got, cache) = get_or_compute_shared_key cr spk curve_secret_key cache
          in (and_then got (\<lambda>shared_key.
              if pm_encrypted_key msg \<noteq> [] then
                if length (pm_nonce msg) < NONCE_SIZE then Panic
                else and_then (unwrap_result (decrypt cr (pm_encrypted_key msg) (take NONCE_SIZE (pm_nonce msg)) shared_key))
                  (\<lambda>key. unwrap_result (decrypt cr (pm_payload msg) (drop NONCE_SIZE (pm_nonce msg)) key))
              else unwrap_result (decrypt cr (pm_payload msg) (pm_nonce msg) shared_key)), cache)
      | Err e \<Rightarrow> (Err e, cache)
      | Panic \<Rightarrow> (Panic, cache))"

definition create_payloads ::
    "crates \<Rightarrow> client_codec \<Rightarrow> enc_random \<Rightarrow> string list \<Rightarrow> msg_payload \<Rightarrow> bool \<Rightarrow> bytes \<Rightarrow> key_cache \<Rightarrow>
      (bytes list, string) outcome \<times> key_cache" where
  "create_payloads cr cc rnd dests pl encrypted curve_secret_key cache =
     (if encrypted then encrypt_payload cr cc rnd pl dests curve_secret_key cache
      else (Ok [enc_pb_message cc \<lparr>pm_payload = enc_msg_payload cc pl, pm_encrypted = False,
              pm_nonce = [], pm_encrypted_key = []\<rparr>], cache))"

section \<open>Outbound messages\<close>

text \<open>What identifies the sender, and the node it is connected to.\<close>

record sender =
  snd_public_key :: bytes
  snd_private_key :: bytes
  snd_address_id :: bytes
  snd_node :: "node option"
  snd_block_hash :: "string option"

definition sign_dest ::
    "crates \<Rightarrow> buf_crate \<Rightarrow> sender \<Rightarrow> bytes \<Rightarrow> sig_chain \<Rightarrow> bytes list \<Rightarrow> string \<Rightarrow> nat \<Rightarrow> (bytes, string) outcome" where
  "sign_dest cr bc me elem_ser chain payloads dest i =
     and_then (parse_client_address cr dest) (\<lambda>(d_id, d_key, _).
     and_then (if 1 < length payloads
               then unwrap (if i < length payloads then Some (length (payloads ! i)) else None)
               else unwrap (case payloads of [] \<Rightarrow> None | q # _ \<Rightarrow> Some (length q))) (\<lambda>n.
       let chain = chain\<lparr>dest_id := d_id, dest_pubkey := d_key, data_size := of_nat n\<rparr>;
           metadata = serialize_metadata bc chain;
           digest = sha256_hash cr (sha256_hash cr metadata @ elem_ser)
       in ed25519_sign cr digest (snd_private_key me @ snd_public_key me)))"

definition create_outbound_message ::
    "crates \<Rightarrow> buf_crate \<Rightarrow> sender \<Rightarrow> u32 \<Rightarrow> u32 \<Rightarrow> string list \<Rightarrow> bytes list \<Rightarrow> (outbound_message, string) outcome" where
  "create_outbound_message cr bc me nonce max_holding_seconds dests payloads =
     and_then (unwrap (snd_node me)) (\<lambda>nd.
     and_then (unwrap (hex_decode cr (n_pubkey nd))) (\<lambda>node_public_key.
       let elem = default_elem\<lparr>next_pubkey := node_public_key\<rparr>;
           elem_ser = serialize_unsigned_elem bc elem;
           chain = \<lparr>sc_nonce = nonce, data_size = 0, sc_block_hash = [], src_id = snd_address_id me,
                    src_pubkey = snd_public_key me, dest_id = [], dest_pubkey = [], elems = [elem]\<rparr>
       in and_then (case snd_block_hash me of
              None \<Rightarrow> Ok []
            | Some h \<Rightarrow> unwrap (hex_decode cr h)) (\<lambda>block_hash.
          let chain = chain\<lparr>sc_block_hash := block_hash\<rparr>
          in and_then (map_outcome (\<lambda>(dest, i). sign_dest cr bc me elem_ser chain payloads dest i)
                  (zip dests [0..<length dests])) (\<lambda>signatures.
               Ok \<lparr>om_dest = [], om_dests = dests, om_payload = [], om_max_holding_seconds = max_holding_seconds,
                   om_nonce = nonce, om_block_hash = block_hash, om_signatures = signatures,
                   om_payloads = payloads\<rparr>))))"

definition create_client_message :: "crates \<Rightarrow> client_codec \<Rightarrow> outbound_message \<Rightarrow> client_message" where
  "create_client_message cr cc msg =
     (let outbound_msg_data = enc_outbound cc msg in
      if 1 < length (om_payloads msg)
      then \<lparr>cm_type = Some OutboundMessage, cm_message = zlib cr outbound_msg_data, cm_compression = CompressionZlib\<rparr>
      else \<lparr>cm_type = Some OutboundMessage, cm_message = outbound_msg_data, cm_compression = CompressionNone\<rparr>)"

section \<open>Effects and state\<close>

datatype client_effect =
    WsBinary bytes                \<comment> \<open>a binary WebSocket message\<close>
  | WsSetClient string string string   \<comment> \<open>the JSON text \<^verbatim>\<open>setClient\<close>: address, salt and signature in hex\<close>
  | WsPing                        \<comment> \<open>an empty ping\<close>
  | ConnectTx node                \<comment> \<open>the node, on the channel of \<^verbatim>\<open>wait_for_connect\<close>\<close>
  | MessageTx message             \<comment> \<open>a message, on the channel of \<^verbatim>\<open>wait_for_message\<close>\<close>
  | ResponseTx string message     \<comment> \<open>a reply, on the response channel filed under the string\<close>
  | ChallengeTx bytes bytes       \<comment> \<open>salt and signature for the task that answers the challenge\<close>
  | ReconnectTx                   \<comment> \<open>the signal to reconnect\<close>

text \<open>The sender of the WebSocket task: missing before the first connection, closed, or open.\<close>

datatype ws_sender = NoSender | Closed | Open

record client_state =
  cl_closed :: bool
  cl_node :: "node option"
  cl_block_hash :: "string option"
  cl_wallet :: wallet
  cl_ws :: ws_sender
  cl_responses :: "string set"         \<comment> \<open>the keys of \<^verbatim>\<open>response_channels\<close>\<close>
  cl_keys :: key_cache

definition write_message :: "bytes \<Rightarrow> ws_sender \<Rightarrow> (unit, string) outcome \<times> client_effect list" where
  "write_message data ws = (case ws of
       NoSender \<Rightarrow> (Panic, [])
     | Closed \<Rightarrow> (Err ''send failed because receiver is gone'', [])
     | Open \<Rightarrow> (Ok (), [WsBinary data]))"

text \<open>The loop that writes the batches: an error of the channel is logged, a panic ends it.\<close>

fun write_all ::
    "crates \<Rightarrow> client_codec \<Rightarrow> outbound_message list \<Rightarrow> ws_sender \<Rightarrow> (unit, string) outcome \<times> client_effect list" where
  "write_all cr cc [] ws = (Ok (), [])"
| "write_all cr cc (m # ms) ws =
     (case write_message (enc_client_message cc (create_client_message cr cc m)) ws of
        (Panic, es) \<Rightarrow> (Panic, es)
      | (_, es) \<Rightarrow> let (r, es') = write_all cr cc ms ws in (r, es @ es'))"

definition send_receipt ::
    "crates \<Rightarrow> buf_crate \<Rightarrow> client_codec \<Rightarrow> bytes \<Rightarrow> bytes \<Rightarrow> ws_sender \<Rightarrow> (unit, string) outcome \<times> client_effect list" where
  "send_receipt cr bc cc prev_signature privkey ws =
     (let elem_ser = serialize_unsigned_elem bc default_elem;
          digest = sha256_hash cr (sha256_hash cr prev_signature @ elem_ser)
      in case and_then (unwrap (secret_to_public cr privkey)) (\<lambda>pubkey.
           ed25519_sign cr digest (privkey @ pubkey)) of
           Ok signature \<Rightarrow>
             write_message (enc_client_message cc \<lparr>cm_type = Some ReceiptMessage,
               cm_message = enc_receipt cc prev_signature signature, cm_compression = CompressionNone\<rparr>) ws
         | Err e \<Rightarrow> (Err e, [])
         | Panic \<Rightarrow> (Panic, []))"

section \<open>Sending\<close>

text \<open>
  The loop of \<open>send_messages\<close> over several payloads. \<open>mk\<close> makes the message of a batch, given the
  number of messages before it (each draws its own nonce).
\<close>

fun batch_loop ::
    "(nat \<Rightarrow> (string \<times> bytes) list \<Rightarrow> ('m, string) outcome) \<Rightarrow> (string \<times> bytes) list \<Rightarrow>
      (string \<times> bytes) list \<Rightarrow> nat \<Rightarrow> 'm list \<Rightarrow> ('m list, string) outcome" where
  "batch_loop mk [] cur total_size out = and_then (mk (length out) cur) (\<lambda>m. Ok (out @ [m]))"
| "batch_loop mk ((d, q) # rest) cur total_size out =
     (let size = length q + length d + SIGNATURE_LEN in
      if MAX_CLIENT_MESSAGE_SIZE < size then Err ''message oversize''
      else if MAX_CLIENT_MESSAGE_SIZE < total_size + size
      then and_then (mk (length out) cur) (\<lambda>m. batch_loop mk rest [(d, q)] size (out @ [m]))
      else batch_loop mk rest (cur @ [(d, q)]) (total_size + size) out)"

definition make_outbound ::
    "(nat \<Rightarrow> string list \<Rightarrow> bytes list \<Rightarrow> ('m, string) outcome) \<Rightarrow> string list \<Rightarrow> bytes list \<Rightarrow> ('m list, string) outcome" where
  "make_outbound mk dests payloads =
     (if 1 < length payloads then
        batch_loop (\<lambda>k batch. mk k (map fst batch) (map snd batch)) (zip dests payloads) [] 0 []
      else
        (case payloads of
           [] \<Rightarrow> Panic
         | q # _ \<Rightarrow>
             if MAX_CLIENT_MESSAGE_SIZE < length q + sum_list (map (\<lambda>d. length d + SIGNATURE_LEN) dests)
             then Err ''message oversize''
             else and_then (mk 0 dests payloads) (\<lambda>m. Ok [m])))"

definition send_messages ::
    "crates \<Rightarrow> buf_crate \<Rightarrow> client_codec \<Rightarrow> (string \<Rightarrow> (registrant, string) outcome) \<Rightarrow> enc_random \<Rightarrow> (nat \<Rightarrow> u32) \<Rightarrow>
      sender \<Rightarrow> bytes \<Rightarrow> string list \<Rightarrow> msg_payload \<Rightarrow> bool \<Rightarrow> u32 \<Rightarrow> ws_sender \<Rightarrow> key_cache \<Rightarrow>
      (unit, string) outcome \<times> key_cache \<times> client_effect list" where
  "send_messages cr bc cc lookup rnd nonces me curve_secret_key dests pl encrypted max_holding_seconds ws cache =
     (case process_dests lookup dests of
        Err e \<Rightarrow> (Err e, cache, [])
      | Panic \<Rightarrow> (Panic, cache, [])
      | Ok dests \<Rightarrow>
          if dests = [] then (Ok (), cache, [])
          else
            let (created, cache) = create_payloads cr cc rnd dests pl encrypted curve_secret_key cache
            in case and_then created (\<lambda>payloads.
                  make_outbound (\<lambda>k. create_outbound_message cr bc me (nonces k) max_holding_seconds) dests payloads) of
                 Ok msgs \<Rightarrow> let (r, es) = write_all cr cc msgs ws in (r, cache, es)
               | Err e \<Rightarrow> (Err e, cache, [])
               | Panic \<Rightarrow> (Panic, cache, []))"

definition client_sender :: "account \<Rightarrow> bytes \<Rightarrow> client_state \<Rightarrow> sender" where
  "client_sender acc address_id s = \<lparr>snd_public_key = public_key acc, snd_private_key = private_key acc,
     snd_address_id = address_id, snd_node = cl_node s, snd_block_hash = cl_block_hash s\<rparr>"

text \<open>\<open>Client::send\<close>: a message that wants a reply gets a response channel under its id.\<close>

definition client_send ::
    "crates \<Rightarrow> buf_crate \<Rightarrow> client_codec \<Rightarrow> (string \<Rightarrow> (registrant, string) outcome) \<Rightarrow> enc_random \<Rightarrow> (nat \<Rightarrow> u32) \<Rightarrow>
      account \<Rightarrow> bytes \<Rightarrow> bytes \<Rightarrow> client_state \<Rightarrow> string list \<Rightarrow> msg_payload \<Rightarrow> message_config \<Rightarrow>
      (unit, string) outcome \<times> client_state \<times> client_effect list" where
  "client_send cr bc cc lookup rnd nonces acc address_id curve_secret_key s dests pl config =
     (let (r, cache, es) = send_messages cr bc cc lookup rnd nonces (client_sender acc address_id s)
            curve_secret_key dests pl (\<not> mc_unencrypted config) (mc_max_holding_secs config) (cl_ws s) (cl_keys s);
          s = s\<lparr>cl_keys := cache\<rparr>
      in case r of
           Ok _ \<Rightarrow>
             if mc_no_reply config then (Ok (), s, es)
             else (case from_utf8 (pp_message_id pl) of
                     None \<Rightarrow> (Panic, s, es)
                   | Some message_id \<Rightarrow> (Ok (), s\<lparr>cl_responses := insert message_id (cl_responses s)\<rparr>, es))
         | Err e \<Rightarrow> (Err e, s, es)
         | Panic \<Rightarrow> (Panic, s, es))"

definition send_data_payload :: "bytes \<Rightarrow> message_config \<Rightarrow> msg_payload" where
  "send_data_payload text config = \<lparr>pp_type = 0, pp_message_id = mc_message_id config, pp_data = text,
     pp_reply_to_id = [], pp_no_reply = mc_no_reply config\<rparr>"

definition client_send_data ::
    "crates \<Rightarrow> buf_crate \<Rightarrow> client_codec \<Rightarrow> (string \<Rightarrow> (registrant, string) outcome) \<Rightarrow> enc_random \<Rightarrow> (nat \<Rightarrow> u32) \<Rightarrow>
      account \<Rightarrow> bytes \<Rightarrow> bytes \<Rightarrow> client_state \<Rightarrow> string list \<Rightarrow> bytes \<Rightarrow> message_config \<Rightarrow>
      (unit, string) outcome \<times> client_state \<times> client_effect list" where
  "client_send_data cr bc cc lookup rnd nonces acc address_id curve_secret_key s dests text config =
     client_send cr bc cc lookup rnd nonces acc address_id curve_secret_key s dests (send_data_payload text config) config"

text \<open>\<open>set_write_deadline\<close> is not written yet: \<^verbatim>\<open>todo!()\<close>.\<close>

definition set_write_deadline :: "u64 \<Rightarrow> (unit, string) outcome" where
  "set_write_deadline deadline = Panic"

text \<open>\<open>Message::reply\<close>: what goes to the task \<open>handle_reply\<close>.\<close>

definition message_reply :: "message \<Rightarrow> msg_payload \<Rightarrow> (string \<times> msg_payload \<times> bool) list" where
  "message_reply m pl = (if \<not> m_no_reply m then [(m_src m, pl, m_encrypted m)] else [])"

section \<open>Receiving\<close>

text \<open>
  The JSON of a control message as \<^verbatim>\<open>serde_json\<close> gives it to the code: each field the code reads, when
  it is there with the type the code asks for.
\<close>

record control =
  ct_action :: "string option"
  ct_error :: "i64 option"
  ct_set_client :: "string option"      \<comment> \<open>\<^verbatim>\<open>Result\<close> as \<^verbatim>\<open>SetClientResult\<close>: its block hash\<close>
  ct_result :: "string option"          \<comment> \<open>\<^verbatim>\<open>Result\<close> as a string\<close>
  ct_challenge :: "string option"

definition handle_text ::
    "crates \<Rightarrow> bytes \<Rightarrow> client_state \<Rightarrow> control \<Rightarrow> (unit, string) outcome \<times> client_state \<times> client_effect list" where
  "handle_text cr random_salt s msg =
     (case and_then (unwrap (ct_action msg)) (\<lambda>action.
           and_then (unwrap (ct_error msg)) (\<lambda>i.
           and_then (nkn_error_from i) (\<lambda>error. Ok (action, error)))) of
        Err e \<Rightarrow> (Err e, s, [])
      | Panic \<Rightarrow> (Panic, s, [])
      | Ok (action, error) \<Rightarrow>
          if error \<noteq> Success then (if error = WrongNode then (Panic, s, []) else (Err ''Error'', s, []))
          else if action = ''setClient'' then
            (case ct_set_client msg of
               None \<Rightarrow> (Panic, s, [])
             | Some h \<Rightarrow>
                 let s = s\<lparr>cl_block_hash := Some h\<rparr>
                 in if cl_closed s then (Ok (), s, [])
                    else (case cl_node s of
                            None \<Rightarrow> (Panic, s, [])
                          | Some nd \<Rightarrow> (Ok (), s, [ConnectTx nd])))
          else if action = ''updateSigChainBlockHash'' then
            (case ct_result msg of
               None \<Rightarrow> (Panic, s, [])
             | Some h \<Rightarrow> (Ok (), s\<lparr>cl_block_hash := Some h\<rparr>, []))
          else if action = ''authChallenge'' then
            (case and_then (unwrap (ct_challenge msg)) (\<lambda>challenge.
                  and_then (unwrap (hex_decode cr challenge)) (\<lambda>challenge_bytes.
                    wallet_sign cr (cl_wallet s) (sha256_hash cr (challenge_bytes @ random_salt)))) of
               Ok signature \<Rightarrow> (Ok (), s, [ChallengeTx random_salt signature])
             | Err e \<Rightarrow> (Err e, s, [])
             | Panic \<Rightarrow> (Panic, s, []))
          else (Ok (), s, []))"

text \<open>The data of a payload by its type: 1 is text, 2 an acknowledgement.\<close>

definition payload_data :: "client_codec \<Rightarrow> msg_payload \<Rightarrow> (bytes, string) outcome" where
  "payload_data cc pl =
     (if pp_type pl = 1 then and_then (unwrap (dec_text_data cc (pp_data pl))) (\<lambda>text. Ok (as_bytes text))
      else if pp_type pl = 2 then Ok []
      else Ok (pp_data pl))"

text \<open>
  The payload of an inbound message, decrypted when it says so; a message in the clear is taken as
  it is.
\<close>

definition open_payload ::
    "crates \<Rightarrow> client_codec \<Rightarrow> bytes \<Rightarrow> inbound_message \<Rightarrow> key_cache \<Rightarrow>
      (bool \<times> msg_payload, string) outcome \<times> key_cache" where
  "open_payload cr cc curve_secret_key im cache =
     (case dec_pb_message cc (im_payload im) of
        None \<Rightarrow> (Panic, cache)
      | Some pm \<Rightarrow>
          let (r, cache) = (if pm_encrypted pm then decrypt_payload cr pm (im_src im) curve_secret_key cache
                            else (Ok (pm_payload pm), cache))
          in (and_then r (\<lambda>bs. and_then (unwrap (dec_msg_payload cc bs)) (\<lambda>pl. Ok (pm_encrypted pm, pl))), cache))"

definition handle_inbound ::
    "crates \<Rightarrow> buf_crate \<Rightarrow> client_codec \<Rightarrow> bytes \<Rightarrow> bytes \<Rightarrow> client_state \<Rightarrow> inbound_message \<Rightarrow>
      (unit, string) outcome \<times> client_state \<times> client_effect list" where
  "handle_inbound cr bc cc privkey curve_secret_key s im =
     (let receipt = (if im_prev_hash im \<noteq> [] then snd (send_receipt cr bc cc (im_prev_hash im) privkey (cl_ws s)) else []);
          (r, cache) = open_payload cr cc curve_secret_key im (cl_keys s);
          s = s\<lparr>cl_keys := cache\<rparr>
      in case and_then r (\<lambda>(encrypted, pl). and_then (payload_data cc pl) (\<lambda>data. Ok (encrypted, pl, data))) of
           Ok (encrypted, pl, data) \<Rightarrow>
             let msg = \<lparr>m_src = im_src im, m_data = data, m_type = pp_type pl, m_encrypted = encrypted,
                        m_message_id = pp_message_id pl, m_no_reply = pp_no_reply pl\<rparr>
             in if pp_reply_to_id pl \<noteq> [] then
                  let msg_id_str = hex_encode cr (pp_reply_to_id pl)
                  in if msg_id_str \<in> cl_responses s
                     then (Ok (), s\<lparr>cl_responses := cl_responses s - {msg_id_str}\<rparr>, receipt @ [ResponseTx msg_id_str msg])
                     else (Ok (), s, receipt)
                else if cl_closed s then (Ok (), s, receipt)
                else (Ok (), s, receipt @ [MessageTx msg])
         | Err e \<Rightarrow> (Err e, s, receipt)
         | Panic \<Rightarrow> (Panic, s, receipt))"

definition handle_message ::
    "crates \<Rightarrow> buf_crate \<Rightarrow> client_codec \<Rightarrow> (bytes \<Rightarrow> control option) \<Rightarrow> bytes \<Rightarrow> bytes \<Rightarrow> bytes \<Rightarrow>
      client_state \<Rightarrow> bool \<Rightarrow> bytes \<Rightarrow> (unit, string) outcome \<times> client_state \<times> client_effect list" where
  "handle_message cr bc cc parse_json random_salt privkey curve_secret_key s is_text data =
     (if cl_closed s then (Ok (), s, [])
      else if is_text then
        (case parse_json data of None \<Rightarrow> (Panic, s, []) | Some msg \<Rightarrow> handle_text cr random_salt s msg)
      else
        (case dec_client_message cc data of
           None \<Rightarrow> (Panic, s, [])
         | Some cm \<Rightarrow>
             if cm_type cm = Some InboundMessage then
               (case dec_inbound cc (cm_message cm) of
                  None \<Rightarrow> (Panic, s, [])
                | Some im \<Rightarrow> handle_inbound cr bc cc privkey curve_secret_key s im)
             else (Ok (), s, [])))"

section \<open>Connecting\<close>

text \<open>
  The address of the node's own RPC server, when it answers that it has finished syncing.
\<close>

definition synced_address :: "node \<Rightarrow> (node_state, string) outcome \<Rightarrow> (string option, string) outcome" where
  "synced_address nd answer =
     (let addr = ''http://'' @ n_rpc_addr nd in
      case answer of
        Ok state \<Rightarrow> Ok (if ns_sync_state state \<noteq> ''PERSIST_FINISHED'' then None else Some addr)
      | Err _ \<Rightarrow> Ok None
      | Panic \<Rightarrow> Panic)"

text \<open>
  The state changes of \<open>connect_to_node\<close>. The address of the node must parse as a URL and its
  WebSocket must open (\<open>reached\<close>), both are unwrapped; then the new WebSocket and its node, and, when
  the node's own RPC server answers that it has finished syncing, a wallet configuration that uses
  it and has lost its password and master key.
\<close>

definition connect_to_node ::
    "node \<Rightarrow> bool \<Rightarrow> (node_state, string) outcome \<Rightarrow> client_state \<Rightarrow> (unit, string) outcome \<times> client_state" where
  "connect_to_node nd reached state_answer s =
     (if \<not> reached then (Panic, s)
      else
        let s = s\<lparr>cl_ws := Open, cl_node := Some nd\<rparr>
        in if n_rpc_addr nd = [] then (Ok (), s)
           else (case synced_address nd state_answer of
               Ok None \<Rightarrow> (Ok (), s)
             | Ok (Some rpc_addr) \<Rightarrow>
                 (Ok (), s\<lparr>cl_wallet := set_config (cl_wallet s) ((w_config (cl_wallet s))
                    \<lparr>seed_rpc_server := (if rpc_addr = [] then [] else [rpc_addr]), wc_password := [], wc_master_key := []\<rparr>)\<rparr>)
             | _ \<Rightarrow> (Panic, s)))"

text \<open>
  An attempt of the loop: what looking up the node gave and, for a node, whether it was reached and
  what its RPC server answers about its state.
\<close>

datatype attempt = NoNode | Found node bool "(node_state, string) outcome"

fun try_connect :: "attempt \<Rightarrow> client_state \<Rightarrow> (unit, string) outcome \<times> client_state" where
  "try_connect NoNode s = (Err ''Error'', s)"
| "try_connect (Found nd reached state_answer) s = connect_to_node nd reached state_answer s"

text \<open>
  The retry loop of \<open>connect\<close>. The result is what the loop returns, \<open>None\<close> when the attempts given
  end before it does, the state, and the pauses it made, in milliseconds. Doubling the pause is
  64-bit arithmetic, counting the attempts 32-bit.
\<close>

definition next_interval :: "profile \<Rightarrow> u64 \<Rightarrow> u32 \<Rightarrow> u64 \<Rightarrow> (u64, string) outcome" where
  "next_interval p max_interval retry interval =
     (if 0 < retry then and_then (mul_u p interval 2) (\<lambda>i. Ok (if max_interval < i then max_interval else i))
      else Ok interval)"

fun connect_loop ::
    "profile \<Rightarrow> u32 \<Rightarrow> u64 \<Rightarrow> u32 \<Rightarrow> u64 \<Rightarrow> client_state \<Rightarrow> attempt list \<Rightarrow>
      (unit, string) outcome option \<times> client_state \<times> u64 list" where
  "connect_loop p max_retries max_interval retry interval s attempts =
     (if max_retries = 0 \<or> retry < max_retries then
        (case next_interval p max_interval retry interval of
           Ok interval' \<Rightarrow>
             let pauses = (if 0 < retry then [interval] else [])
             in (case attempts of
                   [] \<Rightarrow> (None, s, pauses)
                 | a # rest \<Rightarrow>
                     (case try_connect a s of
                        (Ok _, s) \<Rightarrow> (Some (Ok ()), s, pauses)
                      | (Panic, s) \<Rightarrow> (Some Panic, s, pauses)
                      | (Err _, s) \<Rightarrow>
                          (case (add_u p retry 1 :: (u32, string) outcome) of
                             Ok retry' \<Rightarrow>
                               let (r, s, ps) = connect_loop p max_retries max_interval retry' interval' s rest
                               in (r, s, pauses @ ps)
                           | _ \<Rightarrow> (Some Panic, s, pauses))))
         | _ \<Rightarrow> (Some Panic, s, if 0 < retry then [interval] else []))
      else (Some (Err ''connect failed''), s, []))"

declare connect_loop.simps [simp del]

definition connect ::
    "profile \<Rightarrow> client_config \<Rightarrow> u32 \<Rightarrow> client_state \<Rightarrow> attempt list \<Rightarrow>
      (unit, string) outcome option \<times> client_state \<times> u64 list" where
  "connect p config max_retries s attempts =
     connect_loop p max_retries (cc_max_reconnect_interval config) 0 (cc_min_reconnect_interval config) s attempts"

text \<open>The method \<^verbatim>\<open>Client::connect\<close>, with the client's own configuration and state.\<close>

definition client_connect ::
    "profile \<Rightarrow> client_config \<Rightarrow> client_state \<Rightarrow> u32 \<Rightarrow> attempt list \<Rightarrow>
      (unit, string) outcome option \<times> client_state \<times> u64 list" where
  "client_connect p config s max_retries attempts = connect p config max_retries s attempts"

text \<open>
  The tasks of a connection. A frame of the WebSocket goes through a channel with a marker byte
  behind it, 0 for text and 1 for binary; other frames are dropped. The receiving task pops the
  marker and handles the message, whose error it logs; it ends when the client is closed, and the
  value says whether it goes on.
\<close>

datatype ws_frame = FrameText bytes | FrameBinary bytes | FrameOther

fun frame_data :: "ws_frame \<Rightarrow> bytes" where
  "frame_data (FrameText text) = text @ [0]"
| "frame_data (FrameBinary data) = data @ [1]"
| "frame_data FrameOther = []"

definition receive_round ::
    "crates \<Rightarrow> buf_crate \<Rightarrow> client_codec \<Rightarrow> (bytes \<Rightarrow> control option) \<Rightarrow> bytes \<Rightarrow> bytes \<Rightarrow> bytes \<Rightarrow>
      client_state \<Rightarrow> bytes \<Rightarrow> (bool, string) outcome \<times> client_state \<times> client_effect list" where
  "receive_round cr bc cc parse_json random_salt privkey curve_secret_key s data =
     (if cl_closed s then (Ok False, s, [])
      else if data = [] then (Panic, s, [])
      else
        let (r, s, es) = handle_message cr bc cc parse_json random_salt privkey curve_secret_key s
              (last data = 0) (butlast data)
        in (case r of Panic \<Rightarrow> Panic | _ \<Rightarrow> Ok True, s, es))"

text \<open>The task that answers a challenge, and one round of the task that pings every eight seconds.\<close>

definition answer_challenge ::
    "crates \<Rightarrow> string \<Rightarrow> bytes \<Rightarrow> bytes \<Rightarrow> ws_sender \<Rightarrow> (unit, string) outcome \<times> client_effect list" where
  "answer_challenge cr address client_salt signature ws = (case ws of
       NoSender \<Rightarrow> (Panic, [])
     | Closed \<Rightarrow> (Ok (), [ReconnectTx])
     | Open \<Rightarrow> (Ok (), [WsSetClient address (hex_encode cr client_salt) (hex_encode cr signature)]))"

definition ping_round :: "bool \<Rightarrow> ws_sender \<Rightarrow> (bool, string) outcome \<times> client_effect list" where
  "ping_round done ws =
     (if done then (Ok False, [])
      else (case ws of
        NoSender \<Rightarrow> (Panic, [])
      | Closed \<Rightarrow> (Ok False, [ReconnectTx])
      | Open \<Rightarrow> (Ok True, [WsPing])))"

definition client_close :: "client_state \<Rightarrow> client_state" where
  "client_close s = s\<lparr>cl_closed := True\<rparr>"

definition client_reconnect :: "client_state \<Rightarrow> client_effect list" where
  "client_reconnect s = (if cl_closed s then [] else [ReconnectTx])"

definition client_new ::
    "crates \<Rightarrow> account \<Rightarrow> string option \<Rightarrow> client_config \<Rightarrow> bytes \<Rightarrow> bytes \<Rightarrow> bytes \<Rightarrow>
      (client_state \<times> string \<times> bytes \<times> bytes, string) outcome" where
  "client_new cr acc identifier config random_iv random_key random_salt =
     and_then (wallet_new cr acc ((default_wallet_config cr random_iv random_key random_salt)
         \<lparr>seed_rpc_server := cc_rpc_server_address config\<rparr>)) (\<lambda>w.
     and_then (ed25519_private_key_to_curve25519_private_key cr (private_key acc)) (\<lambda>curve_secret_key.
       let address = make_address_string cr (public_key acc) (case identifier of Some i \<Rightarrow> i | None \<Rightarrow> [])
       in Ok (\<lparr>cl_closed = False, cl_node = None, cl_block_hash = None, cl_wallet = w, cl_ws = NoSender,
               cl_responses = {}, cl_keys = Map.empty\<rparr>,
              address, sha256_hash cr (as_bytes address), curve_secret_key)))"

text \<open>One round of the tasks \<open>handle_reply\<close> and \<open>handle_reconnect\<close>; the second ends when closed.\<close>

definition handle_reply_round ::
    "crates \<Rightarrow> buf_crate \<Rightarrow> client_codec \<Rightarrow> (string \<Rightarrow> (registrant, string) outcome) \<Rightarrow> enc_random \<Rightarrow> (nat \<Rightarrow> u32) \<Rightarrow>
      account \<Rightarrow> bytes \<Rightarrow> bytes \<Rightarrow> client_state \<Rightarrow> string \<times> msg_payload \<times> bool \<Rightarrow>
      (unit, string) outcome \<times> client_state \<times> client_effect list" where
  "handle_reply_round cr bc cc lookup rnd nonces acc address_id curve_secret_key s reply =
     (let (src, pl, encrypted) = reply;
          (r, cache, es) = send_messages cr bc cc lookup rnd nonces (client_sender acc address_id s)
            curve_secret_key [src] pl encrypted 0 (cl_ws s) (cl_keys s)
      in (case r of Panic \<Rightarrow> Panic | _ \<Rightarrow> Ok (), s\<lparr>cl_keys := cache\<rparr>, es))"

definition handle_reconnect_round ::
    "profile \<Rightarrow> client_config \<Rightarrow> client_state \<Rightarrow> attempt list \<Rightarrow>
      ((unit, string) outcome option \<times> client_state \<times> u64 list) option" where
  "handle_reconnect_round p config s attempts =
     (if cl_closed s then None
      else
        let (r, s, pauses) = connect p config 0 s attempts
        in Some (case r of Some (Err _) \<Rightarrow> Some (Ok ()) | _ \<Rightarrow> r, s, cc_min_reconnect_interval config # pauses))"

section \<open>Shared keys\<close>

text \<open>
  A cache is right for some public keys when no two of them have the same cache key and every
  entry it has for them is the shared key.
\<close>

definition cache_right :: "crates \<Rightarrow> bytes \<Rightarrow> bytes set \<Rightarrow> key_cache \<Rightarrow> bool" where
  "cache_right cr sk pks cache \<longleftrightarrow> inj_on from_utf8_lossy pks \<and>
     (\<forall>pk \<in> pks. \<forall>q. to_curve25519_pk cr pk = Some q \<longrightarrow>
        cache (from_utf8_lossy pk) = None \<or> cache (from_utf8_lossy pk) = Some (box_precompute cr q sk))"

lemma get_shared_key_right:
  assumes "cache_right cr sk pks cache" and "pk \<in> pks" and "length pk = 32" and "to_curve25519_pk cr pk = Some q"
  shows "\<exists>cache'. get_or_compute_shared_key cr pk sk cache = (Ok (box_precompute cr q sk), cache') \<and>
    cache_right cr sk pks cache'"
proof (cases "cache (from_utf8_lossy pk)")
  case None
  have "cache_right cr sk pks (cache(from_utf8_lossy pk \<mapsto> box_precompute cr q sk))"
    using assms(1,2,4) by (auto simp: cache_right_def dest: inj_onD)
  then show ?thesis
    using None assms(3,4)
    by (simp add: get_or_compute_shared_key_def ed25519_public_key_to_curve25519_public_key_def Let_def)
next
  case (Some k)
  then show ?thesis
    using assms by (auto simp: cache_right_def get_or_compute_shared_key_def)
qed

lemma curve_keys_agree:
  assumes "exchange_laws cr" and "wf_account cr a" and "wf_account cr b"
  shows "\<exists>ska skb qa qb. ed25519_private_key_to_curve25519_private_key cr (private_key a) = (Ok ska :: (_, string) outcome) \<and>
    ed25519_private_key_to_curve25519_private_key cr (private_key b) = (Ok skb :: (_, string) outcome) \<and>
    to_curve25519_pk cr (public_key a) = Some qa \<and> to_curve25519_pk cr (public_key b) = Some qb \<and>
    box_precompute cr qb ska = box_precompute cr qa skb"
proof -
  have "length (private_key a) = 32" "length (private_key b) = 32"
      "secret_to_public cr (private_key a) = Some (public_key a)"
      "secret_to_public cr (private_key b) = Some (public_key b)"
    using assms(2,3) by (simp_all add: wf_account_def)
  then show ?thesis
    using assms(1) [unfolded exchange_laws_def, rule_format, of "private_key a" "private_key b" "public_key a" "public_key b"]
    by (auto simp: ed25519_private_key_to_curve25519_private_key_def)
qed

text \<open>What a party computes with an account's secret key.\<close>

abbreviation curve_key :: "crates \<Rightarrow> account \<Rightarrow> bytes \<Rightarrow> bool" where
  "curve_key cr acc sk \<equiv>
     ed25519_private_key_to_curve25519_private_key cr (private_key acc) = (Ok sk :: (bytes, string) outcome)"

lemma shared_key_agrees:
  assumes "exchange_laws cr" and "wf_account cr a" and "wf_account cr b" and "curve_key cr a ska" and "curve_key cr b skb"
  shows "\<exists>qa qb. to_curve25519_pk cr (public_key a) = Some qa \<and> to_curve25519_pk cr (public_key b) = Some qb \<and>
    box_precompute cr qb ska = box_precompute cr qa skb"
  using curve_keys_agree [OF assms(1-3)] assms(4,5) by auto

section \<open>What is sealed opens\<close>

definition codec_laws :: "client_codec \<Rightarrow> bool" where
  "codec_laws cc \<longleftrightarrow> (\<forall>pl. dec_msg_payload cc (enc_msg_payload cc pl) = Some pl) \<and>
     (\<forall>pm. dec_pb_message cc (enc_pb_message cc pm) = Some pm)"

text \<open>A message that was sealed for the shared key of two accounts.\<close>

lemma open_sealed:
  assumes laws: "hex_laws cr" "box_laws cr" "exchange_laws cr" "codec_laws cc"
    and accs: "wf_account cr a" "wf_account cr b" "curve_key cr a ska" "curve_key cr b skb"
    and q: "to_curve25519_pk cr (public_key b) = Some qb"
    and right: "cache_right cr skb {public_key a} cache"
    and src: "im_src im = make_address_string cr (public_key a) ident"
    and msg: "im_payload im = enc_pb_message cc pm" "pm_encrypted pm"
    and sealed: "(pm_encrypted_key pm = [] \<and> length (pm_nonce pm) = 24 \<and>
        pm_payload pm = seal_precomputed cr (enc_msg_payload cc pl) (pm_nonce pm) (box_precompute cr qb ska)) \<or>
      (\<exists>key kn mn. length key = 32 \<and> length kn = 24 \<and> length mn = 24 \<and> pm_nonce pm = kn @ mn \<and>
        pm_encrypted_key pm = seal_precomputed cr key kn (box_precompute cr qb ska) \<and>
        pm_payload pm = seal_precomputed cr (enc_msg_payload cc pl) mn key)"
  shows "fst (open_payload cr cc skb im cache) = Ok (True, pl)"
proof -
  obtain qa where qa: "to_curve25519_pk cr (public_key a) = Some qa"
      "box_precompute cr qb ska = box_precompute cr qa skb"
    using shared_key_agrees [OF laws(3) accs] q by auto
  let ?k = "box_precompute cr qa skb"
  have pk: "length (public_key a) = 32" using accs(1) by (simp add: wf_account_def)
  obtain cache' where got: "get_or_compute_shared_key cr (public_key a) skb cache = (Ok ?k, cache')"
    using get_shared_key_right [OF right _ pk qa(1)] by blast
  have k: "length ?k = 32" using laws(2) by (simp add: box_laws_def)
  have "fst (decrypt_payload cr pm (im_src im) skb cache) = Ok (enc_msg_payload cc pl)"
    using sealed
  proof
    assume *: "pm_encrypted_key pm = [] \<and> length (pm_nonce pm) = 24 \<and>
        pm_payload pm = seal_precomputed cr (enc_msg_payload cc pl) (pm_nonce pm) (box_precompute cr qb ska)"
    then show ?thesis
      using decrypt_seal [OF laws(2), of "pm_nonce pm" ?k "enc_msg_payload cc pl"] k
      by (simp add: decrypt_payload_def src parse_make_address [OF laws(1) pk] got qa(2))
  next
    assume "\<exists>key kn mn. length key = 32 \<and> length kn = 24 \<and> length mn = 24 \<and> pm_nonce pm = kn @ mn \<and>
        pm_encrypted_key pm = seal_precomputed cr key kn (box_precompute cr qb ska) \<and>
        pm_payload pm = seal_precomputed cr (enc_msg_payload cc pl) mn key"
    then obtain key kn mn where *: "length key = 32" "length kn = 24" "length mn = 24" "pm_nonce pm = kn @ mn"
        "pm_encrypted_key pm = seal_precomputed cr key kn ?k"
        "pm_payload pm = seal_precomputed cr (enc_msg_payload cc pl) mn key"
      using qa(2) by auto
    have "length (seal_precomputed cr key kn ?k) = length key + 16" using laws(2) unfolding box_laws_def by blast
    then have "seal_precomputed cr key kn ?k \<noteq> []" by auto
    then show ?thesis
      using * decrypt_seal [OF laws(2) *(2) k, of key] decrypt_seal [OF laws(2) *(3,1), of "enc_msg_payload cc pl"]
      by (simp add: decrypt_payload_def src parse_make_address [OF laws(1) pk] got)
  qed
  then show ?thesis
    using laws(4) msg by (simp add: open_payload_def codec_laws_def case_prod_beta)
qed

text \<open>The messages to several destinations, one for each, with the cache still right afterwards.\<close>

lemma encrypt_keys_sealed:
  assumes laws: "hex_laws cr" "box_laws cr"
    and dests: "\<forall>(b, ident, kn) \<in> set targets. length (public_key b) = 32 \<and> length kn = 24 \<and>
      public_key b \<in> pks \<and> (\<exists>q. to_curve25519_pk cr (public_key b) = Some q)"
    and right: "cache_right cr sk pks cache"
  shows "\<exists>cache'. encrypt_keys cr cc sk ep key mn
      (map (\<lambda>(b, ident, kn). (make_address_string cr (public_key b) ident, kn)) targets) cache =
    (Ok (map (\<lambda>(b, ident, kn). enc_pb_message cc \<lparr>pm_payload = ep, pm_encrypted = True, pm_nonce = kn @ mn,
       pm_encrypted_key = seal_precomputed cr key kn
         (box_precompute cr (the (to_curve25519_pk cr (public_key b))) sk)\<rparr>) targets), cache')"
  using dests right
proof (induction targets arbitrary: cache)
  case (Cons t targets)
  obtain b ident kn where t: "t = (b, ident, kn)" by (cases t)
  obtain q where q: "to_curve25519_pk cr (public_key b) = Some q" using Cons.prems(1) t by auto
  have b: "length (public_key b) = 32" "length kn = 24" "public_key b \<in> pks" using Cons.prems(1) t by auto
  obtain cache1 where c1: "get_or_compute_shared_key cr (public_key b) sk cache = (Ok (box_precompute cr q sk), cache1)"
      "cache_right cr sk pks cache1"
    using get_shared_key_right [OF Cons.prems(2) b(3,1) q] by blast
  have k: "length (box_precompute cr q sk) = 32" using laws(2) by (simp add: box_laws_def)
  have "encrypt_key_for cr cc sk ep key mn kn (make_address_string cr (public_key b) ident) cache =
      (Ok (enc_pb_message cc \<lparr>pm_payload = ep, pm_encrypted = True, pm_nonce = kn @ mn,
         pm_encrypted_key = seal_precomputed cr key kn (box_precompute cr q sk)\<rparr>), cache1)"
    by (simp add: encrypt_key_for_def parse_make_address [OF laws(1) b(1)] c1(1) encrypt_eq [OF laws(2) b(2) k])
  moreover obtain cache2 where "encrypt_keys cr cc sk ep key mn
      (map (\<lambda>(b, ident, kn). (make_address_string cr (public_key b) ident, kn)) targets) cache1 =
    (Ok (map (\<lambda>(b, ident, kn). enc_pb_message cc \<lparr>pm_payload = ep, pm_encrypted = True, pm_nonce = kn @ mn,
       pm_encrypted_key = seal_precomputed cr key kn
         (box_precompute cr (the (to_curve25519_pk cr (public_key b))) sk)\<rparr>) targets), cache2)"
    using Cons.IH [OF _ c1(2)] Cons.prems(1) by auto
  ultimately show ?case using t q by simp
qed simp

text \<open>The two paths of \<open>encrypt_payload\<close>, and what opens at each target.\<close>

definition opens_for ::
    "crates \<Rightarrow> client_codec \<Rightarrow> msg_payload \<Rightarrow> account \<Rightarrow> account \<Rightarrow> bytes \<Rightarrow> bool" where
  "opens_for cr cc pl a b msg \<longleftrightarrow> (\<forall>skb cache_b src_ident prev.
     curve_key cr b skb \<and> cache_right cr skb {public_key a} cache_b \<longrightarrow>
     fst (open_payload cr cc skb \<lparr>im_src = make_address_string cr (public_key a) src_ident,
       im_payload = msg, im_prev_hash = prev\<rparr> cache_b) = Ok (True, pl))"

lemma to_curve_wf: "exchange_laws cr \<Longrightarrow> wf_account cr b \<Longrightarrow> \<exists>q. to_curve25519_pk cr (public_key b) = Some q"
  using curve_keys_agree [of cr b b] by blast

lemma opens_for_key:
  assumes laws: "hex_laws cr" "box_laws cr" "exchange_laws cr" "codec_laws cc"
    and accs: "wf_account cr a" "curve_key cr a ska" "wf_account cr b" "to_curve25519_pk cr (public_key b) = Some qb"
    and sizes: "length key = 32" "length kn = 24" "length mn = 24"
  shows "opens_for cr cc pl a b (enc_pb_message cc
    \<lparr>pm_payload = seal_precomputed cr (enc_msg_payload cc pl) mn key, pm_encrypted = True, pm_nonce = kn @ mn,
     pm_encrypted_key = seal_precomputed cr key kn (box_precompute cr qb ska)\<rparr>)"
  unfolding opens_for_def
proof (intro allI impI)
  fix skb cache_b src_ident prev
  assume b: "curve_key cr b skb \<and> cache_right cr skb {public_key a} cache_b"
  show "fst (open_payload cr cc skb \<lparr>im_src = make_address_string cr (public_key a) src_ident,
      im_payload = enc_pb_message cc \<lparr>pm_payload = seal_precomputed cr (enc_msg_payload cc pl) mn key,
        pm_encrypted = True, pm_nonce = kn @ mn,
        pm_encrypted_key = seal_precomputed cr key kn (box_precompute cr qb ska)\<rparr>,
      im_prev_hash = prev\<rparr> cache_b) = Ok (True, pl)"
    using b sizes by (intro open_sealed [OF laws accs(1,3,2) _ accs(4) _ _ _ _ disjI2]) (auto, blast)
qed

lemma opens_for_single:
  assumes laws: "hex_laws cr" "box_laws cr" "exchange_laws cr" "codec_laws cc"
    and accs: "wf_account cr a" "curve_key cr a ska" "wf_account cr b" "to_curve25519_pk cr (public_key b) = Some qb"
    and sizes: "length nonce = 24"
  shows "opens_for cr cc pl a b (enc_pb_message cc
    \<lparr>pm_payload = seal_precomputed cr (enc_msg_payload cc pl) nonce (box_precompute cr qb ska),
     pm_encrypted = True, pm_nonce = nonce, pm_encrypted_key = []\<rparr>)"
  unfolding opens_for_def
proof (intro allI impI)
  fix skb cache_b src_ident prev
  assume b: "curve_key cr b skb \<and> cache_right cr skb {public_key a} cache_b"
  show "fst (open_payload cr cc skb \<lparr>im_src = make_address_string cr (public_key a) src_ident,
      im_payload = enc_pb_message cc \<lparr>pm_payload = seal_precomputed cr (enc_msg_payload cc pl) nonce
        (box_precompute cr qb ska), pm_encrypted = True, pm_nonce = nonce, pm_encrypted_key = []\<rparr>,
      im_prev_hash = prev\<rparr> cache_b) = Ok (True, pl)"
    using b sizes by (intro open_sealed [OF laws accs(1,3,2) _ accs(4) _ _ _ _ disjI1]) auto
qed

lemma encrypt_payload_single:
  assumes laws: "hex_laws cr" "box_laws cr" "exchange_laws cr" "codec_laws cc"
    and accs: "wf_account cr a" "curve_key cr a ska" "wf_account cr b"
    and "length (rand_nonce rnd) = 24" and "cache_right cr ska {public_key b} cache"
  shows "\<exists>msg cache'. encrypt_payload cr cc rnd pl [make_address_string cr (public_key b) ident] ska cache =
    (Ok [msg], cache') \<and> opens_for cr cc pl a b msg"
proof -
  obtain qb where qb: "to_curve25519_pk cr (public_key b) = Some qb" using to_curve_wf [OF laws(3) accs(3)] by blast
  have pk: "length (public_key b) = 32" using accs(3) by (simp add: wf_account_def)
  obtain cache' where got: "get_or_compute_shared_key cr (public_key b) ska cache = (Ok (box_precompute cr qb ska), cache')"
    using get_shared_key_right [OF assms(9) _ pk qb] by blast
  have k: "length (box_precompute cr qb ska) = 32" using laws(2) by (simp add: box_laws_def)
  show ?thesis
    using opens_for_single [OF laws accs qb assms(8), of pl]
    by (simp add: encrypt_payload_def parse_make_address [OF laws(1) pk] got encrypt_eq [OF laws(2) assms(8) k])
qed

lemma encrypt_payload_several:
  assumes laws: "hex_laws cr" "box_laws cr" "exchange_laws cr" "codec_laws cc"
    and sender: "wf_account cr a" "curve_key cr a ska"
    and several: "1 < length targets" and wf: "\<And>b ident. (b, ident) \<in> set targets \<Longrightarrow> wf_account cr b"
    and sizes: "length (rand_key rnd) = 32" "length (rand_nonce rnd) = 24"
      "length (rand_key_nonces rnd) = length targets" "\<And>kn. kn \<in> set (rand_key_nonces rnd) \<Longrightarrow> length kn = 24"
    and cache: "cache_right cr ska (public_key ` fst ` set targets) cache"
  shows "\<exists>msgs cache'. encrypt_payload cr cc rnd pl
      (map (\<lambda>(b, ident). make_address_string cr (public_key b) ident) targets) ska cache = (Ok msgs, cache') \<and>
    length msgs = length targets \<and> (\<forall>i < length targets. opens_for cr cc pl a (fst (targets ! i)) (msgs ! i))"
proof -
  define full where "full = map (\<lambda>(t, kn). (fst t, snd t, kn)) (zip targets (rand_key_nonces rnd))"
  define ep where "ep = seal_precomputed cr (enc_msg_payload cc pl) (rand_nonce rnd) (rand_key rnd)"
  have len: "length full = length targets" using sizes(3) by (simp add: full_def)
  have nth: "full ! i = (fst (targets ! i), snd (targets ! i), rand_key_nonces rnd ! i)" if "i < length targets" for i
    using that sizes(3) by (simp add: full_def)
  have zips: "zip (map (\<lambda>(b, ident). make_address_string cr (public_key b) ident) targets) (rand_key_nonces rnd) =
      map (\<lambda>(b, ident, kn). (make_address_string cr (public_key b) ident, kn)) full"
    using sizes(3) by (intro nth_equalityI) (simp_all add: full_def case_prod_beta)
  have ok: "\<forall>(b, ident, kn) \<in> set full. length (public_key b) = 32 \<and> length kn = 24 \<and>
      public_key b \<in> public_key ` fst ` set targets \<and> (\<exists>q. to_curve25519_pk cr (public_key b) = Some q)"
  proof
    fix t
    assume "t \<in> set full"
    then obtain b ident kn where t: "t = (b, ident, kn)" "(b, ident) \<in> set targets" "kn \<in> set (rand_key_nonces rnd)"
      by (fastforce simp: full_def dest: set_zip_leftD set_zip_rightD)
    then have "public_key b \<in> public_key ` fst ` set targets" by force
    then show "case t of (b, ident, kn) \<Rightarrow> length (public_key b) = 32 \<and> length kn = 24 \<and>
        public_key b \<in> public_key ` fst ` set targets \<and> (\<exists>q. to_curve25519_pk cr (public_key b) = Some q)"
      using t wf [OF t(2)] sizes(4) [OF t(3)] to_curve_wf [OF laws(3)] by (simp add: wf_account_def)
  qed
  define msgs where "msgs = map (\<lambda>(b, ident, kn). enc_pb_message cc \<lparr>pm_payload = ep, pm_encrypted = True,
      pm_nonce = kn @ rand_nonce rnd, pm_encrypted_key = seal_precomputed cr (rand_key rnd) kn
        (box_precompute cr (the (to_curve25519_pk cr (public_key b))) ska)\<rparr>) full"
  obtain cache' where enc: "encrypt_keys cr cc ska ep (rand_key rnd) (rand_nonce rnd)
      (map (\<lambda>(b, ident, kn). (make_address_string cr (public_key b) ident, kn)) full) cache = (Ok msgs, cache')"
    using encrypt_keys_sealed [OF laws(1,2) ok cache] unfolding msgs_def by blast
  have "opens_for cr cc pl a (fst (targets ! i)) (msgs ! i)" if "i < length targets" for i
  proof -
    have b: "wf_account cr (fst (targets ! i))" using wf [of "fst (targets ! i)" "snd (targets ! i)"] that by simp
    then obtain q where q: "to_curve25519_pk cr (public_key (fst (targets ! i))) = Some q"
      using to_curve_wf [OF laws(3)] by blast
    show ?thesis
      using opens_for_key [OF laws sender b q sizes(1) _ sizes(2)] sizes(3,4) that
      by (simp add: msgs_def len nth q ep_def)
  qed
  moreover have "encrypt_payload cr cc rnd pl (map (\<lambda>(b, ident). make_address_string cr (public_key b) ident) targets)
      ska cache = (Ok msgs, cache')"
    using several enc zips by (simp add: encrypt_payload_def ep_def encrypt_eq [OF laws(2) sizes(2,1)])
  ultimately show ?thesis using len by (auto simp: msgs_def)
qed

section \<open>Batches\<close>

definition batch_size :: "(string \<times> bytes) list \<Rightarrow> nat" where
  "batch_size batch = sum_list (map (\<lambda>(d, q). length q + length d + SIGNATURE_LEN) batch)"

lemma batch_size_simps [simp]:
  "batch_size [] = 0" "batch_size (xs @ ys) = batch_size xs + batch_size ys"
  "batch_size ((d, q) # xs) = length q + length d + SIGNATURE_LEN + batch_size xs"
  by (simp_all add: batch_size_def)

text \<open>
  The batches of the loop, as lists: they hold the items in order, none is too large and none is
  empty; the loop calls \<open>mk\<close> on each of them.
\<close>

lemma batch_loop_Ok:
  assumes "batch_loop mk items cur (batch_size cur) out = Ok msgs"
    and "batch_size cur \<le> MAX_CLIENT_MESSAGE_SIZE" and "cur \<noteq> [] \<or> items \<noteq> []"
  shows "\<exists>batches. concat batches = cur @ items \<and>
    (\<forall>b \<in> set batches. b \<noteq> [] \<and> batch_size b \<le> MAX_CLIENT_MESSAGE_SIZE) \<and>
    length msgs = length out + length batches \<and> take (length out) msgs = out \<and>
    (\<forall>k < length batches. mk (length out + k) (batches ! k) = Ok (msgs ! (length out + k)))"
  using assms
proof (induction items arbitrary: cur out)
  case Nil
  then obtain m where "mk (length out) cur = Ok m" "msgs = out @ [m]" by (auto simp: outcome_simps)
  then show ?case using Nil by (intro exI [of _ "[cur]"]) simp
next
  case (Cons item rest)
  obtain d q where item: "item = (d, q)" by fastforce
  let ?size = "length q + length d + SIGNATURE_LEN"
  have fits: "\<not> MAX_CLIENT_MESSAGE_SIZE < ?size" using Cons.prems(1) item by (auto split: if_splits)
  show ?case
  proof (cases "MAX_CLIENT_MESSAGE_SIZE < batch_size cur + ?size")
    case True
    then have cur: "cur \<noteq> []" using fits by auto
    obtain m where m: "mk (length out) cur = Ok m" "batch_loop mk rest [(d, q)] ?size (out @ [m]) = Ok msgs"
      using Cons.prems(1) fits True item by (auto simp: outcome_simps Let_def)
    obtain batches where b: "concat batches = [(d, q)] @ rest"
        "\<forall>b \<in> set batches. b \<noteq> [] \<and> batch_size b \<le> MAX_CLIENT_MESSAGE_SIZE"
        "length msgs = length (out @ [m]) + length batches" "take (length (out @ [m])) msgs = out @ [m]"
        "\<forall>k < length batches. mk (length (out @ [m]) + k) (batches ! k) = Ok (msgs ! (length (out @ [m]) + k))"
      using Cons.IH [of "[(d, q)]" "out @ [m]"] m fits by auto
    have "msgs ! length out = m" using b(4) by (metis length_append_singleton lessI nth_append_length nth_take)
    then show ?thesis
      using b m(1) cur Cons.prems(2) item
      by (intro exI [of _ "cur # batches"])
        (auto simp: nth_Cons take_Suc_conv_app_nth split: nat.splits)
  next
    case False
    then have "batch_loop mk rest (cur @ [(d, q)]) (batch_size (cur @ [(d, q)])) out = Ok msgs"
      using Cons.prems(1) fits item by (simp add: Let_def add.assoc)
    from Cons.IH [OF this] show ?thesis using False item by simp
  qed
qed

lemma create_outbound_message_fields:
  "create_outbound_message cr bc me nonce mh dests payloads = Ok m \<Longrightarrow>
     om_dests m = dests \<and> om_payloads m = payloads \<and> length (om_signatures m) = length dests"
  by (auto simp: create_outbound_message_def outcome_simps Let_def dest!: map_outcome_Ok_length)

section \<open>Signatures\<close>

text \<open>The bytes a sender signs for one destination of an outbound message.\<close>

definition outbound_digest ::
    "crates \<Rightarrow> buf_crate \<Rightarrow> sender \<Rightarrow> u32 \<Rightarrow> bytes \<Rightarrow> bytes \<Rightarrow> bytes \<Rightarrow> bytes \<Rightarrow> nat \<Rightarrow> bytes" where
  "outbound_digest cr bc me nonce block_hash node_key d_id d_key payload_len =
     sha256_hash cr (sha256_hash cr (serialize_metadata bc \<lparr>sc_nonce = nonce, data_size = of_nat payload_len,
         sc_block_hash = block_hash, src_id = snd_address_id me, src_pubkey = snd_public_key me,
         dest_id = d_id, dest_pubkey = d_key, elems = [default_elem\<lparr>next_pubkey := node_key\<rparr>]\<rparr>)
       @ serialize_unsigned_elem bc (default_elem\<lparr>next_pubkey := node_key\<rparr>))"

lemma account_sign_verifies:
  assumes "ed25519_laws cr" and "wf_account cr a"
  shows "\<exists>sig. ed25519_sign cr m (private_key a @ public_key a) = Ok sig \<and>
    ed25519_verify cr m (public_key a) sig = Ok True \<and> length sig = SIGNATURE_LEN"
proof -
  obtain sig where "keypair_sign cr (private_key a @ public_key a) m = Some sig" "length sig = 64"
      "key_verify cr (public_key a) m sig = Some True"
    using assms unfolding ed25519_laws_def wf_account_def by force
  then show ?thesis by (simp add: ed25519_sign_def ed25519_verify_def)
qed

lemma map_outcome_total:
  assumes "\<And>i. i < length xs \<Longrightarrow> \<exists>y. f (xs ! i) = Ok y \<and> P i y"
  shows "\<exists>ys. map_outcome f xs = Ok ys \<and> length ys = length xs \<and> (\<forall>i < length xs. P i (ys ! i))"
  using assms
proof (induction xs arbitrary: P)
  case (Cons x xs)
  obtain y where y: "f x = Ok y" "P 0 y" using Cons.prems [of 0] by auto
  obtain ys where ys: "map_outcome f xs = Ok ys" "length ys = length xs" "\<forall>i < length xs. P (Suc i) (ys ! i)"
    using Cons.IH [of "\<lambda>i. P (Suc i)"] Cons.prems [of "Suc i" for i] by fastforce
  then show ?case using y by (intro exI [of _ "y # ys"]) (auto simp: nth_Cons split: nat.splits)
qed simp

text \<open>With a node, destinations that parse and a payload for each or one for all, a message is made and signed.\<close>

lemma create_outbound_message_signed:
  assumes laws: "ed25519_laws cr" "wf_account cr a"
    and me: "snd_public_key me = public_key a" "snd_private_key me = private_key a" "snd_node me = Some nd"
      "hex_decode cr (n_pubkey nd) = Some node_key"
      "case snd_block_hash me of None \<Rightarrow> block_hash = [] | Some h \<Rightarrow> hex_decode cr h = Some block_hash"
    and dests: "\<forall>d \<in> set dests. \<exists>x. parse_client_address cr d = Ok x"
    and payloads: "length payloads = 1 \<or> length payloads = length dests"
  shows "\<exists>m. create_outbound_message cr bc me nonce mh dests payloads = Ok m \<and>
    (\<forall>i < length dests. \<exists>d_id d_key ident. parse_client_address cr (dests ! i) = Ok (d_id, d_key, ident) \<and>
       ed25519_verify cr (outbound_digest cr bc me nonce block_hash node_key d_id d_key
         (length (if 1 < length payloads then payloads ! i else payloads ! 0))) (public_key a) (om_signatures m ! i) =
         (Ok True :: (bool, string) outcome))"
proof -
  define elem where "elem = default_elem\<lparr>next_pubkey := node_key\<rparr>"
  define chain where "chain = \<lparr>sc_nonce = nonce, data_size = 0, sc_block_hash = block_hash, src_id = snd_address_id me,
    src_pubkey = snd_public_key me, dest_id = [], dest_pubkey = [], elems = [elem]\<rparr>"
  define sign where "sign = (\<lambda>(dest, i). sign_dest cr bc me (serialize_unsigned_elem bc elem) chain payloads dest i)"
  define good where "good = (\<lambda>i sig. \<exists>d_id d_key ident. parse_client_address cr (dests ! i) = Ok (d_id, d_key, ident) \<and>
       ed25519_verify cr (outbound_digest cr bc me nonce block_hash node_key d_id d_key
         (length (if 1 < length payloads then payloads ! i else payloads ! 0))) (public_key a) sig =
         (Ok True :: (bool, string) outcome))"
  have "\<exists>sig. sign (zip dests [0..<length dests] ! i) = Ok sig \<and> good i sig" if i: "i < length dests" for i
  proof -
    obtain d_id d_key ident where d: "parse_client_address cr (dests ! i) = Ok (d_id, d_key, ident)"
      using dests i by (metis nth_mem prod_cases3)
    let ?len = "length (if 1 < length payloads then payloads ! i else payloads ! 0)"
    obtain sig where "ed25519_sign cr (outbound_digest cr bc me nonce block_hash node_key d_id d_key ?len)
          (private_key a @ public_key a) = (Ok sig :: (bytes, string) outcome)"
        "ed25519_verify cr (outbound_digest cr bc me nonce block_hash node_key d_id d_key ?len) (public_key a) sig =
         (Ok True :: (bool, string) outcome)"
      using account_sign_verifies [OF laws] by metis
    moreover have "sign (dests ! i, i) = ed25519_sign cr
        (outbound_digest cr bc me nonce block_hash node_key d_id d_key ?len) (private_key a @ public_key a)"
      using d i payloads me
      by (cases payloads) (auto simp: sign_def sign_dest_def outbound_digest_def chain_def elem_def Let_def)
    ultimately show ?thesis using i d by (simp add: good_def)
  qed
  then obtain sigs where sigs: "map_outcome sign (zip dests [0..<length dests]) = Ok sigs" "\<forall>i < length dests. good i (sigs ! i)"
    using map_outcome_total [of "zip dests [0..<length dests]" sign good] by auto
  have block: "(case snd_block_hash me of None \<Rightarrow> Ok [] | Some h \<Rightarrow> unwrap (hex_decode cr h)) =
      (Ok block_hash :: (bytes, string) outcome)"
    using me(5) by (auto split: option.splits)
  show ?thesis
    using sigs(2) me(3,4) block sigs(1) [unfolded sign_def chain_def elem_def]
    by (simp add: create_outbound_message_def Let_def good_def)
qed

section \<open>Pauses\<close>

text \<open>Reference for the pauses of the retry loop: double up to the limit.\<close>

fun backoff :: "nat \<Rightarrow> nat \<Rightarrow> nat \<Rightarrow> nat list" where
  "backoff mx iv 0 = []"
| "backoff mx iv (Suc k) = iv # backoff mx (min mx (2 * iv)) k"

lemma backoff_closed: "iv \<le> mx \<Longrightarrow> backoff mx iv k = map (\<lambda>j. min mx (iv * 2 ^ j)) [0..<k]"
proof (induction k arbitrary: iv)
  case (Suc k)
  have "min mx (min mx (2 * iv) * 2 ^ j) = min mx (iv * 2 ^ Suc j)" for j
  proof (cases "2 * iv \<le> mx")
    case False
    then have "mx \<le> iv * 2 ^ Suc j" "mx \<le> mx * 2 ^ j" by (auto intro: le_trans [of _ "2 * iv"])
    then show ?thesis using False by simp
  qed (simp add: mult.commute mult.left_commute)
  then have "backoff mx (min mx (2 * iv)) k = map (\<lambda>j. min mx (iv * 2 ^ j)) (map Suc [0..<k])"
    using Suc.IH [of "min mx (2 * iv)"] by simp
  moreover have "[0..<Suc k] = 0 # map Suc [0..<k]" by (rule upt_rec [THEN trans]) (simp add: map_Suc_upt)
  ultimately show ?case using Suc.prems by simp
qed simp

lemma retry_arith:
  assumes "0 < r" and "Suc r < 2 ^ 32" and "unat mx < 2 ^ 63" and "unat iv < 2 ^ 63"
  shows "unat (of_nat r :: u32) = r" and "0 < (of_nat r :: u32)"
    and "next_interval p mx (of_nat r) iv = Ok (if mx < iv * 2 then mx else iv * 2)"
    and "add_u p (of_nat r) 1 = (Ok (of_nat (Suc r)) :: (u32, string) outcome)"
    and "unat (if mx < iv * 2 then mx else iv * 2) = min (unat mx) (2 * unat iv)"
proof -
  show r: "unat (of_nat r :: u32) = r" using assms(2) by (intro unat_of_nat_fits) simp
  then show pos: "0 < (of_nat r :: u32)" using assms(1) by (simp add: word_less_nat_alt)
  have "mul_u p iv 2 = (Ok (iv * 2) :: (_, string) outcome)" using assms(4) by (simp add: mul_u_def)
  then show "next_interval p mx (of_nat r) iv = Ok (if mx < iv * 2 then mx else iv * 2)"
    using pos by (simp add: next_interval_def)
  show "add_u p (of_nat r) 1 = (Ok (of_nat (Suc r)) :: (u32, string) outcome)"
    using assms(2) r by (simp add: add_u_def)
  have "unat (iv * 2) = unat iv * 2" using assms(4) by (simp add: unat_word_ariths)
  then show "unat (if mx < iv * 2 then mx else iv * 2) = min (unat mx) (2 * unat iv)"
    by (auto simp: word_less_nat_alt min_def)
qed

text \<open>Attempts that find no node only cost their pauses.\<close>

lemma connect_loop_prefix:
  assumes "0 < r" and "r + k < 2 ^ 32" and "mr = 0 \<or> r + k \<le> unat mr"
    and "unat mx < 2 ^ 63" and "unat iv < 2 ^ 63"
  shows "\<exists>ps iv'. (\<forall>rest. connect_loop p mr mx (of_nat r) iv s (replicate k NoNode @ rest) =
      (let (res, s', ps') = connect_loop p mr mx (of_nat (r + k)) iv' s rest in (res, s', ps @ ps'))) \<and>
    map unat ps @ [unat iv'] = backoff (unat mx) (unat iv) (Suc k) \<and> unat iv' < 2 ^ 63"
  using assms
proof (induction k arbitrary: r iv)
  case 0
  then show ?case by (intro exI [of _ "[]"] exI [of _ iv]) simp
next
  case (Suc k r iv)
  note ar = retry_arith [of r mx iv]
  have go: "mr = 0 \<or> of_nat r < mr" using Suc.prems ar(1) by (auto simp: word_less_nat_alt)
  let ?iv = "if mx < iv * 2 then mx else iv * 2"
  have iv: "unat ?iv = min (unat mx) (2 * unat iv)" using Suc.prems ar(5) by simp
  then have small: "unat ?iv < 2 ^ 63" using Suc.prems(4) by linarith
  obtain ps iv' where ps: "\<forall>rest. connect_loop p mr mx (of_nat (Suc r)) ?iv s (replicate k NoNode @ rest) =
        (let (res, s', ps') = connect_loop p mr mx (of_nat (Suc r + k)) iv' s rest in (res, s', ps @ ps'))"
      "map unat ps @ [unat iv'] = backoff (unat mx) (unat ?iv) (Suc k)" "unat iv' < 2 ^ 63"
    using Suc.IH [of "Suc r" ?iv] Suc.prems small by auto
  have "connect_loop p mr mx (of_nat r) iv s (replicate (Suc k) NoNode @ rest) =
      (let (res, s', ps') = connect_loop p mr mx (of_nat (r + Suc k)) iv' s rest in (res, s', (iv # ps) @ ps'))" for rest
    using go Suc.prems ar(2,3,4) ps(1) by (subst connect_loop.simps) (simp add: Let_def split: prod.splits)
  moreover have "map unat (iv # ps) @ [unat iv'] = backoff (unat mx) (unat iv) (Suc (Suc k))"
    using ps(2) iv by simp
  ultimately show ?case using ps(3) by (intro exI [of _ "iv # ps"] exI [of _ iv'] conjI allI)
qed

lemma connect_loop_first:
  "mr = 0 \<or> 0 < mr \<Longrightarrow> connect_loop p mr mx 0 iv s (NoNode # rest) = connect_loop p mr mx 1 iv s rest"
  by (subst connect_loop.simps) (auto simp: Let_def add_u_def next_interval_def)

lemma connect_loop_prefix_1:
  assumes "Suc k < 2 ^ 32" and "mr = 0 \<or> Suc k \<le> unat mr" and "unat mx < 2 ^ 63" and "unat iv < 2 ^ 63"
  obtains ps iv' where "\<forall>rest. connect_loop p mr mx 1 iv s (replicate k NoNode @ rest) =
      (let (res, s', ps') = connect_loop p mr mx (of_nat (Suc k)) iv' s rest in (res, s', ps @ ps'))"
    and "map unat ps @ [unat iv'] = backoff (unat mx) (unat iv) (Suc k)" and "unat iv' < 2 ^ 63"
proof -
  have pre: "0 < (1 :: nat)" "1 + k < 2 ^ 32" "mr = 0 \<or> 1 + k \<le> unat mr" using assms by auto
  show ?thesis using connect_loop_prefix [OF pre assms(3,4), of p s] that
    unfolding of_nat_1 plus_1_eq_Suc by blast
qed

text \<open>The loop after its first attempt, up to the attempt that ends it, and up to the limit.\<close>

lemma connect_loop_ends:
  assumes "k < 2 ^ 32 - 2" and "mr = 0 \<or> Suc k < unat mr" and "unat mx < 2 ^ 63" and "unat iv < 2 ^ 63"
    and "try_connect a s = (res, s')" and "res = Ok () \<or> res = Panic"
  shows "\<exists>ps. connect_loop p mr mx 1 iv s (replicate k NoNode @ [a]) = (Some res, s', ps) \<and>
    map unat ps = backoff (unat mx) (unat iv) (Suc k)"
proof -
  have k: "Suc k < 2 ^ 32" "mr = 0 \<or> Suc k \<le> unat mr" using assms(1,2) by auto
  obtain ps iv' where ps: "\<forall>rest. connect_loop p mr mx 1 iv s (replicate k NoNode @ rest) =
        (let (res, s', ps') = connect_loop p mr mx (of_nat (Suc k)) iv' s rest in (res, s', ps @ ps'))"
      "map unat ps @ [unat iv'] = backoff (unat mx) (unat iv) (Suc k)" "unat iv' < 2 ^ 63"
    using connect_loop_prefix_1 [OF k assms(3,4), of p s] by blast
  note ar = retry_arith [of "Suc k" mx iv']
  have go: "mr = 0 \<or> of_nat (Suc k) < mr" using assms(1-3) ps(3) ar(1) by (auto simp: word_less_nat_alt)
  have "connect_loop p mr mx (of_nat (Suc k)) iv' s [a] = (Some res, s', [iv'])"
    using go assms ps(3) ar(2,3) by (subst connect_loop.simps) (auto simp: Let_def)
  then show ?thesis using ps(1,2) by auto
qed

lemma connect_loop_fails:
  assumes "unat mr = Suc k" and "unat mx < 2 ^ 63" and "unat iv < 2 ^ 63"
  shows "\<exists>ps. connect_loop p mr mx 1 iv s (replicate k NoNode) = (Some (Err ''connect failed''), s, ps) \<and>
    length ps = k"
proof -
  have "unat mr < 2 ^ LENGTH(32)" by (rule unsigned_less)
  then have k: "Suc k < 2 ^ 32" using assms(1) by simp
  obtain ps iv' where ps: "\<forall>rest. connect_loop p mr mx 1 iv s (replicate k NoNode @ rest) =
        (let (res, s', ps') = connect_loop p mr mx (of_nat (Suc k)) iv' s rest in (res, s', ps @ ps'))"
      "map unat ps @ [unat iv'] = backoff (unat mx) (unat iv) (Suc k)"
    using connect_loop_prefix_1 [OF k disjI2 [OF eq_imp_le [OF assms(1) [symmetric]]] assms(2,3), of p s] by blast
  have "length (backoff m i n) = n" for m i n by (induction n arbitrary: i) auto
  then have len: "length ps = k" using arg_cong [OF ps(2), of length] by simp
  have mr: "of_nat (Suc k) = mr" unfolding assms(1) [symmetric] by simp
  then have "mr \<noteq> 0" using assms(1) by auto
  then have "connect_loop p mr mx (of_nat (Suc k)) iv' s [] = (Some (Err ''connect failed''), s, [])"
    using mr by (subst connect_loop.simps) simp
  then show ?thesis using ps(1) [THEN spec, of "[]"] len by auto
qed

section \<open>Runs of a client\<close>

text \<open>
  What can happen to a client, with the effects so far: the user sends or closes, the tasks answer,
  reconnect and receive. Ids of the messages sent, and those replied to, have \<open>n\<close> bytes or none.
\<close>

definition names_id :: "crates \<Rightarrow> client_codec \<Rightarrow> nat \<Rightarrow> bytes \<Rightarrow> bytes \<Rightarrow> bool" where
  "names_id cr cc n curve_secret_key data \<longleftrightarrow>
     (\<forall>cm im cache encrypted pl. dec_client_message cc data = Some cm \<and> dec_inbound cc (cm_message cm) = Some im \<and>
        fst (open_payload cr cc curve_secret_key im cache) = Ok (encrypted, pl) \<longrightarrow>
        length (pp_reply_to_id pl) \<in> {0, n})"

inductive client_step ::
    "crates \<Rightarrow> buf_crate \<Rightarrow> client_codec \<Rightarrow> nat \<Rightarrow> bytes \<Rightarrow> client_state \<times> client_effect list \<Rightarrow>
      client_state \<times> client_effect list \<Rightarrow> bool"
  for cr bc cc n curve_secret_key where
  sends: "\<lbrakk>client_send cr bc cc lookup rnd nonces acc address_id curve_secret_key s dests pl config = (r, s', es);
      length (pp_message_id pl) \<in> {0, n}\<rbrakk> \<Longrightarrow> client_step cr bc cc n curve_secret_key (s, tr) (s', tr @ es)"
| answers: "handle_reply_round cr bc cc lookup rnd nonces acc address_id curve_secret_key s reply = (r, s', es) \<Longrightarrow>
      client_step cr bc cc n curve_secret_key (s, tr) (s', tr @ es)"
| receives: "\<lbrakk>receive_round cr bc cc parse_json random_salt privkey curve_secret_key s data = (r, s', es);
      names_id cr cc n curve_secret_key (butlast data)\<rbrakk> \<Longrightarrow>
      client_step cr bc cc n curve_secret_key (s, tr) (s', tr @ es)"
| connects: "connect p config max_retries s attempts = (r, s', pauses) \<Longrightarrow>
      client_step cr bc cc n curve_secret_key (s, tr) (s', tr)"
| closes: "client_step cr bc cc n curve_secret_key (s, tr) (client_close s, tr)"

inductive_cases client_stepE: "client_step cr bc cc n curve_secret_key st st'"

abbreviation no_response :: "client_effect list \<Rightarrow> bool" where
  "no_response es \<equiv> \<forall>e \<in> set es. \<forall>k m. e \<noteq> ResponseTx k m"

text \<open>No response channel is filed under the hex of an id, and none has received a reply.\<close>

definition no_replies :: "crates \<Rightarrow> nat \<Rightarrow> client_state \<times> client_effect list \<Rightarrow> bool" where
  "no_replies cr n = (\<lambda>(s, tr). hex_laws cr \<and> 0 < n \<and> (\<forall>k \<in> cl_responses s. length k \<in> {0, n}) \<and> no_response tr)"

lemma write_message_effects: "write_message data ws = (r, es) \<Longrightarrow> e \<in> set es \<Longrightarrow> \<exists>bs. e = WsBinary bs"
  by (auto simp: write_message_def split: ws_sender.splits)

lemma write_all_effects: "write_all cr cc ms ws = (r, es) \<Longrightarrow> e \<in> set es \<Longrightarrow> \<exists>bs. e = WsBinary bs"
proof (induction ms arbitrary: r es)
  case (Cons m ms)
  then show ?case using write_message_effects by (fastforce split: prod.splits outcome.splits simp: Let_def)
qed simp

lemma send_messages_effects:
  "send_messages cr bc cc lookup rnd nonces me sk dests pl enc mh ws cache = (r, cache', es) \<Longrightarrow> e \<in> set es \<Longrightarrow>
     \<exists>bs. e = WsBinary bs"
  using write_all_effects by (fastforce simp: send_messages_def Let_def split: outcome.splits prod.splits if_splits)

lemma send_receipt_effects: "e \<in> set (snd (send_receipt cr bc cc h privkey ws)) \<Longrightarrow> \<exists>bs. e = WsBinary bs"
  by (auto simp: send_receipt_def write_message_def Let_def split: outcome.splits ws_sender.splits)

lemma try_connect_keeps:
  "cl_responses (snd (try_connect a s)) = cl_responses s" "cl_closed (snd (try_connect a s)) = cl_closed s"
  by (cases a; simp add: connect_to_node_def Let_def split: outcome.split option.split)+

lemma connect_loop_keeps:
  "cl_responses (fst (snd (connect_loop p mr mx retry iv s attempts))) = cl_responses s \<and>
   cl_closed (fst (snd (connect_loop p mr mx retry iv s attempts))) = cl_closed s"
proof (induction attempts arbitrary: retry iv s)
  case Nil
  show ?case
    by (cases "next_interval p mx retry iv"; simp add: connect_loop.simps [of _ _ _ _ _ _ "[]"] Let_def)
next
  case (Cons a as)
  obtain q t where t: "try_connect a s = (q, t)" by fastforce
  then have keeps: "cl_responses t = cl_responses s" "cl_closed t = cl_closed s"
    using try_connect_keeps [of a s] by simp_all
  show ?case
    by (cases "next_interval p mx retry iv"; cases q; cases "add_u p retry 1 :: (u32, string) outcome";
      simp add: connect_loop.simps [of _ _ _ _ _ _ "a # as"] Let_def t keeps Cons.IH split_beta)
qed

lemma client_send_responses:
  assumes "client_send cr bc cc lookup rnd nonces acc address_id sk s dests pl config = (r, s', es)"
  shows "cl_responses s' \<subseteq> insert (of_bytes (pp_message_id pl)) (cl_responses s)" "cl_closed s' = cl_closed s"
    "no_response es"
proof -
  obtain q cache es' where m: "send_messages cr bc cc lookup rnd nonces (client_sender acc address_id s) sk dests pl
      (\<not> mc_unencrypted config) (mc_max_holding_secs config) (cl_ws s) (cl_keys s) = (q, cache, es')"
    by (metis prod_cases3)
  then show "cl_responses s' \<subseteq> insert (of_bytes (pp_message_id pl)) (cl_responses s)" "cl_closed s' = cl_closed s"
    using assms by (auto simp: client_send_def from_utf8_def Let_def split: outcome.splits if_splits option.splits)
  have "es = es'" using assms m
    by (auto simp: client_send_def Let_def split: outcome.splits if_splits option.splits)
  then show "no_response es" using send_messages_effects [OF m] by blast
qed

text \<open>An inbound message whose reply id is not among the keys delivers nothing to a response channel.\<close>

lemma handle_inbound_no_reply:
  assumes "handle_inbound cr bc cc privkey sk s im = (r, s', es)"
    and "\<And>encrypted pl. fst (open_payload cr cc sk im (cl_keys s)) = Ok (encrypted, pl) \<Longrightarrow>
      pp_reply_to_id pl = [] \<or> hex_encode cr (pp_reply_to_id pl) \<notin> cl_responses s"
  shows "cl_responses s' = cl_responses s \<and> cl_closed s' = cl_closed s \<and> no_response es"
proof -
  obtain q cache where q: "open_payload cr cc sk im (cl_keys s) = (q, cache)" by fastforce
  let ?R = "if im_prev_hash im \<noteq> [] then snd (send_receipt cr bc cc (im_prev_hash im) privkey (cl_ws s)) else []"
  have "cl_responses s' = cl_responses s \<and> cl_closed s' = cl_closed s \<and> (es = ?R \<or> (\<exists>m. es = ?R @ [MessageTx m]))"
  proof (cases "and_then q (\<lambda>(encrypted, pl). and_then (payload_data cc pl) (\<lambda>data. Ok (encrypted, pl, data)))")
    case (Ok x)
    then obtain encrypted pl data where "q = Ok (encrypted, pl)" "x = (encrypted, pl, data)"
      by (auto simp: outcome_simps)
    then show ?thesis using Ok assms q by (auto simp: handle_inbound_def Let_def split: if_splits)
  qed (use assms(1) q in \<open>auto simp: handle_inbound_def Let_def\<close>)
  moreover have "no_response ?R" using send_receipt_effects by fastforce
  ultimately show ?thesis by auto
qed

lemma handle_text_keeps:
  assumes "handle_text cr rs s msg = (r, s', es)"
  shows "cl_responses s' = cl_responses s \<and> cl_closed s' = cl_closed s \<and> no_response es"
  using assms
  by (auto simp: handle_text_def Let_def split: outcome.splits if_splits option.splits prod.splits)

lemma fresh_reply_key:
  assumes "no_replies cr n (s, tr)" and "length x \<in> {0, n}"
  shows "x = [] \<or> hex_encode cr x \<notin> cl_responses s"
proof (rule disjCI)
  have len: "length (hex_encode cr x) = 2 * length x" using assms(1) hex_laws_D(2) by (simp add: no_replies_def)
  assume "\<not> hex_encode cr x \<notin> cl_responses s"
  then have "length (hex_encode cr x) \<in> {0, n}" using assms(1) by (simp add: no_replies_def)
  then show "x = []" using assms len by (auto simp: no_replies_def)
qed

lemma handle_message_keeps:
  assumes h: "handle_message cr bc cc parse_json rs privkey sk s is_text data = (r, s', es)"
    and "names_id cr cc n sk data" and "no_replies cr n (s, tr)"
  shows "cl_responses s' = cl_responses s \<and> cl_closed s' = cl_closed s \<and> no_response es"
proof (cases "\<not> cl_closed s \<and> \<not> is_text \<and> (\<exists>cm im. dec_client_message cc data = Some cm \<and>
    cm_type cm = Some InboundMessage \<and> dec_inbound cc (cm_message cm) = Some im)")
  case True
  then obtain cm im where im: "dec_client_message cc data = Some cm" "cm_type cm = Some InboundMessage"
    "dec_inbound cc (cm_message cm) = Some im" by blast
  then have inbound: "handle_inbound cr bc cc privkey sk s im = (r, s', es)"
    using h True by (simp add: handle_message_def)
  show ?thesis
  proof (rule handle_inbound_no_reply [OF inbound])
    fix encrypted pl
    assume "fst (open_payload cr cc sk im (cl_keys s)) = Ok (encrypted, pl)"
    then have "length (pp_reply_to_id pl) \<in> {0, n}" using assms(2) im unfolding names_id_def by blast
    then show "pp_reply_to_id pl = [] \<or> hex_encode cr (pp_reply_to_id pl) \<notin> cl_responses s"
      by (rule fresh_reply_key [OF assms(3)])
  qed
next
  case False
  show ?thesis
  proof (cases "\<not> cl_closed s \<and> is_text")
    case True
    then show ?thesis using h handle_text_keeps [of cr rs s] by (auto simp: handle_message_def split: option.splits)
  next
    case no_text: False
    then show ?thesis using h False by (auto simp: handle_message_def split: option.splits if_splits)
  qed
qed

lemma receive_round_keeps:
  assumes "receive_round cr bc cc parse_json rs privkey sk s data = (r, s', es)"
    and "names_id cr cc n sk (butlast data)" and "no_replies cr n (s, tr)"
  shows "cl_responses s' = cl_responses s \<and> cl_closed s' = cl_closed s \<and> no_response es"
proof (cases "cl_closed s \<or> data = []")
  case False
  then obtain q where "handle_message cr bc cc parse_json rs privkey sk s (last data = 0) (butlast data) = (q, s', es)"
    using assms(1) by (auto simp: receive_round_def Let_def split: prod.splits)
  then show ?thesis by (rule handle_message_keeps [OF _ assms(2,3)])
qed (use assms(1) in \<open>auto simp: receive_round_def split: if_splits\<close>)

lemma handle_reply_round_keeps:
  assumes "handle_reply_round cr bc cc lookup rnd nonces acc address_id sk s reply = (r, s', es)"
  shows "cl_responses s' = cl_responses s \<and> cl_closed s' = cl_closed s \<and> no_response es"
proof -
  obtain src pl encrypted where reply: "reply = (src, pl, encrypted)" by (metis prod_cases3)
  obtain q cache es' where m: "send_messages cr bc cc lookup rnd nonces (client_sender acc address_id s) sk [src] pl
      encrypted 0 (cl_ws s) (cl_keys s) = (q, cache, es')"
    by (metis prod_cases3)
  then have "s' = s\<lparr>cl_keys := cache\<rparr>" "es = es'" using assms reply by (auto simp: handle_reply_round_def)
  then show ?thesis using send_messages_effects [OF m] by auto
qed

lemma no_repliesI:
  assumes "no_replies cr n (s, tr)" and "\<forall>k \<in> cl_responses s'. length k \<in> {0, n}" and "no_response es"
  shows "no_replies cr n (s', tr @ es)"
  using assms unfolding no_replies_def by (simp add: ball_Un)

lemma no_replies_keep:
  assumes "no_replies cr n (s, tr)" and "cl_responses s' = cl_responses s \<and> cl_closed s' = cl_closed s \<and> no_response es"
  shows "no_replies cr n (s', tr @ es)"
  using assms unfolding no_replies_def by (simp add: ball_Un)

interpretation client: step_invariant "client_step cr bc cc n sk" "no_replies cr n"
proof
  fix st st'
  assume "no_replies cr n st" and "client_step cr bc cc n sk st st'"
  from this(2,1) show "no_replies cr n st'"
  proof (induction rule: client_step.induct)
    case (sends lookup rnd nonces acc address_id s dests pl config r s' es tr)
    have "length (of_bytes (pp_message_id pl)) \<in> {0, n}" using sends by (simp add: of_bytes_def)
    moreover have "\<forall>k \<in> cl_responses s. length k \<in> {0, n}" using sends(3) by (simp add: no_replies_def)
    ultimately have "\<forall>k \<in> cl_responses s'. length k \<in> {0, n}" using client_send_responses(1) [OF sends(1)] by blast
    then show ?case by (rule no_repliesI [OF sends(3) _ client_send_responses(3) [OF sends(1)]])
  next
    case answers
    show ?case by (rule no_replies_keep [OF answers(2) handle_reply_round_keeps [OF answers(1)]])
  next
    case receives
    show ?case by (rule no_replies_keep [OF receives(3) receive_round_keeps [OF receives]])
  next
    case (connects p config max_retries s attempts r s' pauses tr)
    then show ?case
      using connect_loop_keeps [of p max_retries "cc_max_reconnect_interval config" 0 "cc_min_reconnect_interval config" s attempts]
      by (simp add: no_replies_def connect_def)
  next
    case closes
    then show ?case by (simp add: no_replies_def client_close_def)
  qed
qed

section \<open>Properties\<close>

text \<open>C2: what a client encrypts for its destinations, each of them can open. The payloads that
  \<open>encrypt_payload\<close> makes for a list of addresses are one for each, and the holder of the address'
  key, who receives it from the sender's address, gets the payload back; one destination and several
  take different paths through the code. The caches of shared keys may hold anything that is right
  for the keys involved.\<close>

theorem encrypted_payload_opens:
  assumes laws: "hex_laws cr" "box_laws cr" "exchange_laws cr" "codec_laws cc"
    and sender: "wf_account cr a" "curve_key cr a ska"
    and targets: "targets \<noteq> []" "\<forall>(b, ident) \<in> set targets. wf_account cr b"
    and sizes: "length (rand_key rnd) = 32" "length (rand_nonce rnd) = 24"
      "length (rand_key_nonces rnd) = length targets" "\<forall>kn \<in> set (rand_key_nonces rnd). length kn = 24"
    and cache: "cache_right cr ska (public_key ` fst ` set targets) cache"
  shows "\<exists>msgs cache'. encrypt_payload cr cc rnd pl
      (map (\<lambda>(b, ident). make_address_string cr (public_key b) ident) targets) ska cache = (Ok msgs, cache') \<and>
    length msgs = length targets \<and>
    (\<forall>i < length targets. \<forall>skb cache_b src_ident prev. curve_key cr (fst (targets ! i)) skb \<and>
       cache_right cr skb {public_key a} cache_b \<longrightarrow>
       fst (open_payload cr cc skb \<lparr>im_src = make_address_string cr (public_key a) src_ident,
         im_payload = msgs ! i, im_prev_hash = prev\<rparr> cache_b) = Ok (True, pl))"
  unfolding opens_for_def [symmetric]
proof (cases "1 < length targets")
  case True
  then show "\<exists>msgs cache'. encrypt_payload cr cc rnd pl
      (map (\<lambda>(b, ident). make_address_string cr (public_key b) ident) targets) ska cache = (Ok msgs, cache') \<and>
    length msgs = length targets \<and> (\<forall>i < length targets. opens_for cr cc pl a (fst (targets ! i)) (msgs ! i))"
    using targets(2) sizes by (intro encrypt_payload_several [OF laws sender _ _ _ _ _ _ cache]) auto
next
  case False
  then obtain b ident where t: "targets = [(b, ident)]"
    using targets(1) by (cases targets) auto
  then show "\<exists>msgs cache'. encrypt_payload cr cc rnd pl
      (map (\<lambda>(b, ident). make_address_string cr (public_key b) ident) targets) ska cache = (Ok msgs, cache') \<and>
    length msgs = length targets \<and> (\<forall>i < length targets. opens_for cr cc pl a (fst (targets ! i)) (msgs ! i))"
    using encrypt_payload_single [OF laws sender, of b rnd cache pl ident] targets(2) sizes(2) cache by auto
qed

text \<open>Accounts and a codec for the witnesses.\<close>

definition demo_acc :: "u8 \<Rightarrow> account" where
  "demo_acc n = \<lparr>private_key = replicate 32 n, public_key = replicate 32 n,
     account_program_hash = create_program_hash demo (replicate 32 n)\<rparr>"

lemma demo_acc_wf: "wf_account demo (demo_acc n)" "curve_key demo (demo_acc n) (replicate 32 n)"
  by (simp_all add: demo_acc_def wf_account_def demo_def ed25519_private_key_to_curve25519_private_key_def)

definition flag :: "bool \<Rightarrow> bytes" where
  "flag b = (if b then [1] else [0])"

definition demo_client_codec :: client_codec where
  "demo_client_codec = \<lparr>
     enc_msg_payload = (\<lambda>q. enc_fields [be_put 4 (pp_type q), pp_message_id q, pp_data q, pp_reply_to_id q,
       flag (pp_no_reply q)]),
     dec_msg_payload = (\<lambda>bs. case dec_fields bs of
         Some [t, i, d, r, f] \<Rightarrow> Some \<lparr>pp_type = be_get t, pp_message_id = i, pp_data = d, pp_reply_to_id = r,
           pp_no_reply = (f = [1])\<rparr>
       | _ \<Rightarrow> None),
     enc_pb_message = (\<lambda>m. enc_fields [pm_payload m, flag (pm_encrypted m), pm_nonce m, pm_encrypted_key m]),
     dec_pb_message = (\<lambda>bs. case dec_fields bs of
         Some [q, f, n, k] \<Rightarrow> Some \<lparr>pm_payload = q, pm_encrypted = (f = [1]), pm_nonce = n, pm_encrypted_key = k\<rparr>
       | _ \<Rightarrow> None),
     enc_outbound = (\<lambda>m. enc_fields (map as_bytes (om_dests m) @ om_payloads m @ om_signatures m)),
     dec_inbound = (\<lambda>bs. case dec_fields bs of
         Some [s, q, h] \<Rightarrow> Some \<lparr>im_src = of_bytes s, im_payload = q, im_prev_hash = h\<rparr> | _ \<Rightarrow> None),
     enc_client_message = (\<lambda>m. cm_message m),
     dec_client_message = (\<lambda>bs. Some \<lparr>cm_type = Some InboundMessage, cm_message = bs, cm_compression = CompressionNone\<rparr>),
     enc_receipt = (\<lambda>h sig. enc_fields [h, sig]),
     dec_text_data = (\<lambda>bs. Some (of_bytes bs))\<rparr>"

lemma demo_client_codec_laws: "codec_laws demo_client_codec"
  by (simp add: codec_laws_def demo_client_codec_def flag_def)

lemma demo_keys_distinct: "inj_on from_utf8_lossy {replicate 32 6, replicate 32 7}"
proof -
  have "from_utf8_lossy (replicate 32 6) \<noteq> from_utf8_lossy (replicate 32 7)" by code_simp
  then show ?thesis by (auto simp: inj_on_def)
qed

theorem encrypted_payload_opens_witness:
  "\<exists>msgs cache'. encrypt_payload demo demo_client_codec
      \<lparr>rand_key = replicate 32 1, rand_nonce = replicate 24 2, rand_key_nonces = [replicate 24 3, replicate 24 4]\<rparr>
      \<lparr>pp_type = 0, pp_message_id = [1], pp_data = [9], pp_reply_to_id = [], pp_no_reply = False\<rparr>
      [make_address_string demo (replicate 32 6) ''x'', make_address_string demo (replicate 32 7) '''']
      (replicate 32 5) Map.empty = (Ok msgs, cache') \<and>
    fst (open_payload demo demo_client_codec (replicate 32 7)
      \<lparr>im_src = make_address_string demo (replicate 32 5) ''me'', im_payload = msgs ! 1, im_prev_hash = []\<rparr> Map.empty) =
    Ok (True, \<lparr>pp_type = 0, pp_message_id = [1], pp_data = [9], pp_reply_to_id = [], pp_no_reply = False\<rparr>)"
proof -
  let ?rnd = "\<lparr>rand_key = replicate 32 1, rand_nonce = replicate 24 2, rand_key_nonces = [replicate 24 3, replicate 24 4]\<rparr> :: enc_random"
  let ?pl = "\<lparr>pp_type = 0, pp_message_id = [1], pp_data = [9], pp_reply_to_id = [], pp_no_reply = False\<rparr> :: msg_payload"
  let ?targets = "[(demo_acc 6, ''x''), (demo_acc 7, '''')]"
  have right: "cache_right demo (replicate 32 5) (public_key ` fst ` set ?targets) Map.empty"
    using demo_keys_distinct by (simp add: cache_right_def demo_acc_def)
  have wf: "\<forall>(b, ident) \<in> set ?targets. wf_account demo b" using demo_acc_wf by simp
  obtain msgs cache' where m: "encrypt_payload demo demo_client_codec ?rnd ?pl
        (map (\<lambda>(b, ident). make_address_string demo (public_key b) ident) ?targets) (replicate 32 5) Map.empty = (Ok msgs, cache')"
      "\<forall>i < 2. \<forall>skb cache_b src_ident prev. curve_key demo (fst (?targets ! i)) skb \<and>
         cache_right demo skb {public_key (demo_acc 5)} cache_b \<longrightarrow>
         fst (open_payload demo demo_client_codec skb \<lparr>im_src = make_address_string demo (public_key (demo_acc 5)) src_ident,
           im_payload = msgs ! i, im_prev_hash = prev\<rparr> cache_b) = Ok (True, ?pl)"
    using encrypted_payload_opens [OF demo_laws(1,4,5) demo_client_codec_laws demo_acc_wf [of 5] _ wf _ _ _ _ right, of ?rnd ?pl]
    by auto
  have "cache_right demo (replicate 32 7) {public_key (demo_acc 5)} Map.empty" by (simp add: cache_right_def)
  moreover have "curve_key demo (fst (?targets ! 1)) (replicate 32 7)" using demo_acc_wf(2) [of 7] by simp
  ultimately show ?thesis
    using m by (intro exI [of _ msgs] exI [of _ cache']) (simp add: demo_acc_def)
qed

text \<open>C4: how \<open>send_messages\<close> splits what it sends. With a payload for each destination, the outbound
  messages together carry all destinations and payloads, in order; none is empty and none exceeds
  the limit of a client message. With one payload for all, there is one message, within the limit.\<close>

theorem outbound_batches:
  assumes "make_outbound (\<lambda>k. create_outbound_message cr bc me (nonces k) mh) dests payloads = Ok msgs"
    and "dests \<noteq> []" and "length payloads = length dests \<or> length payloads = 1"
  shows "(1 < length payloads \<longrightarrow>
      concat (map om_dests msgs) = dests \<and> concat (map om_payloads msgs) = payloads \<and>
      (\<forall>m \<in> set msgs. om_dests m \<noteq> [] \<and> length (om_payloads m) = length (om_dests m) \<and>
         batch_size (zip (om_dests m) (om_payloads m)) \<le> MAX_CLIENT_MESSAGE_SIZE)) \<and>
    (length payloads = 1 \<longrightarrow> (\<exists>m. msgs = [m] \<and> om_dests m = dests \<and> om_payloads m = payloads \<and>
       length (payloads ! 0) + sum_list (map (\<lambda>d. length d + SIGNATURE_LEN) dests) \<le> MAX_CLIENT_MESSAGE_SIZE))"
proof (intro conjI impI)
  assume many: "1 < length payloads"
  then have len: "length payloads = length dests" using assms(3) by simp
  have "zip dests payloads \<noteq> []" using many len by (cases dests; cases payloads) auto
  then obtain batches where b: "concat batches = zip dests payloads"
      "\<forall>b \<in> set batches. b \<noteq> [] \<and> batch_size b \<le> MAX_CLIENT_MESSAGE_SIZE" "length msgs = length batches"
      "\<forall>k < length batches. create_outbound_message cr bc me (nonces k) mh (map fst (batches ! k)) (map snd (batches ! k)) =
         Ok (msgs ! k)"
    using batch_loop_Ok [of "\<lambda>k batch. create_outbound_message cr bc me (nonces k) mh (map fst batch) (map snd batch)"
        "zip dests payloads" "[]" "[]" msgs] assms(1) many
    unfolding make_outbound_def by auto
  have m: "om_dests (msgs ! k) = map fst (batches ! k)" "om_payloads (msgs ! k) = map snd (batches ! k)"
    if "k < length batches" for k
    using b(4) that create_outbound_message_fields by blast+
  then have "map om_dests msgs = map (map fst) batches" "map om_payloads msgs = map (map snd) batches"
    using b(3) by (simp_all add: list_eq_iff_nth_eq)
  then have "concat (map om_dests msgs) = map fst (concat batches)"
      "concat (map om_payloads msgs) = map snd (concat batches)"
    by (simp_all add: map_concat)
  then show "concat (map om_dests msgs) = dests" "concat (map om_payloads msgs) = payloads"
    using b(1) len by simp_all
  show "\<forall>m \<in> set msgs. om_dests m \<noteq> [] \<and> length (om_payloads m) = length (om_dests m) \<and>
      batch_size (zip (om_dests m) (om_payloads m)) \<le> MAX_CLIENT_MESSAGE_SIZE"
    using b(2,3) m by (metis in_set_conv_nth length_map map_is_Nil_conv zip_map_fst_snd)
next
  assume "length payloads = 1"
  then obtain q where "payloads = [q]" by (cases payloads) auto
  then show "\<exists>m. msgs = [m] \<and> om_dests m = dests \<and> om_payloads m = payloads \<and>
      length (payloads ! 0) + sum_list (map (\<lambda>d. length d + SIGNATURE_LEN) dests) \<le> MAX_CLIENT_MESSAGE_SIZE"
    using assms(1) create_outbound_message_fields
    by (fastforce simp: make_outbound_def outcome_simps split: if_splits)
qed

definition demo_node :: node where
  "demo_node = \<lparr>n_addr = ''a'', n_rpc_addr = [], n_pubkey = ''0a0b'', n_id = []\<rparr>"

definition demo_sender :: sender where
  "demo_sender = \<lparr>snd_public_key = public_key (demo_acc 5), snd_private_key = private_key (demo_acc 5),
     snd_address_id = [1, 2], snd_node = Some demo_node, snd_block_hash = Some ''0c''\<rparr>"

lemma demo_sender_hex: "hex_decode demo ''0a0b'' = Some [0x0a, 0x0b]" "hex_decode demo ''0c'' = Some [0x0c]"
  by code_simp+

lemma demo_dest_parses: "parse_client_address demo (make_address_string demo (replicate 32 6) ''x'') =
    Ok (sha256 demo (as_bytes (make_address_string demo (replicate 32 6) ''x'')), replicate 32 6, ''x'')"
  by (intro parse_make_address demo_laws) simp_all

theorem outbound_batches_witness:
  "\<exists>m. make_outbound (\<lambda>k. create_outbound_message demo be_crate demo_sender 7 9)
      [make_address_string demo (replicate 32 6) ''x''] [[1, 2, 3]] = Ok [m] \<and>
    om_dests m = [make_address_string demo (replicate 32 6) ''x''] \<and> om_payloads m = [[1, 2, 3]]"
proof -
  let ?dests = "[make_address_string demo (replicate 32 6) ''x'']"
  have len: "length (make_address_string demo (replicate 32 6) ''x'') = 66"
    using hex_laws_D(2) [OF demo_laws(1)] by (simp add: make_address_string_def)
  obtain m where "create_outbound_message demo be_crate demo_sender 7 9 ?dests [[1, 2, 3]] = Ok m"
    using create_outbound_message_signed [OF demo_laws(3) demo_acc_wf(1) [of 5], of demo_sender demo_node "[0x0a, 0x0b]"
        "[0x0c]" ?dests "[[1, 2, 3]]" be_crate 7 9] demo_dest_parses demo_sender_hex
    by (auto simp: demo_sender_def demo_node_def)
  then have "make_outbound (\<lambda>k. create_outbound_message demo be_crate demo_sender 7 9) ?dests [[1, 2, 3]] = Ok [m]"
    using len by (simp add: make_outbound_def)
  then show ?thesis using outbound_batches [of demo be_crate demo_sender "\<lambda>k. 7" 9 ?dests "[[1, 2, 3]]" "[m]"] by simp
qed

text \<open>C3: a client with a node makes an outbound message for destinations that parse, and signs it for
  each of them: the signature verifies, under the key of the sender, for the digest of a chain that
  names this destination, the length of its payload, the sender, the block hash and the next node.\<close>

theorem outbound_signatures_verify:
  assumes "ed25519_laws cr" and "wf_account cr a"
    and "snd_public_key me = public_key a" and "snd_private_key me = private_key a" and "snd_node me = Some nd"
    and "hex_decode cr (n_pubkey nd) = Some node_key"
    and "case snd_block_hash me of None \<Rightarrow> block_hash = [] | Some h \<Rightarrow> hex_decode cr h = Some block_hash"
    and "\<forall>d \<in> set dests. \<exists>x. parse_client_address cr d = Ok x"
    and "length payloads = 1 \<or> length payloads = length dests"
  shows "\<exists>m. create_outbound_message cr bc me nonce mh dests payloads = Ok m \<and>
    (\<forall>i < length dests. \<exists>d_id d_key ident. parse_client_address cr (dests ! i) = Ok (d_id, d_key, ident) \<and>
       ed25519_verify cr (outbound_digest cr bc me nonce block_hash node_key d_id d_key
         (length (if 1 < length payloads then payloads ! i else payloads ! 0))) (public_key a) (om_signatures m ! i) =
         (Ok True :: (bool, string) outcome))"
  using assms by (rule create_outbound_message_signed)

theorem outbound_signatures_verify_witness:
  "\<exists>m. create_outbound_message demo be_crate demo_sender 7 9
      [make_address_string demo (replicate 32 6) ''x''] [[1, 2, 3]] = Ok m \<and>
    ed25519_verify demo (outbound_digest demo be_crate demo_sender 7 [0x0c] [0x0a, 0x0b]
      (sha256 demo (as_bytes (make_address_string demo (replicate 32 6) ''x''))) (replicate 32 6) 3)
      (replicate 32 5) (om_signatures m ! 0) = (Ok True :: (bool, string) outcome)"
proof -
  let ?dests = "[make_address_string demo (replicate 32 6) ''x'']"
  show ?thesis
    using outbound_signatures_verify [OF demo_laws(3) demo_acc_wf(1) [of 5], of demo_sender demo_node "[0x0a, 0x0b]"
        "[0x0c]" ?dests "[[1, 2, 3]]" be_crate 7 9] demo_dest_parses demo_sender_hex
    by (auto simp: demo_sender_def demo_node_def demo_acc_def numeral_3_eq_3)
qed


definition demo_inbound :: "msg_payload \<Rightarrow> bytes" where
  "demo_inbound pl = enc_fields [as_bytes ''s'', enc_pb_message demo_client_codec
     \<lparr>pm_payload = enc_msg_payload demo_client_codec pl, pm_encrypted = False, pm_nonce = [], pm_encrypted_key = []\<rparr>, []]"

definition demo_reply :: msg_payload where
  "demo_reply = \<lparr>pp_type = 0, pp_message_id = [2], pp_data = [9], pp_reply_to_id = [65], pp_no_reply = True\<rparr>"

definition demo_plain :: msg_payload where
  "demo_plain = \<lparr>pp_type = 0, pp_message_id = [3], pp_data = [8], pp_reply_to_id = [], pp_no_reply = True\<rparr>"

lemma demo_inbound_decodes:
  "dec_client_message demo_client_codec (demo_inbound pl) =
     Some \<lparr>cm_type = Some InboundMessage, cm_message = demo_inbound pl, cm_compression = CompressionNone\<rparr>"
  "\<exists>im. dec_inbound demo_client_codec (demo_inbound pl) = Some im \<and> im_src im = ''s'' \<and> im_prev_hash im = [] \<and>
     (\<forall>sk cache. open_payload demo demo_client_codec sk im cache = (Ok (False, pl), cache))"
proof -
  show "dec_client_message demo_client_codec (demo_inbound pl) =
     Some \<lparr>cm_type = Some InboundMessage, cm_message = demo_inbound pl, cm_compression = CompressionNone\<rparr>"
    by (simp add: demo_client_codec_def)
  let ?im = "\<lparr>im_src = ''s'', im_payload = enc_pb_message demo_client_codec
     \<lparr>pm_payload = enc_msg_payload demo_client_codec pl, pm_encrypted = False, pm_nonce = [], pm_encrypted_key = []\<rparr>,
     im_prev_hash = []\<rparr>"
  have "dec_inbound demo_client_codec (demo_inbound pl) = Some ?im"
    by (simp add: demo_inbound_def demo_client_codec_def)
  moreover have "open_payload demo demo_client_codec sk ?im cache = (Ok (False, pl), cache)" for sk cache
    using demo_client_codec_laws by (simp add: open_payload_def codec_laws_def)
  ultimately show "\<exists>im. dec_inbound demo_client_codec (demo_inbound pl) = Some im \<and> im_src im = ''s'' \<and> im_prev_hash im = [] \<and>
     (\<forall>sk cache. open_payload demo demo_client_codec sk im cache = (Ok (False, pl), cache))" by fastforce
qed

text \<open>Receiving a plain message and then a reply.\<close>

abbreviation demo_message :: message where
  "demo_message \<equiv> \<lparr>m_src = ''s'', m_data = [8], m_type = 0, m_encrypted = False, m_message_id = [3], m_no_reply = True\<rparr>"

lemma demo_receive_round:
  assumes "\<not> cl_closed s" and "cl_responses s = {}" and "pl = demo_reply \<or> pl = demo_plain"
  shows "receive_round demo be_crate demo_client_codec (\<lambda>_. None) [] [] sk s (demo_inbound pl @ [1]) =
    (Ok True, s, if pl = demo_reply then [] else [MessageTx demo_message])"
proof -
  obtain im where "dec_inbound demo_client_codec (demo_inbound pl) = Some im" "im_src im = ''s''" "im_prev_hash im = []"
    "\<forall>sk cache. open_payload demo demo_client_codec sk im cache = (Ok (False, pl), cache)"
    using demo_inbound_decodes(2) by blast
  then show ?thesis using assms demo_inbound_decodes(1) [of pl]
    by (auto simp: receive_round_def handle_message_def handle_inbound_def payload_data_def demo_reply_def demo_plain_def)
qed

lemma demo_receives:
  assumes "\<not> cl_closed s" and "cl_responses s = {}" and "pl = demo_reply \<or> pl = demo_plain"
  shows "client_step demo be_crate demo_client_codec 1 sk (s, tr) (s, tr @ (if pl = demo_reply then [] else [MessageTx demo_message]))"
proof -
  obtain im where im: "dec_inbound demo_client_codec (demo_inbound pl) = Some im"
    "\<forall>sk cache. open_payload demo demo_client_codec sk im cache = (Ok (False, pl), cache)"
    using demo_inbound_decodes(2) by blast
  have "names_id demo demo_client_codec 1 sk (demo_inbound pl)"
    using im assms(3) by (auto simp: names_id_def demo_inbound_decodes(1) demo_reply_def demo_plain_def)
  then show ?thesis by (intro client_step.receives [OF demo_receive_round [OF assms]]) simp
qed


text \<open>C6: the retries of \<open>connect\<close>. After \<open>k\<close> attempts that find no node, an attempt that ends the
  loop (connected, or panicked on an unreachable node) gives its own result; the pauses double from the
  minimum up to the maximum. With a limit on the attempts, that many without a node give an error.\<close>

theorem connect_backoff:
  assumes "unat (cc_max_reconnect_interval config) < 2 ^ 63"
    and "unat (cc_min_reconnect_interval config) \<le> unat (cc_max_reconnect_interval config)"
    and "k < 2 ^ 32 - 2" and "max_retries = 0 \<or> k < unat max_retries"
    and "try_connect a s = (res, s')" and "res = Ok () \<or> res = Panic"
  shows "(\<exists>ps. connect p config max_retries s (replicate k NoNode @ [a]) = (Some res, s', ps) \<and>
      map unat ps = map (\<lambda>j. min (unat (cc_max_reconnect_interval config))
        (unat (cc_min_reconnect_interval config) * 2 ^ j)) [0..<k]) \<and>
    (max_retries \<noteq> 0 \<longrightarrow> (\<exists>ps. connect p config max_retries s (replicate (unat max_retries) NoNode) =
      (Some (Err ''connect failed''), s, ps) \<and> length ps = unat max_retries - 1))"
proof (intro conjI impI)
  have small: "unat (cc_min_reconnect_interval config) < 2 ^ 63" using assms(1,2) by simp
  have go: "max_retries = 0 \<or> 0 < max_retries" using word_gt_0 by blast
  show "\<exists>ps. connect p config max_retries s (replicate k NoNode @ [a]) = (Some res, s', ps) \<and>
      map unat ps = map (\<lambda>j. min (unat (cc_max_reconnect_interval config))
        (unat (cc_min_reconnect_interval config) * 2 ^ j)) [0..<k]"
  proof (cases k)
    case 0
    have "connect p config max_retries s [a] = (Some res, s', [])"
      using go assms(5,6) unfolding connect_def
      by (subst connect_loop.simps) (auto simp: next_interval_def Let_def)
    then show ?thesis using 0 by simp
  next
    case (Suc j)
    have "connect p config max_retries s (replicate k NoNode @ [a]) = connect_loop p max_retries
        (cc_max_reconnect_interval config) 1 (cc_min_reconnect_interval config) s (replicate j NoNode @ [a])"
      using Suc connect_loop_first [OF go] by (simp add: connect_def)
    moreover have pre: "j < 2 ^ 32 - 2" "max_retries = 0 \<or> Suc j < unat max_retries" using assms(3,4) Suc by auto
    ultimately show ?thesis
      using connect_loop_ends [OF pre assms(1) small assms(5,6), of p] Suc backoff_closed [OF assms(2), of k] by metis
  qed
  assume "max_retries \<noteq> 0"
  then obtain j where j: "unat max_retries = Suc j" by (metis not0_implies_Suc unat_eq_zero)
  have "connect p config max_retries s (replicate (unat max_retries) NoNode) = connect_loop p max_retries
      (cc_max_reconnect_interval config) 1 (cc_min_reconnect_interval config) s (replicate j NoNode)"
    using j connect_loop_first [OF go] by (simp add: connect_def)
  then show "\<exists>ps. connect p config max_retries s (replicate (unat max_retries) NoNode) =
      (Some (Err ''connect failed''), s, ps) \<and> length ps = unat max_retries - 1"
    using connect_loop_fails [OF j assms(1) small, of p s] j by auto
qed

theorem connect_backoff_witness:
  "\<forall>s. \<exists>ps. connect Debug default_client_config 0 s (replicate 8 NoNode @ [Found demo_node True (Err [])]) =
      (Some (Ok ()), s\<lparr>cl_ws := Open, cl_node := Some demo_node\<rparr>, ps) \<and>
    map unat ps = [1000, 2000, 4000, 8000, 16000, 32000, 64000, 64000]"
proof
  fix s :: client_state
  have c: "unat (cc_max_reconnect_interval default_client_config) = 64000"
    "unat (cc_min_reconnect_interval default_client_config) = 1000"
    by (simp_all add: default_client_config_def)
  have t: "try_connect (Found demo_node True (Err [])) s = (Ok (), s\<lparr>cl_ws := Open, cl_node := Some demo_node\<rparr>)"
    by (simp add: connect_to_node_def synced_address_def Let_def)
  have "[0..<8] = [0, 1, 2, 3, 4, 5, 6, 7 :: nat]" by code_simp
  then show "\<exists>ps. connect Debug default_client_config 0 s (replicate 8 NoNode @ [Found demo_node True (Err [])]) =
      (Some (Ok ()), s\<lparr>cl_ws := Open, cl_node := Some demo_node\<rparr>, ps) \<and>
    map unat ps = [1000, 2000, 4000, 8000, 16000, 32000, 64000, 64000]"
    using connect_backoff [of default_client_config 8 0 "Found demo_node True (Err [])" s "Ok ()" _ Debug] t unfolding c by auto
qed

text \<open>C7: the answer to a node's challenge. A text frame with a challenge, on a client that is open, makes the
  client sign the hash of the challenge and a fresh salt with its account's key, and the task that
  answers sends salt and signature, in hex, with the address; the signature verifies under the
  account's public key. Connecting to another node changes the wallet's configuration, not the account
  that signs.\<close>

theorem auth_challenge_answered:
  assumes "ed25519_laws cr" and "wf_account cr (w_account (cl_wallet s))" and "\<not> cl_closed s"
    and "parse_json json = Some msg" and "ct_action msg = Some ''authChallenge''" and "ct_error msg = Some 0"
    and "ct_challenge msg = Some challenge" and "hex_decode cr challenge = Some challenge_bytes"
  shows "(\<exists>sig. receive_round cr bc cc parse_json client_salt privkey sk s (frame_data (FrameText json)) =
        (Ok True, s, [ChallengeTx client_salt sig]) \<and>
      answer_challenge cr address client_salt sig Open =
        (Ok (), [WsSetClient address (hex_encode cr client_salt) (hex_encode cr sig)]) \<and>
      ed25519_verify cr (sha256_hash cr (challenge_bytes @ client_salt)) (public_key (w_account (cl_wallet s))) sig =
        (Ok True :: (bool, string) outcome)) \<and>
    w_account (cl_wallet (snd (connect_to_node nd reached state_answer s))) = w_account (cl_wallet s)"
proof (intro conjI)
  obtain sig where sig: "ed25519_sign cr (sha256_hash cr (challenge_bytes @ client_salt))
        (private_key (w_account (cl_wallet s)) @ public_key (w_account (cl_wallet s))) = (Ok sig :: (bytes, string) outcome)"
      "ed25519_verify cr (sha256_hash cr (challenge_bytes @ client_salt)) (public_key (w_account (cl_wallet s))) sig =
        (Ok True :: (bool, string) outcome)"
    using account_sign_verifies [OF assms(1,2)] by metis
  have no_error: "nkn_error_from 0 = (Ok Success :: (nkn_error, string) outcome)"
    using nkn_error_from_code [of Success] by simp
  have "receive_round cr bc cc parse_json client_salt privkey sk s (frame_data (FrameText json)) =
      (Ok True, s, [ChallengeTx client_salt sig])"
    using assms(3-8) sig(1) no_error by (simp add: receive_round_def handle_message_def handle_text_def wallet_sign_def)
  then show "\<exists>sig. receive_round cr bc cc parse_json client_salt privkey sk s (frame_data (FrameText json)) =
        (Ok True, s, [ChallengeTx client_salt sig]) \<and>
      answer_challenge cr address client_salt sig Open =
        (Ok (), [WsSetClient address (hex_encode cr client_salt) (hex_encode cr sig)]) \<and>
      ed25519_verify cr (sha256_hash cr (challenge_bytes @ client_salt)) (public_key (w_account (cl_wallet s))) sig =
        (Ok True :: (bool, string) outcome)"
    using sig(2) by (auto simp: answer_challenge_def)
  show "w_account (cl_wallet (snd (connect_to_node nd reached state_answer s))) = w_account (cl_wallet s)"
    by (simp add: connect_to_node_def set_config_def Let_def split: outcome.split option.split)
qed

text \<open>A connected client with no block hash yet.\<close>

definition demo_client :: client_state where
  "demo_client = \<lparr>cl_closed = False, cl_node = Some demo_node, cl_block_hash = None,
     cl_wallet = \<lparr>w_config = default_wallet_config demo [] [] [], w_account = demo_acc 5,
       w_data = \<lparr>wd_version = 2, wd_iv = [], wd_master_key = [], wd_seed_encrypted = [], wd_address = [],
         wd_scrypt = default_scrypt_config demo []\<rparr>\<rparr>,
     cl_ws = Open, cl_responses = {}, cl_keys = Map.empty\<rparr>"

theorem auth_challenge_answered_witness:
  "\<exists>sig. receive_round demo be_crate demo_client_codec (\<lambda>_. Some \<lparr>ct_action = Some ''authChallenge'', ct_error = Some 0,
      ct_set_client = None, ct_result = None, ct_challenge = Some ''0c''\<rparr>) (replicate 32 1) [] [] demo_client
      (frame_data (FrameText [1])) = (Ok True, demo_client, [ChallengeTx (replicate 32 1) sig]) \<and>
    ed25519_verify demo (sha256_hash demo ([0x0c] @ replicate 32 1)) (replicate 32 5) sig = (Ok True :: (bool, string) outcome)"
proof -
  have wf: "wf_account demo (w_account (cl_wallet demo_client))" "\<not> cl_closed demo_client"
    using demo_acc_wf(1) [of 5] by (simp_all add: demo_client_def)
  have pk: "public_key (w_account (cl_wallet demo_client)) = replicate 32 5" by (simp add: demo_client_def demo_acc_def)
  let ?msg = "\<lparr>ct_action = Some ''authChallenge'', ct_error = Some 0, ct_set_client = None, ct_result = None,
    ct_challenge = Some ''0c''\<rparr>"
  have json: "(\<lambda>_ :: bytes. Some ?msg) [1] = Some ?msg" by (rule refl)
  show ?thesis
    using auth_challenge_answered [OF demo_laws(3) wf json, where json = "[1]" and challenge = "''0c''" and challenge_bytes = "[0x0c]" and bc = be_crate
        and cc = demo_client_codec and client_salt = "replicate 32 1" and privkey = "[]" and sk = "[]" and address = "[]"
        and nd = demo_node and reached = True and state_answer = "Err []"] demo_sender_hex(2) unfolding pk by auto
qed

end
