(* ===== verification/ClientTasks.thy ===== *)
theory ClientTasks
  imports Client "HOL-Library.Sublist"
begin

text \<open>
  The tasks of one connection of a client (\<^verbatim>\<open>connect_to_node\<close> in \<^verbatim>\<open>src/client.rs\<close>) with the channels between
  them and the user: the task of the WebSocket, which reads frames and writes what is queued, the
  receiving task, the task that answers the challenge, the pinging task, and what the user and the tasks
  \<^verbatim>\<open>handle_reply\<close> and \<^verbatim>\<open>handle_reconnect\<close> do meanwhile. \<open>conn_move\<close> is one step of one of them. The channels
  are those of \<^verbatim>\<open>crossbeam_channel\<close>: a sender blocks when the channel is full. A run lasts until the client
  connects again; the histories of the record log what went through.
\<close>

section \<open>State\<close>

text \<open>What stays the same during a connection.\<close>

record conn_env =
  ev_crates :: crates
  ev_buf :: buf_crate
  ev_codec :: client_codec
  ev_parse_json :: "bytes \<Rightarrow> control option"
  ev_private_key :: bytes
  ev_curve_key :: bytes
  ev_address :: string

text \<open>
  The task of the WebSocket selects between reading and writing; sending a frame to the receiving task
  blocks it as a whole. The receiving task checks whether the client is closed, waits for a frame, and
  puts out what handling it gave, effect by effect; the flag says whether it goes on afterwards or has
  panicked.
\<close>

datatype ws_phase = WsPolling | WsBlocked bytes | WsEnded

datatype recv_phase = RecvLoop | RecvWaiting | RecvPutting "client_effect list" bool | RecvEnded

datatype ping_phase = PingLoop | PingSleeping | PingEnded

record conn_sys =
  cn_client :: client_state
  cn_ws :: ws_phase
  cn_recv :: recv_phase
  cn_done :: bool
  cn_ping :: ping_phase
  cn_answered :: bool                       \<comment> \<open>the task that answers the challenge has ended\<close>
  cn_frames :: "bytes list"                 \<comment> \<open>frames for the receiving task, at most 1\<close>
  cn_connect :: "node list"                 \<comment> \<open>for \<^verbatim>\<open>wait_for_connect\<close>, at most 1\<close>
  cn_message :: "message list"              \<comment> \<open>for \<^verbatim>\<open>wait_for_message\<close>, at most 1\<close>
  cn_challenge :: "(bytes \<times> bytes) list"    \<comment> \<open>salts and signatures, at most 100\<close>
  cn_reconnect :: bool                      \<comment> \<open>the signal to reconnect, at most 1\<close>
  cn_out :: "client_effect list"            \<comment> \<open>queued for the WebSocket, without a limit\<close>
  cn_arrived :: "bytes list"                \<comment> \<open>history: frames read\<close>
  cn_handled :: "(bytes \<times> client_effect list) list"   \<comment> \<open>history: frames handled, with their effects\<close>
  cn_taken :: "message list"                \<comment> \<open>history: messages the user took\<close>
  cn_nodes :: "node list"                   \<comment> \<open>history: nodes the user took\<close>
  cn_queued :: "client_effect list"         \<comment> \<open>history: all that was queued\<close>
  cn_written :: "client_effect list"        \<comment> \<open>history: what was written to the WebSocket\<close>

definition conn_start :: "client_state \<Rightarrow> conn_sys" where
  "conn_start c = \<lparr>cn_client = c, cn_ws = WsPolling, cn_recv = RecvLoop, cn_done = False, cn_ping = PingLoop,
     cn_answered = False, cn_frames = [], cn_connect = [], cn_message = [], cn_challenge = [], cn_reconnect = False,
     cn_out = [], cn_arrived = [], cn_handled = [], cn_taken = [], cn_nodes = [], cn_queued = [], cn_written = []\<rparr>"

section \<open>Steps\<close>

text \<open>Queueing for the WebSocket; the queue is gone when its task has ended.\<close>

definition queue_out :: "client_effect list \<Rightarrow> conn_sys \<Rightarrow> conn_sys" where
  "queue_out es s = (if cn_ws s = WsEnded then s else s\<lparr>cn_out := cn_out s @ es, cn_queued := cn_queued s @ es\<rparr>)"

text \<open>The end of the WebSocket's task takes its queue and its sender's receiver with it.\<close>

definition ws_end :: "conn_sys \<Rightarrow> conn_sys" where
  "ws_end s = s\<lparr>cn_ws := WsEnded, cn_out := [], cn_client := (cn_client s)\<lparr>cl_ws := Closed\<rparr>\<rparr>"

datatype ws_event =
    Frame ws_frame
  | FrameError
  | StreamEnd
  | WriteNext
  | WriteError
  | Resume           \<comment> \<open>the channel of frames has room again, or its receiver is gone\<close>

definition ws_push :: "bytes \<Rightarrow> conn_sys \<Rightarrow> conn_sys" where
  "ws_push data s =
     (if cn_recv s = RecvEnded then ws_end s
      else if cn_frames s = [] then s\<lparr>cn_ws := WsPolling, cn_frames := [data]\<rparr>
      else s\<lparr>cn_ws := WsBlocked data\<rparr>)"

definition ws_task :: "ws_event \<Rightarrow> conn_sys \<Rightarrow> conn_sys option" where
  "ws_task ev s =
     (case (cn_ws s, ev) of
        (WsPolling, Frame frame) \<Rightarrow>
          let data = frame_data frame
          in Some (if data = [] then s else ws_push data (s\<lparr>cn_arrived := cn_arrived s @ [data]\<rparr>))
      | (WsPolling, FrameError) \<Rightarrow> Some s
      | (WsPolling, StreamEnd) \<Rightarrow> Some (ws_end s)
      | (WsPolling, WriteNext) \<Rightarrow>
          (case cn_out s of
             [] \<Rightarrow> None
           | e # es \<Rightarrow> Some (s\<lparr>cn_out := es, cn_written := cn_written s @ [e]\<rparr>))
      | (WsPolling, WriteError) \<Rightarrow> Some (ws_end s)
      | (WsBlocked data, Resume) \<Rightarrow>
          if cn_recv s = RecvEnded \<or> cn_frames s = [] then Some (ws_push data s) else None
      | _ \<Rightarrow> None)"

text \<open>
  Putting an effect of a handler out: \<open>None\<close> while the channel is full. A reply goes to a channel that
  is new and has room; the answer to a second challenge finds no receiver, which is logged.
\<close>

definition put_effect :: "client_effect \<Rightarrow> conn_sys \<Rightarrow> conn_sys option" where
  "put_effect e s =
     (case e of
        ConnectTx nd \<Rightarrow> if cn_connect s = [] then Some (s\<lparr>cn_connect := [nd]\<rparr>) else None
      | MessageTx m \<Rightarrow> if cn_message s = [] then Some (s\<lparr>cn_message := [m]\<rparr>) else None
      | ChallengeTx client_salt signature \<Rightarrow>
          if cn_answered s then Some s
          else if length (cn_challenge s) < 100 then Some (s\<lparr>cn_challenge := cn_challenge s @ [(client_salt, signature)]\<rparr>)
          else None
      | ResponseTx k m \<Rightarrow> Some s
      | ReconnectTx \<Rightarrow> if cn_reconnect s then None else Some (s\<lparr>cn_reconnect := True\<rparr>)
      | _ \<Rightarrow> Some (queue_out [e] s))"

datatype recv_event =
    RecvCheck
  | RecvFrame bytes      \<comment> \<open>with the random salt\<close>
  | RecvGone             \<comment> \<open>the WebSocket's task has ended\<close>
  | RecvPut

definition recv_task :: "conn_env \<Rightarrow> recv_event \<Rightarrow> conn_sys \<Rightarrow> conn_sys option" where
  "recv_task env ev s =
     (case (cn_recv s, ev) of
        (RecvLoop, RecvCheck) \<Rightarrow>
          Some (if cl_closed (cn_client s) then s\<lparr>cn_recv := RecvEnded, cn_frames := []\<rparr> else s\<lparr>cn_recv := RecvWaiting\<rparr>)
      | (RecvWaiting, RecvFrame random_salt) \<Rightarrow>
          (case cn_frames s of
             [] \<Rightarrow> None
           | data # rest \<Rightarrow>
               let (r, c, es) = receive_round (ev_crates env) (ev_buf env) (ev_codec env) (ev_parse_json env) random_salt
                     (ev_private_key env) (ev_curve_key env) (cn_client s) data
               in Some (s\<lparr>cn_client := c, cn_frames := rest, cn_handled := cn_handled s @ [(data, es)],
                    cn_recv := RecvPutting es (r \<noteq> Panic)\<rparr>))
      | (RecvWaiting, RecvGone) \<Rightarrow>
          if cn_ws s = WsEnded \<and> cn_frames s = [] then Some (s\<lparr>cn_recv := RecvEnded, cn_done := True\<rparr>) else None
      | (RecvPutting (e # es) goes_on, RecvPut) \<Rightarrow>
          map_option (\<lambda>s. s\<lparr>cn_recv := RecvPutting es goes_on\<rparr>) (put_effect e s)
      | (RecvPutting [] goes_on, RecvPut) \<Rightarrow>
          Some (if goes_on then s\<lparr>cn_recv := RecvLoop\<rparr> else s\<lparr>cn_recv := RecvEnded, cn_frames := []\<rparr>)
      | _ \<Rightarrow> None)"

text \<open>The task that answers the challenge: one answer, or none when the receiving task has gone.\<close>

definition answer_task :: "conn_env \<Rightarrow> conn_sys \<Rightarrow> conn_sys option" where
  "answer_task env s =
     (if cn_answered s then None
      else (case cn_challenge s of
          [] \<Rightarrow> if cn_recv s = RecvEnded then Some (s\<lparr>cn_answered := True\<rparr>) else None
        | (client_salt, signature) # _ \<Rightarrow>
            (case answer_challenge (ev_crates env) (ev_address env) client_salt signature (cl_ws (cn_client s)) of
               (Ok _, [e]) \<Rightarrow> map_option (\<lambda>s. s\<lparr>cn_answered := True, cn_challenge := []\<rparr>) (put_effect e s)
             | _ \<Rightarrow> Some (s\<lparr>cn_answered := True, cn_challenge := []\<rparr>))))"

definition ping_task :: "conn_sys \<Rightarrow> conn_sys option" where
  "ping_task s =
     (case cn_ping s of
        PingLoop \<Rightarrow> Some (s\<lparr>cn_ping := (if cn_done s then PingEnded else PingSleeping)\<rparr>)
      | PingSleeping \<Rightarrow>
          (case ping_round False (cl_ws (cn_client s)) of
             (Ok goes_on, [e]) \<Rightarrow>
               map_option (\<lambda>s. s\<lparr>cn_ping := (if goes_on then PingLoop else PingEnded)\<rparr>) (put_effect e s)
           | _ \<Rightarrow> Some (s\<lparr>cn_ping := PingEnded\<rparr>))
      | PingEnded \<Rightarrow> None)"

text \<open>
  The user and the client's other tasks. Taking from a channel waits until there is something, the
  signal to reconnect waits for room; \<open>TakeReconnect\<close> is \<^verbatim>\<open>handle_reconnect\<close> up to its pause.
\<close>

datatype client_act =
    TakeMessage
  | TakeConnect
  | Sends "string \<Rightarrow> (registrant, string) outcome" enc_random "nat \<Rightarrow> u32" account bytes "string list" bytes message_config
  | Answers "string \<Rightarrow> (registrant, string) outcome" enc_random "nat \<Rightarrow> u32" account bytes "string \<times> msg_payload \<times> bool"
  | CloseClient
  | Reconnects
  | TakeReconnect

definition wait_for_message :: "conn_sys \<Rightarrow> conn_sys option" where
  "wait_for_message s = (case cn_message s of
       [] \<Rightarrow> None
     | m # ms \<Rightarrow> Some (s\<lparr>cn_message := ms, cn_taken := cn_taken s @ [m]\<rparr>))"

definition wait_for_connect :: "conn_sys \<Rightarrow> conn_sys option" where
  "wait_for_connect s = (case cn_connect s of
       [] \<Rightarrow> None
     | nd # nds \<Rightarrow> Some (s\<lparr>cn_connect := nds, cn_nodes := cn_nodes s @ [nd]\<rparr>))"

fun client_act_step :: "conn_env \<Rightarrow> client_act \<Rightarrow> conn_sys \<Rightarrow> conn_sys option" where
  "client_act_step env TakeMessage s = wait_for_message s"
| "client_act_step env TakeConnect s = wait_for_connect s"
| "client_act_step env (Sends lookup rnd nonces acc address_id dests text config) s =
     (let (r, c, es) = client_send_data (ev_crates env) (ev_buf env) (ev_codec env) lookup rnd nonces acc address_id
            (ev_curve_key env) (cn_client s) dests text config
      in Some (queue_out es (s\<lparr>cn_client := c\<rparr>)))"
| "client_act_step env (Answers lookup rnd nonces acc address_id reply) s =
     (let (r, c, es) = handle_reply_round (ev_crates env) (ev_buf env) (ev_codec env) lookup rnd nonces acc address_id
            (ev_curve_key env) (cn_client s) reply
      in Some (queue_out es (s\<lparr>cn_client := c\<rparr>)))"
| "client_act_step env CloseClient s = Some (s\<lparr>cn_client := client_close (cn_client s)\<rparr>)"
| "client_act_step env Reconnects s = (case client_reconnect (cn_client s) of [e] \<Rightarrow> put_effect e s | _ \<Rightarrow> Some s)"
| "client_act_step env TakeReconnect s = (if cn_reconnect s then Some (s\<lparr>cn_reconnect := False\<rparr>) else None)"

datatype conn_act = WsAct ws_event | RecvAct recv_event | AnswerAct | PingAct | ClientAct client_act

fun conn_move :: "conn_env \<Rightarrow> conn_act \<Rightarrow> conn_sys \<Rightarrow> conn_sys option" where
  "conn_move env (WsAct ev) s = ws_task ev s"
| "conn_move env (RecvAct ev) s = recv_task env ev s"
| "conn_move env AnswerAct s = answer_task env s"
| "conn_move env PingAct s = ping_task s"
| "conn_move env (ClientAct a) s = client_act_step env a s"

text \<open>A run by actions that satisfy a predicate.\<close>

definition conn_sys_step :: "conn_env \<Rightarrow> (conn_act \<Rightarrow> bool) \<Rightarrow> conn_sys \<Rightarrow> conn_sys \<Rightarrow> bool" where
  "conn_sys_step env allowed s s' \<longleftrightarrow> (\<exists>act. allowed act \<and> conn_move env act s = Some s')"

section \<open>Pipes\<close>

text \<open>The messages and nodes among effects, and what the two ends of the pipe still hold in hand.\<close>

definition messages_of :: "client_effect list \<Rightarrow> message list" where
  "messages_of = List.map_filter (\<lambda>e. case e of MessageTx m \<Rightarrow> Some m | _ \<Rightarrow> None)"

definition nodes_of :: "client_effect list \<Rightarrow> node list" where
  "nodes_of = List.map_filter (\<lambda>e. case e of ConnectTx nd \<Rightarrow> Some nd | _ \<Rightarrow> None)"

definition effects_in_hand :: "conn_sys \<Rightarrow> client_effect list" where
  "effects_in_hand s = (case cn_recv s of RecvPutting es _ \<Rightarrow> es | _ \<Rightarrow> [])"

definition frame_in_hand :: "conn_sys \<Rightarrow> bytes list" where
  "frame_in_hand s = (case cn_ws s of WsBlocked data \<Rightarrow> [data] | _ \<Rightarrow> [])"

lemma messages_of_simps [simp]:
  "messages_of [] = []" "messages_of (MessageTx m # es) = m # messages_of es"
  "messages_of (es @ fs) = messages_of es @ messages_of fs"
  "(\<And>m. e \<noteq> MessageTx m) \<Longrightarrow> messages_of (e # es) = messages_of es"
  by (auto simp: messages_of_def map_filter_simps List.map_filter_def split: client_effect.splits)

lemma nodes_of_simps [simp]:
  "nodes_of [] = []" "nodes_of (ConnectTx nd # es) = nd # nodes_of es"
  "nodes_of (es @ fs) = nodes_of es @ nodes_of fs"
  "(\<And>nd. e \<noteq> ConnectTx nd) \<Longrightarrow> nodes_of (e # es) = nodes_of es"
  by (auto simp: nodes_of_def map_filter_simps List.map_filter_def split: client_effect.splits)

text \<open>
  Frames are handled in the order they arrived, and none is missing while the receiving task runs; what
  handling them put out reaches the user in that order; what was queued is written in that order.
\<close>

definition frames_flow :: "conn_sys \<Rightarrow> bool" where
  "frames_flow s \<longleftrightarrow> prefix (map fst (cn_handled s)) (cn_arrived s) \<and>
     (cn_recv s \<noteq> RecvEnded \<longrightarrow> map fst (cn_handled s) @ cn_frames s @ frame_in_hand s = cn_arrived s)"

definition messages_flow :: "conn_sys \<Rightarrow> bool" where
  "messages_flow s \<longleftrightarrow>
     cn_taken s @ cn_message s @ messages_of (effects_in_hand s) = messages_of (concat (map snd (cn_handled s))) \<and>
     cn_nodes s @ cn_connect s @ nodes_of (effects_in_hand s) = nodes_of (concat (map snd (cn_handled s)))"

definition writes_flow :: "conn_sys \<Rightarrow> bool" where
  "writes_flow s \<longleftrightarrow> prefix (cn_written s @ cn_out s) (cn_queued s) \<and>
     (cn_ws s \<noteq> WsEnded \<longrightarrow> cn_written s @ cn_out s = cn_queued s)"

definition channels_bounded :: "conn_sys \<Rightarrow> bool" where
  "channels_bounded s \<longleftrightarrow> length (cn_frames s) \<le> 1 \<and> length (cn_message s) \<le> 1 \<and> length (cn_connect s) \<le> 1 \<and>
     length (cn_challenge s) \<le> 100"

definition handled_right :: "conn_env \<Rightarrow> conn_sys \<Rightarrow> bool" where
  "handled_right env s \<longleftrightarrow> (\<forall>(data, es) \<in> set (cn_handled s). \<exists>random_salt c. es = snd (snd (receive_round
     (ev_crates env) (ev_buf env) (ev_codec env) (ev_parse_json env) random_salt (ev_private_key env) (ev_curve_key env) c data)))"

definition flow_inv :: "conn_env \<Rightarrow> conn_sys \<Rightarrow> bool" where
  "flow_inv env s \<longleftrightarrow> frames_flow s \<and> messages_flow s \<and> writes_flow s \<and> channels_bounded s \<and> handled_right env s"

lemmas flow_defs = flow_inv_def frames_flow_def messages_flow_def writes_flow_def channels_bounded_def
  effects_in_hand_def frame_in_hand_def

lemma handled_right_updates [simp]:
  "handled_right env (s\<lparr>cn_client := c\<rparr>) = handled_right env s" "handled_right env (s\<lparr>cn_ws := w\<rparr>) = handled_right env s"
  "handled_right env (s\<lparr>cn_recv := ph\<rparr>) = handled_right env s" "handled_right env (s\<lparr>cn_done := b\<rparr>) = handled_right env s"
  "handled_right env (s\<lparr>cn_ping := pp\<rparr>) = handled_right env s" "handled_right env (s\<lparr>cn_answered := b\<rparr>) = handled_right env s"
  "handled_right env (s\<lparr>cn_frames := fs\<rparr>) = handled_right env s" "handled_right env (s\<lparr>cn_connect := nds\<rparr>) = handled_right env s"
  "handled_right env (s\<lparr>cn_message := ms\<rparr>) = handled_right env s" "handled_right env (s\<lparr>cn_challenge := ch\<rparr>) = handled_right env s"
  "handled_right env (s\<lparr>cn_reconnect := b\<rparr>) = handled_right env s" "handled_right env (s\<lparr>cn_out := es\<rparr>) = handled_right env s"
  "handled_right env (s\<lparr>cn_arrived := fs\<rparr>) = handled_right env s" "handled_right env (s\<lparr>cn_taken := ms\<rparr>) = handled_right env s"
  "handled_right env (s\<lparr>cn_nodes := nds\<rparr>) = handled_right env s" "handled_right env (s\<lparr>cn_queued := es\<rparr>) = handled_right env s"
  "handled_right env (s\<lparr>cn_written := es\<rparr>) = handled_right env s"
  by (simp_all add: handled_right_def)

lemma flow_inv_queue: "flow_inv env s \<Longrightarrow> flow_inv env (queue_out es s)"
  by (auto simp: queue_out_def flow_defs prefix_def)

lemma flow_inv_ws_end: "flow_inv env s \<Longrightarrow> cn_ws s = WsPolling \<or> cn_recv s = RecvEnded \<Longrightarrow> flow_inv env (ws_end s)"
  by (auto simp: ws_end_def flow_defs prefix_def)

lemma flow_inv_client [simp]: "flow_inv env (s\<lparr>cn_client := c\<rparr>) = flow_inv env s"
  by (simp add: flow_defs)

lemma flow_inv_ws:
  assumes "flow_inv env s" and "ws_task ev s = Some s'"
  shows "flow_inv env s'"
proof (cases "cn_ws s")
  case WsPolling
  show ?thesis
  proof (cases ev)
    case (Frame f)
    show ?thesis
    proof (cases "frame_data f = [] \<or> cn_recv s \<noteq> RecvEnded")
      case True
      then show ?thesis using assms WsPolling Frame
        by (auto simp: ws_task_def ws_push_def Let_def flow_defs split: if_splits intro: prefix_append)
    next
      case False
      have "flow_inv env (s\<lparr>cn_arrived := cn_arrived s @ [frame_data f]\<rparr>)"
        using assms(1) False by (auto simp: flow_defs)
      then show ?thesis using assms(2) WsPolling Frame False flow_inv_ws_end
        by (auto simp: ws_task_def ws_push_def Let_def split: if_splits)
    qed
  next
    case WriteNext
    then show ?thesis using assms WsPolling by (auto simp: ws_task_def flow_defs split: list.splits)
  qed (use assms WsPolling flow_inv_ws_end in \<open>auto simp: ws_task_def\<close>)
next
  case (WsBlocked data)
  show ?thesis
  proof (cases "cn_recv s = RecvEnded")
    case True
    then show ?thesis using assms WsBlocked flow_inv_ws_end
      by (auto simp: ws_task_def ws_push_def split: ws_event.splits)
  next
    case False
    then show ?thesis using assms WsBlocked
      by (auto simp: ws_task_def ws_push_def flow_defs split: ws_event.splits if_splits)
  qed
qed (use assms in \<open>auto simp: ws_task_def\<close>)

lemma flow_inv_put:
  assumes "flow_inv env (s\<lparr>cn_recv := RecvPutting (e # es) goes_on\<rparr>)" and "put_effect e s = Some s'"
  shows "flow_inv env (s'\<lparr>cn_recv := RecvPutting es goes_on\<rparr>)"
  using assms by (cases e) (auto simp: put_effect_def queue_out_def flow_defs split: if_splits)

text \<open>What the two small tasks put out is neither a message nor a node.\<close>

abbreviation from_task :: "client_effect \<Rightarrow> bool" where
  "from_task e \<equiv> e = ReconnectTx \<or> e = WsPing \<or> (\<exists>a b c. e = WsSetClient a b c)"

lemma answer_task_cases:
  assumes "answer_task env s = Some s'"
  obtains t where "s' = t\<lparr>cn_answered := True, cn_challenge := []\<rparr>" "t = s \<or> (\<exists>e. put_effect e s = Some t \<and> from_task e)"
proof (cases "cn_challenge s")
  case Nil
  then have "s' = s\<lparr>cn_answered := True, cn_challenge := []\<rparr>"
    using assms by (cases s) (auto simp: answer_task_def split: if_splits)
  then show ?thesis using that by blast
next
  case (Cons x xs)
  then show ?thesis using that assms
    by (cases "cl_ws (cn_client s)") (auto simp: answer_task_def answer_challenge_def split: if_splits prod.splits, blast)
qed

lemma ping_task_cases:
  assumes "ping_task s = Some s'"
  obtains t ph where "s' = t\<lparr>cn_ping := ph\<rparr>" "t = s \<or> (\<exists>e. put_effect e s = Some t \<and> from_task e)"
  using assms by (fastforce simp: ping_task_def ping_round_def split: ping_phase.splits ws_sender.splits)

lemma flow_inv_put_task:
  assumes "flow_inv env s" and "put_effect e s = Some s'" and "from_task e"
  shows "flow_inv env s'"
  using assms(3)
proof (elim disjE)
  assume "e = ReconnectTx"
  then show ?thesis using assms(1,2) by (auto simp: put_effect_def flow_defs split: if_splits)
qed (use assms(1,2) flow_inv_queue in \<open>auto simp: put_effect_def\<close>)

lemma flow_inv_recv:
  assumes "flow_inv env s" and "recv_task env ev s = Some s'"
  shows "flow_inv env s'"
proof (cases "cn_recv s")
  case (RecvPutting es goes_on)
  show ?thesis
  proof (cases es)
    case (Cons e es')
    then obtain t where "put_effect e s = Some t" "s' = t\<lparr>cn_recv := RecvPutting es' goes_on\<rparr>"
      using assms(2) RecvPutting by (auto simp: recv_task_def split: recv_event.splits)
    moreover have "s\<lparr>cn_recv := RecvPutting (e # es') goes_on\<rparr> = s" using RecvPutting Cons by simp
    ultimately show ?thesis using assms(1) flow_inv_put by metis
  qed (use assms RecvPutting in \<open>auto simp: recv_task_def flow_defs split: recv_event.splits if_splits\<close>)
next
  case RecvWaiting
  show ?thesis
  proof (cases ev)
    case (RecvFrame random_salt)
    then obtain data rest where frames: "cn_frames s = data # rest"
      using assms(2) RecvWaiting by (auto simp: recv_task_def split: list.splits)
    obtain r c es where round: "receive_round (ev_crates env) (ev_buf env) (ev_codec env) (ev_parse_json env) random_salt
        (ev_private_key env) (ev_curve_key env) (cn_client s) data = (r, c, es)" by (metis prod_cases3)
    then have "es = snd (snd (receive_round (ev_crates env) (ev_buf env) (ev_codec env) (ev_parse_json env) random_salt
        (ev_private_key env) (ev_curve_key env) (cn_client s) data))" by simp
    then have right: "handled_right env (s\<lparr>cn_handled := cn_handled s @ [(data, es)]\<rparr>)"
      using assms(1) unfolding flow_inv_def handled_right_def by (simp, blast)
    have "s' = s\<lparr>cn_client := c, cn_frames := rest, cn_handled := cn_handled s @ [(data, es)], cn_recv := RecvPutting es (r \<noteq> Panic)\<rparr>"
      using assms(2) RecvWaiting RecvFrame frames round by (simp add: recv_task_def)
    moreover have "cn_arrived s = (map fst (cn_handled s) @ [data]) @ rest @ frame_in_hand s"
      using assms(1) RecvWaiting frames by (simp add: flow_inv_def frames_flow_def)
    then have "frames_flow s'" unfolding calculation by (simp add: frames_flow_def frame_in_hand_def)
    moreover have "messages_flow s'" "writes_flow s'" "channels_bounded s'"
      using assms(1) RecvWaiting frames unfolding calculation(1) by (auto simp: flow_defs)
    ultimately show ?thesis using right by (simp add: flow_inv_def handled_right_def)
  qed (use assms RecvWaiting in \<open>auto simp: recv_task_def flow_defs split: if_splits\<close>)
qed (use assms in \<open>auto simp: recv_task_def flow_defs split: recv_event.splits if_splits\<close>)

lemma flow_inv_answer:
  assumes "flow_inv env s" and "answer_task env s = Some s'"
  shows "flow_inv env s'"
proof -
  have "flow_inv env (t\<lparr>cn_answered := True, cn_challenge := []\<rparr>)" if "flow_inv env t" for t using that by (simp add: flow_defs)
  then show ?thesis using flow_inv_put_task [OF assms(1)] assms(1) by (cases rule: answer_task_cases [OF assms(2)]) blast
qed

lemma flow_inv_ping:
  assumes "flow_inv env s" and "ping_task s = Some s'"
  shows "flow_inv env s'"
proof -
  have "flow_inv env (t\<lparr>cn_ping := ph\<rparr>)" if "flow_inv env t" for t ph using that by (simp add: flow_defs)
  then show ?thesis using flow_inv_put_task [OF assms(1)] assms(1) by (cases rule: ping_task_cases [OF assms(2)]) blast
qed

lemma flow_inv_client_act:
  assumes "flow_inv env s" and "client_act_step env a s = Some s'"
  shows "flow_inv env s'"
proof (cases a)
  case Reconnects
  then show ?thesis using assms flow_inv_put_task [OF assms(1)] by (auto simp: client_reconnect_def split: if_splits)
next
  case TakeReconnect
  then show ?thesis using assms by (auto simp: flow_defs split: if_splits)
next
  case TakeMessage
  then show ?thesis using assms by (auto simp: flow_defs wait_for_message_def split: list.splits)
next
  case TakeConnect
  then show ?thesis using assms by (auto simp: flow_defs wait_for_connect_def split: list.splits)
qed (use assms flow_inv_queue in \<open>auto split: prod.splits\<close>)

lemma flow_inv_move:
  assumes "flow_inv env s" and "conn_move env act s = Some s'"
  shows "flow_inv env s'"
  using assms(2)
  by (cases act) (auto intro: flow_inv_ws flow_inv_recv flow_inv_answer flow_inv_ping flow_inv_client_act assms(1))

interpretation flow: step_invariant "conn_sys_step env allowed" "flow_inv env" for env allowed
  by unfold_locales (auto simp: conn_sys_step_def intro: flow_inv_move)

section \<open>A full channel\<close>

text \<open>The action that makes room for an effect that waits.\<close>

fun relieves :: "client_effect \<Rightarrow> conn_act \<Rightarrow> bool" where
  "relieves (MessageTx m) act \<longleftrightarrow> act = ClientAct TakeMessage"
| "relieves (ConnectTx nd) act \<longleftrightarrow> act = ClientAct TakeConnect"
| "relieves e act \<longleftrightarrow> False"

abbreviation for_user :: "client_effect \<Rightarrow> bool" where
  "for_user e \<equiv> (\<exists>m. e = MessageTx m) \<or> (\<exists>nd. e = ConnectTx nd)"

text \<open>The receiving task waits for room for \<open>e\<close>, and the WebSocket's task waits for the receiving task.\<close>

definition stalled :: "client_effect \<Rightarrow> conn_sys \<Rightarrow> bool" where
  "stalled e s \<longleftrightarrow> for_user e \<and> put_effect e s = None \<and> (\<exists>es goes_on. cn_recv s = RecvPutting (e # es) goes_on) \<and>
     (\<exists>data. cn_ws s = WsBlocked data) \<and> cn_frames s \<noteq> []"

text \<open>From one state to another the channels and both tasks stay as they are; only the queue grows.\<close>

definition pipe_kept :: "conn_sys \<Rightarrow> conn_sys \<Rightarrow> bool" where
  "pipe_kept s s' \<longleftrightarrow> cn_message s' = cn_message s \<and> cn_connect s' = cn_connect s \<and> cn_recv s' = cn_recv s \<and>
     cn_ws s' = cn_ws s \<and> cn_frames s' = cn_frames s \<and> cn_written s' = cn_written s \<and> cn_handled s' = cn_handled s \<and>
     prefix (cn_out s) (cn_out s')"

text \<open>The part of that which the receiving and the WebSocket's task see.\<close>

definition stall_kept :: "client_effect \<Rightarrow> conn_sys \<Rightarrow> conn_sys \<Rightarrow> bool" where
  "stall_kept e s s' \<longleftrightarrow> stalled e s' \<and> cn_recv s' = cn_recv s \<and> cn_ws s' = cn_ws s \<and> cn_written s' = cn_written s \<and>
     cn_handled s' = cn_handled s \<and> prefix (cn_out s) (cn_out s')"

lemma put_effect_full:
  "put_effect (MessageTx m) s = None \<longleftrightarrow> cn_message s \<noteq> []" "put_effect (ConnectTx nd) s = None \<longleftrightarrow> cn_connect s \<noteq> []"
  by (auto simp: put_effect_def)

lemma pipe_kept_refl [simp]: "pipe_kept s s"
  by (simp add: pipe_kept_def)

lemma stall_kept_pipe: "stalled e s \<Longrightarrow> pipe_kept s s' \<Longrightarrow> stall_kept e s s'"
  by (auto simp: stalled_def pipe_kept_def stall_kept_def put_effect_full)

text \<open>What the tasks other than the receiving one put out changes no channel of the user.\<close>

lemma pipe_kept_put: "put_effect f s = Some s' \<Longrightarrow> from_task f \<Longrightarrow> pipe_kept s s'"
  by (cases f) (auto simp: put_effect_def queue_out_def pipe_kept_def split: if_splits)

lemma pipe_kept_tasks: "answer_task env s = Some s' \<Longrightarrow> pipe_kept s s'" "ping_task s = Some s' \<Longrightarrow> pipe_kept s s'"
  using pipe_kept_put [of _ s] by (auto simp: pipe_kept_def elim!: answer_task_cases ping_task_cases)

lemma stalled_move:
  assumes "stalled e s" and "conn_move env act s = Some s'" and "\<not> relieves e act"
  shows "stall_kept e s s'"
proof (cases act)
  case (WsAct ev)
  then show ?thesis using assms by (auto simp: stalled_def ws_task_def split: ws_event.splits)
next
  case (RecvAct ev)
  then show ?thesis using assms by (auto simp: stalled_def recv_task_def split: recv_event.splits)
next
  case (ClientAct a)
  show ?thesis
  proof (cases a)
    case TakeMessage
    then show ?thesis using assms ClientAct
      by (auto simp: stalled_def stall_kept_def wait_for_message_def put_effect_full split: list.splits)
  next
    case TakeConnect
    then show ?thesis using assms ClientAct
      by (auto simp: stalled_def stall_kept_def wait_for_connect_def put_effect_full split: list.splits)
  next
    case Reconnects
    then show ?thesis using assms ClientAct pipe_kept_put [of ReconnectTx s s']
      by (auto simp: client_reconnect_def intro: stall_kept_pipe split: if_splits)
  qed (use assms ClientAct in \<open>auto simp: pipe_kept_def queue_out_def intro!: stall_kept_pipe split: prod.splits if_splits\<close>)
qed (use assms pipe_kept_tasks stall_kept_pipe in auto)

lemma stall_kept_trans: "stall_kept e s t \<Longrightarrow> stall_kept e t u \<Longrightarrow> stall_kept e s u"
  by (auto simp: stall_kept_def intro: prefix_order.trans)

interpretation stall: step_invariant "conn_sys_step env (\<lambda>act. \<not> relieves e act)" "stall_kept e s" for env e s
proof unfold_locales
  fix t u assume "stall_kept e s t" "conn_sys_step env (\<lambda>act. \<not> relieves e act) t u"
  moreover from this have "stall_kept e t u" using stalled_move by (auto simp: conn_sys_step_def stall_kept_def [of e s])
  ultimately show "stall_kept e s u" using stall_kept_trans by blast
qed

section \<open>Closing\<close>

text \<open>What comes from the network: frames, the end of the stream, a failed write.\<close>

fun from_network :: "conn_act \<Rightarrow> bool" where
  "from_network (WsAct ev) \<longleftrightarrow> (case ev of Frame _ \<Rightarrow> True | StreamEnd \<Rightarrow> True | WriteError \<Rightarrow> True | _ \<Rightarrow> False)"
| "from_network act \<longleftrightarrow> False"

definition live :: "conn_sys \<Rightarrow> bool" where
  "live s \<longleftrightarrow> cn_ws s = WsPolling \<and> \<not> cn_done s \<and> cn_ping s \<noteq> PingEnded \<and> cl_ws (cn_client s) = Open"


lemma receive_round_ws:
  assumes "receive_round cr bc cc parse_json random_salt privkey sk s data = (r, s', es)"
  shows "cl_ws s' = cl_ws s"
proof -
  have "cl_ws s' = cl_ws s" if "handle_text cr random_salt s msg = (r, s', es)" for msg r s' es
    using that by (auto simp: handle_text_def Let_def split: outcome.splits option.splits if_splits prod.splits)
  moreover have "cl_ws s' = cl_ws s" if "handle_inbound cr bc cc privkey sk s im = (r, s', es)" for im r s' es
    using that by (auto simp: handle_inbound_def Let_def split: outcome.splits if_splits prod.splits)
  ultimately have "cl_ws s' = cl_ws s" if "handle_message cr bc cc parse_json random_salt privkey sk s is_text bs = (r, s', es)" for is_text bs r s' es
    using that by (auto simp: handle_message_def split: option.splits if_splits)
  then show ?thesis using assms by (auto simp: receive_round_def Let_def split: if_splits prod.splits)
qed

lemma sending_keeps_ws:
  "client_send cr bc cc lookup rnd nonces acc address_id sk s dests pl config = (r, s', es) \<Longrightarrow> cl_ws s' = cl_ws s"
  "handle_reply_round cr bc cc lookup rnd nonces acc address_id sk s reply = (q, s'', es) \<Longrightarrow> cl_ws s'' = cl_ws s"
  by (auto simp: client_send_def handle_reply_round_def Let_def split: prod.splits outcome.splits if_splits option.splits)

lemma live_put: "put_effect e s = Some t \<Longrightarrow> live s \<Longrightarrow> live t"
  by (auto simp: put_effect_def queue_out_def live_def split: client_effect.splits if_splits)

lemma live_move:
  assumes "live s" and "conn_move env act s = Some s'" and "\<not> from_network act"
  shows "live s'"
proof (cases act)
  case (WsAct ev)
  then show ?thesis using assms by (cases ev) (auto simp: live_def ws_task_def split: list.splits)
next
  case (RecvAct ev)
  have put: "live (t\<lparr>cn_recv := ph\<rparr>)" if "live t" for t ph using that by (simp add: live_def)
  show ?thesis
  proof (cases "cn_recv s")
    case (RecvPutting es goes_on)
    then show ?thesis using assms RecvAct put live_put
      by (cases es) (auto simp: recv_task_def live_def split: recv_event.splits if_splits)
  next
    case RecvWaiting
    then show ?thesis using assms RecvAct
      by (auto simp: recv_task_def live_def split: recv_event.splits list.splits prod.splits dest: receive_round_ws)
  qed (use assms RecvAct in \<open>auto simp: recv_task_def live_def split: recv_event.splits if_splits\<close>)
next
  case AnswerAct
  have "live (t\<lparr>cn_answered := True, cn_challenge := []\<rparr>)" if "live t" for t using that by (simp add: live_def)
  then show ?thesis using assms AnswerAct live_put by (auto elim!: answer_task_cases)
next
  case PingAct
  then show ?thesis using assms
    by (auto simp: live_def ping_task_def ping_round_def put_effect_def queue_out_def split: ping_phase.splits)
next
  case (ClientAct a)
  then show ?thesis using assms live_put
    by (cases a) (auto simp: live_def queue_out_def wait_for_message_def wait_for_connect_def client_close_def client_reconnect_def
        client_send_data_def split: prod.splits list.splits if_splits dest: sending_keeps_ws)
qed

interpretation live: step_invariant "conn_sys_step env (\<lambda>act. \<not> from_network act)" live for env
  by unfold_locales (auto simp: conn_sys_step_def intro: live_move)

section \<open>Runs by a list of actions\<close>

fun conn_run :: "conn_env \<Rightarrow> conn_act list \<Rightarrow> conn_sys \<Rightarrow> conn_sys option" where
  "conn_run env [] s = Some s"
| "conn_run env (act # acts) s = Option.bind (conn_move env act s) (conn_run env acts)"

lemma conn_run_steps:
  assumes "conn_run env acts s = Some s'" and "\<forall>act \<in> set acts. allowed act"
  shows "(conn_sys_step env allowed)\<^sup>*\<^sup>* s s'"
  using assms
proof (induction acts arbitrary: s)
  case (Cons act acts)
  then obtain t where "conn_move env act s = Some t" "conn_run env acts t = Some s'" by (auto simp: Option.bind_eq_Some_conv)
  moreover from this have "conn_sys_step env allowed s t" using Cons.prems(2) by (auto simp: conn_sys_step_def)
  ultimately show ?case using Cons.IH Cons.prems(2) by (auto intro: converse_rtranclp_into_rtranclp)
qed simp

lemma conn_run_append: "conn_run env (as @ bs) s = Option.bind (conn_run env as s) (conn_run env bs)"
  by (induction as arbitrary: s) (simp_all cong: Option.bind_cong)

text \<open>Receipts do not block the receiving task.\<close>

lemma put_receipts:
  assumes "\<forall>e \<in> set es. \<exists>bs. e = WsBinary bs" and "cn_recv s = RecvPutting (es @ rest) goes_on"
  shows "\<exists>t. conn_run env (replicate (length es) (RecvAct RecvPut)) s = Some t \<and> cn_recv t = RecvPutting rest goes_on \<and>
    cn_message t = cn_message s \<and> cn_taken t = cn_taken s \<and> cn_client t = cn_client s"
  using assms
proof (induction es arbitrary: s)
  case (Cons e es)
  let ?u = "(queue_out [e] s)\<lparr>cn_recv := RecvPutting (es @ rest) goes_on\<rparr>"
  have "recv_task env RecvPut s = Some ?u" using Cons.prems by (auto simp: recv_task_def put_effect_def)
  moreover have "cn_message ?u = cn_message s" "cn_taken ?u = cn_taken s" "cn_client ?u = cn_client s"
    by (simp_all add: queue_out_def)
  ultimately show ?case using Cons.IH [of ?u] Cons.prems(1) by simp
qed simp

lemma handle_inbound_message:
  assumes "\<not> cl_closed s" and "fst (open_payload cr cc sk im (cl_keys s)) = Ok (encrypted, pl)" and "pp_reply_to_id pl = []"
    and "payload_data cc pl = Ok data"
  shows "\<exists>s' receipt. handle_inbound cr bc cc privkey sk s im = (Ok (), s', receipt @ [MessageTx
      \<lparr>m_src = im_src im, m_data = data, m_type = pp_type pl, m_encrypted = encrypted, m_message_id = pp_message_id pl,
       m_no_reply = pp_no_reply pl\<rparr>]) \<and> (\<forall>e \<in> set receipt. \<exists>bs. e = WsBinary bs) \<and> \<not> cl_closed s'"
proof -
  let ?R = "if im_prev_hash im \<noteq> [] then snd (send_receipt cr bc cc (im_prev_hash im) privkey (cl_ws s)) else []"
  have "\<forall>e \<in> set ?R. \<exists>bs. e = WsBinary bs" using send_receipt_effects by fastforce
  then show ?thesis using assms by (cases "open_payload cr cc sk im (cl_keys s)") (auto simp: handle_inbound_def Let_def)
qed

text \<open>A connection for the witnesses: four messages arrive and the user takes none.\<close>

definition demo_conn_env :: conn_env where
  "demo_conn_env = \<lparr>ev_crates = demo, ev_buf = be_crate, ev_codec = demo_client_codec, ev_parse_json = (\<lambda>_. None),
     ev_private_key = [], ev_curve_key = replicate 32 5, ev_address = ''a''\<rparr>"

abbreviation demo_frame :: conn_act where
  "demo_frame \<equiv> WsAct (Frame (FrameBinary (demo_inbound demo_plain)))"

definition demo_four :: "conn_act list" where
  "demo_four = [demo_frame, RecvAct RecvCheck, RecvAct (RecvFrame []), RecvAct RecvPut, RecvAct RecvPut,
     demo_frame, RecvAct RecvCheck, RecvAct (RecvFrame []), demo_frame, demo_frame]"

abbreviation demo_data :: bytes where
  "demo_data \<equiv> demo_inbound demo_plain @ [1]"

definition demo_full :: conn_sys where
  "demo_full = (conn_start demo_client)\<lparr>cn_ws := WsBlocked demo_data, cn_recv := RecvPutting [MessageTx demo_message] True,
     cn_frames := [demo_data], cn_message := [demo_message], cn_arrived := [demo_data, demo_data, demo_data, demo_data],
     cn_handled := [(demo_data, [MessageTx demo_message]), (demo_data, [MessageTx demo_message])]\<rparr>"

lemma demo_four_run: "conn_run demo_conn_env demo_four (conn_start demo_client) = Some demo_full"
proof -
  have "demo_plain \<noteq> demo_reply" "\<not> cl_closed demo_client" "cl_responses demo_client = {}"
    by (simp_all add: demo_plain_def demo_reply_def demo_client_def)
  then have "receive_round demo be_crate demo_client_codec (\<lambda>_. None) [] [] sk demo_client demo_data =
      (Ok True, demo_client, [MessageTx demo_message])" for sk
    using demo_receive_round [of demo_client demo_plain sk] by simp
  then show ?thesis using \<open>\<not> cl_closed demo_client\<close>
    by (simp add: demo_four_def demo_full_def conn_start_def demo_conn_env_def ws_task_def ws_push_def recv_task_def put_effect_def Let_def)
qed

section \<open>Properties\<close>

text \<open>C8: the channels of a connection keep the order. In every run of its tasks, with the user and the client's
  other tasks, the frames handled are those that arrived, in order, and while the receiving task runs
  those not handled yet are the one in its channel and the one in the hand of the WebSocket's task. The
  messages the user took, the one in the channel and the one in the receiving task's hand are exactly those
  that handling the frames gave, in order, and so are the nodes. What is queued is written in order.\<close>

theorem connection_in_order:
  assumes "(conn_sys_step env (\<lambda>_. True))\<^sup>*\<^sup>* (conn_start c) s"
  shows "prefix (map fst (cn_handled s)) (cn_arrived s) \<and>
    (cn_recv s \<noteq> RecvEnded \<longrightarrow> map fst (cn_handled s) @ cn_frames s @ frame_in_hand s = cn_arrived s) \<and> length (cn_frames s) \<le> 1 \<and>
    (\<forall>(data, es) \<in> set (cn_handled s). \<exists>random_salt c'. es = snd (snd (receive_round (ev_crates env) (ev_buf env)
       (ev_codec env) (ev_parse_json env) random_salt (ev_private_key env) (ev_curve_key env) c' data))) \<and>
    cn_taken s @ cn_message s @ messages_of (effects_in_hand s) = messages_of (concat (map snd (cn_handled s))) \<and>
    length (cn_message s) \<le> 1 \<and>
    cn_nodes s @ cn_connect s @ nodes_of (effects_in_hand s) = nodes_of (concat (map snd (cn_handled s))) \<and>
    prefix (cn_written s @ cn_out s) (cn_queued s) \<and> (cn_ws s \<noteq> WsEnded \<longrightarrow> cn_written s @ cn_out s = cn_queued s)"
proof -
  have "flow_inv env (conn_start c)" by (simp add: conn_start_def flow_defs handled_right_def)
  then have "flow_inv env s" by (rule flow.run [OF assms])
  then show ?thesis
    by (simp add: flow_inv_def frames_flow_def messages_flow_def writes_flow_def channels_bounded_def handled_right_def)
qed

theorem connection_in_order_witness:
  "\<exists>s. (conn_sys_step demo_conn_env (\<lambda>_. True))\<^sup>*\<^sup>* (conn_start demo_client) s \<and> length (cn_arrived s) = 4 \<and>
     cn_taken s @ cn_message s @ messages_of (effects_in_hand s) = [demo_message, demo_message] \<and>
     messages_of (concat (map snd (cn_handled s))) = [demo_message, demo_message]"
proof -
  have "(conn_sys_step demo_conn_env (\<lambda>_. True))\<^sup>*\<^sup>* (conn_start demo_client) demo_full"
    by (rule conn_run_steps [OF demo_four_run]) simp
  then show ?thesis using connection_in_order [of demo_conn_env demo_client demo_full]
    by (intro exI [of _ demo_full]) (simp add: demo_full_def conn_start_def)
qed

text \<open>C9: an inbound message reaches the user. When a frame with a message that opens to a payload arrives at
  a connection whose tasks wait and whose channels are empty, the tasks can run until the user has taken
  the message with the payload's data, after those taken before, and the receiving task is free again; the
  receipt, when one is asked for, does not hold it up.\<close>

theorem inbound_message_reaches_user:
  assumes "\<not> cl_closed (cn_client s)" and "cn_ws s = WsPolling" and "cn_recv s = RecvWaiting" and "cn_frames s = []"
    and "cn_message s = []" and "dec_client_message (ev_codec env) frame = Some cm" and "cm_type cm = Some InboundMessage"
    and "dec_inbound (ev_codec env) (cm_message cm) = Some im"
    and "fst (open_payload (ev_crates env) (ev_codec env) (ev_curve_key env) im (cl_keys (cn_client s))) = Ok (encrypted, pl)"
    and "pp_reply_to_id pl = []" and "payload_data (ev_codec env) pl = Ok data"
  shows "\<exists>acts s'. conn_run env (WsAct (Frame (FrameBinary frame)) # acts) s = Some s' \<and> cn_recv s' = RecvWaiting \<and>
    cn_taken s' = cn_taken s @ [\<lparr>m_src = im_src im, m_data = data, m_type = pp_type pl, m_encrypted = encrypted,
      m_message_id = pp_message_id pl, m_no_reply = pp_no_reply pl\<rparr>]"
proof -
  let ?m = "\<lparr>m_src = im_src im, m_data = data, m_type = pp_type pl, m_encrypted = encrypted,
      m_message_id = pp_message_id pl, m_no_reply = pp_no_reply pl\<rparr>"
  obtain c receipt where "handle_inbound (ev_crates env) (ev_buf env) (ev_codec env) (ev_private_key env) (ev_curve_key env)
      (cn_client s) im = (Ok (), c, receipt @ [MessageTx ?m])" "\<forall>e \<in> set receipt. \<exists>bs. e = WsBinary bs" "\<not> cl_closed c"
    using handle_inbound_message [OF assms(1,9,10,11)] by blast
  then have round: "receive_round (ev_crates env) (ev_buf env) (ev_codec env) (ev_parse_json env) [] (ev_private_key env)
      (ev_curve_key env) (cn_client s) (frame @ [1]) = (Ok True, c, receipt @ [MessageTx ?m])"
    using assms(1,6-8) by (simp add: receive_round_def handle_message_def)
  define t where "t = s\<lparr>cn_arrived := cn_arrived s @ [frame @ [1]], cn_frames := [], cn_client := c,
      cn_handled := cn_handled s @ [(frame @ [1], receipt @ [MessageTx ?m])], cn_recv := RecvPutting (receipt @ [MessageTx ?m]) True\<rparr>"
  have arrive: "conn_run env [WsAct (Frame (FrameBinary frame)), RecvAct (RecvFrame [])] s = Some t"
    using assms(2-4) round by (simp add: ws_task_def ws_push_def recv_task_def t_def Let_def)
  obtain u where u: "conn_run env (replicate (length receipt) (RecvAct RecvPut)) t = Some u" "cn_recv u = RecvPutting [MessageTx ?m] True"
      "cn_message u = cn_message t" "cn_taken u = cn_taken t" "cn_client u = cn_client t"
    using put_receipts [of receipt t "[MessageTx ?m]" True env] \<open>\<forall>e \<in> set receipt. _ e\<close> by (auto simp: t_def)
  have "\<exists>s'. conn_run env [RecvAct RecvPut, ClientAct TakeMessage, RecvAct RecvPut, RecvAct RecvCheck] u = Some s' \<and>
      cn_recv s' = RecvWaiting \<and> cn_taken s' = cn_taken s @ [?m]"
    using u(2-5) assms(5) \<open>\<not> cl_closed c\<close> by (simp add: recv_task_def put_effect_def wait_for_message_def t_def)
  then show ?thesis using arrive u(1)
    by (intro exI [of _ "RecvAct (RecvFrame []) # replicate (length receipt) (RecvAct RecvPut) @
      [RecvAct RecvPut, ClientAct TakeMessage, RecvAct RecvPut, RecvAct RecvCheck]"])
      (auto simp: conn_run_append Option.bind_eq_Some_conv simp del: conn_move.simps)
qed

theorem inbound_message_reaches_user_witness:
  "\<exists>acts s'. conn_run demo_conn_env (demo_frame # acts) ((conn_start demo_client)\<lparr>cn_recv := RecvWaiting\<rparr>) = Some s' \<and>
     cn_recv s' = RecvWaiting \<and> cn_taken s' = [demo_message]"
proof -
  obtain im where "dec_inbound demo_client_codec (demo_inbound demo_plain) = Some im" "im_src im = ''s''"
    "\<forall>sk cache. open_payload demo demo_client_codec sk im cache = (Ok (False, demo_plain), cache)"
    using demo_inbound_decodes(2) by blast
  then show ?thesis
    using inbound_message_reaches_user [of "(conn_start demo_client)\<lparr>cn_recv := RecvWaiting\<rparr>" demo_conn_env
        "demo_inbound demo_plain" _ im False demo_plain "[8]"] demo_inbound_decodes(1)
    by (simp add: conn_start_def demo_conn_env_def payload_data_def demo_plain_def demo_client_def del: conn_run.simps)
qed

text \<open>C10: a message the user does not take stops the whole connection. Once the receiving task waits for room for
  a message or a node, its own channel is full and the WebSocket's task waits to send it a frame, nothing
  is handled and nothing is written, neither what the user sends, which is queued, nor a ping, until the
  user takes from that channel.\<close>

theorem untaken_message_stops_writing:
  assumes "(\<exists>m. e = MessageTx m) \<or> (\<exists>nd. e = ConnectTx nd)" and "put_effect e s = None"
    and "cn_recv s = RecvPutting (e # es) goes_on" and "cn_ws s = WsBlocked data" and "cn_frames s \<noteq> []"
    and "(conn_sys_step env (\<lambda>act. \<not> relieves e act))\<^sup>*\<^sup>* s s'"
  shows "cn_written s' = cn_written s \<and> cn_handled s' = cn_handled s \<and> cn_recv s' = cn_recv s \<and> cn_ws s' = cn_ws s \<and>
    (\<exists>later. cn_out s' = cn_out s @ later)"
proof -
  have "stall_kept e s s" using assms(1-5) by (auto simp: stall_kept_def stalled_def)
  then have "stall_kept e s s'" by (rule stall.run [OF assms(6)])
  then show ?thesis by (auto simp: stall_kept_def prefix_def)
qed

theorem untaken_message_stops_writing_witness:
  "\<exists>s. (conn_sys_step demo_conn_env (\<lambda>_. True))\<^sup>*\<^sup>* (conn_start demo_client) demo_full \<and>
     conn_run demo_conn_env [PingAct, PingAct, ClientAct CloseClient] demo_full = Some s \<and> cn_out s = [WsPing] \<and> cn_written s = []"
proof -
  have start: "(conn_sys_step demo_conn_env (\<lambda>_. True))\<^sup>*\<^sup>* (conn_start demo_client) demo_full"
    by (rule conn_run_steps [OF demo_four_run]) simp
  obtain s where s: "conn_run demo_conn_env [PingAct, PingAct, ClientAct CloseClient] demo_full = Some s" "cn_out s = [WsPing]"
    by (simp add: demo_full_def conn_start_def ping_task_def ping_round_def put_effect_def queue_out_def demo_client_def)
  have "(conn_sys_step demo_conn_env (\<lambda>act. \<not> relieves (MessageTx demo_message) act))\<^sup>*\<^sup>* demo_full s"
    by (rule conn_run_steps [OF s(1)]) simp
  then have "cn_written s = cn_written demo_full"
    using untaken_message_stops_writing [of "MessageTx demo_message" demo_full "[]" True demo_data]
    by (simp add: demo_full_def conn_start_def put_effect_def)
  then show ?thesis using start s by (auto simp: demo_full_def conn_start_def)
qed



end
