(* ===== verification/MultiClient.thy ===== *)
theory MultiClient
  imports Client "HOL-Library.AList"
begin

text \<open>
  \<^verbatim>\<open>src/multiclient.rs\<close>: several clients under one identity. \<open>new\<close> spawns a task for each sub-client;
  the tasks share the map of clients, behind a mutex, and the channels. A task is a state machine
  (\<open>sub_task\<close>) whose phases are the points where it can block; \<open>multi_step\<close> interleaves the tasks
  with the user's \<^verbatim>\<open>wait_for_connect\<close>. The lemmas show what the sub-clients are called and, by an
  invariant over all interleavings, who holds the mutex and what a send can do.
\<close>

section \<open>State\<close>

text \<open>A connected client: its state and what \<^verbatim>\<open>Client::new\<close> fixed.\<close>

record sub_client =
  sub_state :: client_state
  sub_account :: account
  sub_address_id :: bytes
  sub_curve_key :: bytes

text \<open>
  The points where a task waits: for its client to be made, for the node it connects to, for the
  lock of the map, for room in the channel of \<^verbatim>\<open>wait_for_connect\<close>, for a message.
\<close>

datatype phase =
    Starting
  | Connecting sub_client
  | Locking sub_client node
  | Announcing node
  | Listening
  | Ended

text \<open>A \<^verbatim>\<open>Mutex\<close> is poisoned when a thread panics while it holds it.\<close>

datatype mutex = Unlocked | HeldBy i32 | Poisoned

record multi_client =
  mu_address :: string
  mu_offset :: i32
  mu_closed :: bool
  mu_default :: "u32 option"
  mu_lock :: mutex                                \<comment> \<open>of \<open>mu_clients\<close>\<close>
  mu_clients :: "(i32 \<times> sub_client) list"        \<comment> \<open>in the order in which the map is iterated\<close>
  mu_nodes :: "node list"                         \<comment> \<open>\<^verbatim>\<open>connect_channel\<close>, of capacity 1\<close>
  mu_messages :: "message list"                   \<comment> \<open>\<^verbatim>\<open>message_channel\<close>, of capacity 1\<close>
  mu_cache :: "string set"                        \<comment> \<open>the keys of \<^verbatim>\<open>msg_cache\<close> that have not expired\<close>
  mu_tasks :: "(i32 \<times> string \<times> phase) list"     \<comment> \<open>number, identifier and phase of each task\<close>

section \<open>Creation\<close>

lemma sint_plus_1: "sint i < sint n \<Longrightarrow> sint (i + 1) = sint i + 1" for i n :: i32
proof -
  assume less: "sint i < sint n"
  have "- 2147483648 \<le> sint i" "sint n < 2147483648"
    using sint_greater_eq [of i] sint_less [of n] by simp_all
  then show "sint (i + 1) = sint i + 1"
    using less by (simp add: sint_word_ariths signed_take_bit_int_eq_self)
qed

text \<open>The loop that spawns the tasks, from \<open>i\<close> up to the number of sub-clients.\<close>

function spawn_ids :: "i32 \<Rightarrow> i32 \<Rightarrow> i32 list" where
  "spawn_ids i num_sub_clients =
     (if sint i < sint num_sub_clients then i # spawn_ids (i + 1) num_sub_clients else [])"
  by auto

termination spawn_ids
  by (relation "measure (\<lambda>(i, n). nat (sint n - sint i))") (auto simp: sint_plus_1)

declare spawn_ids.simps [simp del]

text \<open>
  \<open>new\<close>: \<^verbatim>\<open>num_clients\<close> is counted, which can overflow, and not used. The tasks capture a copy of
  \<^verbatim>\<open>default_client\<close>, so the field of the result stays as it is here.
\<close>

definition multi_new ::
    "profile \<Rightarrow> crates \<Rightarrow> account \<Rightarrow> string \<Rightarrow> i32 \<Rightarrow> bool \<Rightarrow> (multi_client, string) outcome" where
  "multi_new p cr acc base_identifier num_sub_clients original_client =
     and_then (if original_client then add_s p num_sub_clients 1 else Ok num_sub_clients) (\<lambda>_.
       let offset = (if original_client then 1 else 0)
       in Ok \<lparr>mu_address = make_address_string cr (public_key acc) base_identifier, mu_offset = offset,
            mu_closed = False, mu_default = None, mu_lock = Unlocked, mu_clients = [], mu_nodes = [],
            mu_messages = [], mu_cache = {},
            mu_tasks = map (\<lambda>i. (i, add_identifier base_identifier i, Starting))
              (spawn_ids (- offset) num_sub_clients)\<rparr>)"

section \<open>The task of a sub-client\<close>

text \<open>What a task is given when it moves: its client, the node, or nothing.\<close>

datatype sub_event = Created "(sub_client, string) outcome" | NodeFrom "(node, string) outcome" | Proceed

definition set_phase :: "nat \<Rightarrow> phase \<Rightarrow> multi_client \<Rightarrow> multi_client" where
  "set_phase k ph m = m\<lparr>mu_tasks := (mu_tasks m)[k := (fst (mu_tasks m ! k), fst (snd (mu_tasks m ! k)), ph)]\<rparr>"

text \<open>
  The number of \<^verbatim>\<open>PayloadType::Session\<close>. A message is looked up in the cache of ids, filed there, and
  its source stripped of the identifier; both branches after that, and the branch for sessions, are
  \<^verbatim>\<open>todo!()\<close>. The value says whether the task goes on.
\<close>

definition SESSION_TYPE :: u32 where "SESSION_TYPE = 3"

definition receive_message :: "crates \<Rightarrow> multi_client \<Rightarrow> message \<Rightarrow> (unit, string) outcome \<times> multi_client" where
  "receive_message cr m msg =
     (if m_type msg = SESSION_TYPE then (Panic, m)
      else
        let cache_key = hex_encode cr (m_message_id msg)
        in if cache_key \<in> mu_cache m then (Ok (), m)
           else
             let m = m\<lparr>mu_cache := insert cache_key (mu_cache m)\<rparr>;
                 msg = msg\<lparr>m_src := fst (remove_identifier cr (m_src msg))\<rparr>
             in if m_no_reply msg then (Panic, m) else (Panic, m))"

text \<open>
  One move of task \<open>k\<close>; \<open>None\<close> when it has to wait. The guard of the map lives to the end of the
  task: it is released only when the task ends, and then poisoned, since only a panic ends the loop.
\<close>

definition sub_task :: "crates \<Rightarrow> nat \<Rightarrow> sub_event \<Rightarrow> multi_client \<Rightarrow> multi_client option" where
  "sub_task cr k ev m =
     (let (i, ident, ph) = mu_tasks m ! k in
      case ph of
        Starting \<Rightarrow>
          (case ev of
             Created (Ok c) \<Rightarrow> Some (set_phase k (if mu_closed m then Ended else Connecting c) m)
           | Created _ \<Rightarrow> Some (set_phase k Ended m)
           | _ \<Rightarrow> None)
      | Connecting c \<Rightarrow>
          (case ev of
             NodeFrom (Ok nd) \<Rightarrow> Some (set_phase k (Locking c nd) m)
           | NodeFrom _ \<Rightarrow> Some (set_phase k Ended m)
           | _ \<Rightarrow> None)
      | Locking c nd \<Rightarrow>
          (case mu_lock m of
             Unlocked \<Rightarrow> Some (set_phase k (Announcing nd)
               (m\<lparr>mu_lock := HeldBy i, mu_clients := AList.update i c (mu_clients m)\<rparr>))
           | HeldBy _ \<Rightarrow> None
           | Poisoned \<Rightarrow> Some (set_phase k Ended m))
      | Announcing nd \<Rightarrow>
          if length (mu_nodes m) < 1 then Some (set_phase k Listening (m\<lparr>mu_nodes := mu_nodes m @ [nd]\<rparr>))
          else None
      | Listening \<Rightarrow>
          (case mu_messages m of
             [] \<Rightarrow> None
           | msg # msgs \<Rightarrow>
               (case receive_message cr (m\<lparr>mu_messages := msgs\<rparr>) msg of
                  (Panic, m) \<Rightarrow> Some (set_phase k Ended (m\<lparr>mu_lock := Poisoned\<rparr>))
                | (_, m) \<Rightarrow> Some m))
      | Ended \<Rightarrow> None)"

section \<open>Operations of the user\<close>

definition multi_close :: "multi_client \<Rightarrow> (unit, string) outcome" where
  "multi_close m = Panic"

definition get_clients :: "multi_client \<Rightarrow> ((i32 \<times> sub_client) list, string) outcome" where
  "get_clients m = Panic"

text \<open>\<open>wait_for_connect\<close> blocks, \<open>None\<close>, while the channel is empty.\<close>

definition multi_wait_for_connect :: "multi_client \<Rightarrow> (node \<times> multi_client) option" where
  "multi_wait_for_connect m = (case mu_nodes m of [] \<Rightarrow> None | nd # nds \<Rightarrow> Some (nd, m\<lparr>mu_nodes := nds\<rparr>))"

definition send_with_client ::
    "crates \<Rightarrow> buf_crate \<Rightarrow> client_codec \<Rightarrow> (string \<Rightarrow> (registrant, string) outcome) \<Rightarrow> enc_random \<Rightarrow> (nat \<Rightarrow> u32) \<Rightarrow>
      sub_client \<Rightarrow> i32 \<Rightarrow> string list \<Rightarrow> msg_payload \<Rightarrow> bool \<Rightarrow> u32 \<Rightarrow>
      (unit, string) outcome \<times> sub_client \<times> client_effect list" where
  "send_with_client cr bc cc lookup rnd nonces c client_id dests pl encrypted max_holding_secs =
     (let dd = add_multiclient_prefix dests client_id;
          s = sub_state c;
          (r, cache, es) = send_messages cr bc cc lookup rnd nonces
            (client_sender (sub_account c) (sub_address_id c) s) (sub_curve_key c) dd pl encrypted max_holding_secs
            (cl_ws s) (cl_keys s)
      in (r, c\<lparr>sub_state := s\<lparr>cl_keys := cache\<rparr>\<rparr>, es))"

text \<open>The loop over the clients, whose errors are unwrapped; the effects are tagged with the client.\<close>

fun send_to_clients ::
    "(sub_client \<Rightarrow> i32 \<Rightarrow> (unit, string) outcome \<times> sub_client \<times> client_effect list) \<Rightarrow>
      (i32 \<times> sub_client) list \<Rightarrow> (unit, string) outcome \<times> (i32 \<times> sub_client) list \<times> (i32 \<times> client_effect) list" where
  "send_to_clients send [] = (Ok (), [], [])"
| "send_to_clients send ((i, c) # cs) =
     (case send c i of
        (Ok _, c, es) \<Rightarrow>
          let (r, cs, es') = send_to_clients send cs in (r, (i, c) # cs, map (Pair i) es @ es')
      | (_, c, es) \<Rightarrow> (Panic, (i, c) # cs, map (Pair i) es))"

definition multi_payload :: "bytes \<Rightarrow> bytes \<Rightarrow> message_config \<Rightarrow> msg_payload" where
  "multi_payload msg_id content config = \<lparr>pp_type = 0, pp_message_id = msg_id, pp_data = content,
     pp_reply_to_id = [], pp_no_reply = mc_no_reply config\<rparr>"

text \<open>
  \<open>send_data\<close>: names are looked up with the default RPC configuration, which has no server, so
  that every lookup is an error. \<open>None\<close> is waiting for the lock. A panic in the loop poisons it.
\<close>

definition default_lookup :: "string \<Rightarrow> (registrant, string) outcome" where
  "default_lookup name = Err ''No server addresses in config''"

lemma default_lookup_rpc: "rpc_call default_rpc_config r \<longleftrightarrow> r = default_lookup name"
  by (simp add: rpc_call_def default_rpc_config_def default_lookup_def)

definition multi_send_data ::
    "crates \<Rightarrow> buf_crate \<Rightarrow> client_codec \<Rightarrow> (string \<Rightarrow> (registrant, string) outcome) \<Rightarrow> (i32 \<Rightarrow> enc_random) \<Rightarrow>
      (i32 \<Rightarrow> nat \<Rightarrow> u32) \<Rightarrow> bytes \<Rightarrow> multi_client \<Rightarrow> string list \<Rightarrow> bytes \<Rightarrow> message_config \<Rightarrow>
      ((unit, string) outcome \<times> multi_client \<times> (i32 \<times> client_effect) list) option" where
  "multi_send_data cr bc cc lookup rnd nonces msg_id m dests content config =
     (case unwrap_result (process_dests default_lookup dests) :: (string list, string) outcome of
        Ok [] \<Rightarrow> Some (Ok (), m, [])
      | Ok dests \<Rightarrow>
          (case mu_lock m of
             HeldBy _ \<Rightarrow> None
           | Poisoned \<Rightarrow> Some (Panic, m, [])
           | Unlocked \<Rightarrow>
               let (r, cs, es) = send_to_clients (\<lambda>c i. send_with_client cr bc cc lookup (rnd i) (nonces i) c i dests
                     (multi_payload msg_id content config) (\<not> mc_unencrypted config) (mc_max_holding_secs config))
                     (mu_clients m)
               in Some (r, m\<lparr>mu_clients := cs, mu_lock := (if r = Panic then Poisoned else Unlocked)\<rparr>, es))
      | _ \<Rightarrow> Some (Panic, m, []))"

section \<open>Runs\<close>

inductive multi_step :: "crates \<Rightarrow> multi_client \<Rightarrow> multi_client \<Rightarrow> bool" for cr where
  task: "\<lbrakk>k < length (mu_tasks m); sub_task cr k ev m = Some m'\<rbrakk> \<Longrightarrow> multi_step cr m m'"
| waited: "multi_wait_for_connect m = Some (nd, m') \<Longrightarrow> multi_step cr m m'"
| sent: "multi_send_data cr bc cc lookup rnd nonces msg_id m dests content config = Some (r, m', es) \<Longrightarrow>
    multi_step cr m m'"

section \<open>Names of the sub-clients\<close>

lemma sint_spawn_ids: "map sint (spawn_ids i n) = [sint i..sint n - 1]"
proof (induction i n rule: spawn_ids.induct)
  case (1 i n)
  then show ?case
    by (cases "sint i < sint n")
      (simp_all add: spawn_ids.simps [of i n] sint_plus_1 upto_rec1 [of "sint i" "sint n - 1"])
qed

lemma distinct_spawn_ids: "distinct (spawn_ids i n)"
  using distinct_map [of sint "spawn_ids i n"] by (simp add: sint_spawn_ids)

definition digits_value :: "string \<Rightarrow> nat" where
  "digits_value = foldl (\<lambda>a c. 10 * a + (of_char c - 48)) 0"

lemma digits_value_show_nat: "digits_value (show_nat n) = n"
proof (induction n rule: show_nat.induct)
  case (1 n)
  have digit: "of_char (char_of (48 + d) :: char) - 48 = d" if "d < 10" for d :: nat
    using that by simp
  show ?case
  proof (cases "n < 10")
    case True
    then show ?thesis using digit by (simp add: show_nat.simps [of n] digits_value_def)
  next
    case False
    then show ?thesis using 1 digit [of "n mod 10"] by (simp add: show_nat.simps [of n] digits_value_def)
  qed
qed

lemma show_nat_inject: "show_nat m = show_nat n \<longleftrightarrow> m = n"
  by (metis digits_value_show_nat)

lemma add_identifier_inject:
  assumes "0 \<le> sint i" and "0 \<le> sint j"
  shows "add_identifier base i = add_identifier base j \<longleftrightarrow> i = j"
  using assms by (auto simp: add_identifier_def add_identifier_prefix_def show_nat_inject eq_nat_nat_iff
    signed_word_eqI split: if_splits)

lemma add_identifier_longer: "0 \<le> sint i \<Longrightarrow> add_identifier base i \<noteq> base"
  by (auto simp: add_identifier_def add_identifier_prefix_def dest: arg_cong [of _ _ length])

section \<open>The lock\<close>

definition multi_inv :: "multi_client \<Rightarrow> bool" where
  "multi_inv m \<longleftrightarrow> mu_messages m = [] \<and> mu_lock m \<noteq> Poisoned \<and> mu_default m = None \<and>
     (mu_lock m = Unlocked \<longrightarrow> mu_clients m = []) \<and> length (mu_clients m) \<le> 1"

lemma multi_inv_set_phase [simp]: "multi_inv (set_phase k ph m) = multi_inv m"
  by (simp add: multi_inv_def set_phase_def)

lemma multi_inv_task: "multi_inv m \<Longrightarrow> sub_task cr k ev m = Some m' \<Longrightarrow> multi_inv m'"
  unfolding sub_task_def Let_def
  by (auto split: prod.splits phase.splits sub_event.splits outcome.splits mutex.splits if_splits)
    (auto simp: multi_inv_def set_phase_def)

text \<open>Without the lock, or with no client, nothing is sent.\<close>

lemma multi_send_data_silent:
  assumes "multi_inv m"
  shows "multi_send_data cr bc cc lookup rnd nonces msg_id m dests content config = None \<or>
    (\<exists>r. multi_send_data cr bc cc lookup rnd nonces msg_id m dests content config = Some (r, m, []))"
  using assms
  by (auto simp: multi_send_data_def multi_inv_def split: outcome.splits list.splits mutex.splits)

interpretation multi: step_invariant "multi_step cr" multi_inv
proof
  fix m m'
  assume "multi_inv m" and "multi_step cr m m'"
  from this(2,1) show "multi_inv m'"
  proof (induction rule: multi_step.induct)
    case task
    then show ?case using multi_inv_task by blast
  next
    case waited
    then show ?case by (auto simp: multi_wait_for_connect_def multi_inv_def split: list.splits)
  next
    case (sent bc cc lookup rnd nonces msg_id m dests content config r m' es)
    then show ?case
      using multi_send_data_silent [OF sent(2), of cr bc cc lookup rnd nonces msg_id dests content config] by auto
  qed
qed

lemma multi_new_inv: "multi_new p cr acc base n original = Ok m \<Longrightarrow> multi_inv m"
  by (auto simp: multi_new_def multi_inv_def outcome_simps Let_def)

section \<open>Properties\<close>

text \<open>C29: a multi-client never sends anything. In every state it reaches, however its tasks interleave,
  \<open>send_data\<close> returns or panics without an effect, or waits for a lock that is never released; once a
  sub-client is connected, it waits. The first task to connect keeps the guard of the map of clients
  while it waits for messages on a channel that nothing is ever sent to, so that at most one
  sub-client gets into the map, and the default client is never set.\<close>

theorem multi_client_never_sends:
  assumes "multi_new p cr acc base n original = Ok m\<^sub>0" and "(multi_step cr)\<^sup>*\<^sup>* m\<^sub>0 m"
  shows "(multi_send_data cr bc cc lookup rnd nonces msg_id m dests content config = None \<or>
      (\<exists>r. multi_send_data cr bc cc lookup rnd nonces msg_id m dests content config = Some (r, m, []))) \<and>
    (mu_clients m \<noteq> [] \<and> process_dests default_lookup dests = Ok (d # ds) \<longrightarrow>
      multi_send_data cr bc cc lookup rnd nonces msg_id m dests content config = None) \<and>
    length (mu_clients m) \<le> 1 \<and> mu_messages m = [] \<and> mu_default m = None"
proof -
  have inv: "multi_inv m" using multi.run [OF assms(2)] multi_new_inv [OF assms(1)] .
  have "mu_lock m \<noteq> Unlocked" "mu_lock m \<noteq> Poisoned" if "mu_clients m \<noteq> []"
    using inv that by (auto simp: multi_inv_def)
  then show ?thesis
    using multi_send_data_silent [OF inv, of cr bc cc lookup rnd nonces msg_id dests content config] inv
    by (auto simp: multi_inv_def multi_send_data_def split: mutex.splits)
qed

lemma demo_dest_processed:
  "process_dests default_lookup [make_address_string demo (replicate 32 6) ''x''] =
     Ok [make_address_string demo (replicate 32 6) ''x'']"
proof -
  let ?a = "make_address_string demo (replicate 32 6) ''x''"
  have split: "split_on (CHR ''.'') ?a = [''x'', hex_encode demo (replicate 32 6)]"
    using split_make_address [OF demo_laws(1), of "replicate 32 6" "''x''"] by (simp add: split_on_absent)
  then have "process_dest default_lookup ?a = Ok (Some ?a)"
    using hex_laws_D(2) [OF demo_laws(1), of "replicate 32 6"] join_split [of "CHR ''.''" ?a]
    by (simp add: process_dest_def)
  then show ?thesis by (simp add: process_dests_def List.map_filter_def)
qed

text \<open>Two sub-clients, of which the first connects.\<close>

theorem multi_client_never_sends_witness:
  "\<forall>c. \<exists>m\<^sub>0 m. multi_new Debug demo (demo_acc 5) ''me'' 2 False = Ok m\<^sub>0 \<and> (multi_step demo)\<^sup>*\<^sup>* m\<^sub>0 m \<and>
     mu_clients m = [(0, c)] \<and>
     multi_send_data demo be_crate demo_client_codec default_lookup (\<lambda>_. \<lparr>rand_key = [], rand_nonce = [], rand_key_nonces = []\<rparr>)
       (\<lambda>_ _. 0) [1] m [make_address_string demo (replicate 32 6) ''x''] [7] default_message_config = None"
proof
  fix c :: sub_client
  let ?m = "\<lambda>ph. \<lparr>mu_address = make_address_string demo (public_key (demo_acc 5)) ''me'', mu_offset = 0, mu_closed = False,
    mu_default = None, mu_lock = Unlocked, mu_clients = [], mu_nodes = [], mu_messages = [], mu_cache = {},
    mu_tasks = [(0, add_identifier ''me'' 0, ph), (1, add_identifier ''me'' 1, Starting)]\<rparr> :: multi_client"
  let ?m3 = "(?m (Announcing demo_node))\<lparr>mu_lock := HeldBy 0, mu_clients := [(0, c)]\<rparr>"
  have ids: "spawn_ids 0 2 = [0, 1]" by (simp add: spawn_ids.simps)
  then have new: "multi_new Debug demo (demo_acc 5) ''me'' 2 False = Ok (?m Starting)"
    by (simp add: multi_new_def)
  have "multi_step demo (?m Starting) (?m (Connecting c))"
    by (rule multi_step.task [of 0 _ _ "Created (Ok c)"]) (simp_all add: sub_task_def set_phase_def)
  moreover have "multi_step demo (?m (Connecting c)) (?m (Locking c demo_node))"
    by (rule multi_step.task [of 0 _ _ "NodeFrom (Ok demo_node)"]) (simp_all add: sub_task_def set_phase_def)
  moreover have "multi_step demo (?m (Locking c demo_node)) ?m3"
    by (rule multi_step.task [of 0 _ _ Proceed]) (simp_all add: sub_task_def set_phase_def)
  ultimately have run: "(multi_step demo)\<^sup>*\<^sup>* (?m Starting) ?m3"
    by (meson converse_rtranclp_into_rtranclp rtranclp.rtrancl_refl)
  show "\<exists>m\<^sub>0 m. multi_new Debug demo (demo_acc 5) ''me'' 2 False = Ok m\<^sub>0 \<and> (multi_step demo)\<^sup>*\<^sup>* m\<^sub>0 m \<and>
     mu_clients m = [(0, c)] \<and>
     multi_send_data demo be_crate demo_client_codec default_lookup (\<lambda>_. \<lparr>rand_key = [], rand_nonce = [], rand_key_nonces = []\<rparr>)
       (\<lambda>_ _. 0) [1] m [make_address_string demo (replicate 32 6) ''x''] [7] default_message_config = None"
    using multi_client_never_sends [OF new run] run new demo_dest_processed
    by (intro exI [of _ "?m Starting"] exI [of _ ?m3]) simp
qed

text \<open>C28: the sub-clients of a multi-client. They are numbered from 0, or from -1 with the original client,
  up to the number asked for, have different identifiers, and the address of each is the
  destination that a peer's sub-client of the same number makes of the multi-client's address.\<close>

theorem sub_client_names:
  assumes "hex_laws cr" and "length (public_key acc) = 32" and "multi_new p cr acc base n original = Ok m"
  shows "map (\<lambda>t. sint (fst t)) (mu_tasks m) = [if original then - 1 else 0..sint n - 1] \<and>
    distinct (map (\<lambda>t. fst (snd t)) (mu_tasks m)) \<and>
    (\<forall>k < length (mu_tasks m). add_multiclient_prefix [mu_address m] (fst (mu_tasks m ! k)) =
       [make_address_string cr (public_key acc) (fst (snd (mu_tasks m ! k)))])"
proof -
  let ?ids = "spawn_ids (- (if original then 1 else 0)) n"
  have m: "mu_tasks m = map (\<lambda>i. (i, add_identifier base i, Starting)) ?ids"
      "mu_address m = make_address_string cr (public_key acc) base"
    using assms(3) by (auto simp: multi_new_def outcome_simps Let_def)
  have sints: "map sint ?ids = [if original then - 1 else 0..sint n - 1]" by (simp add: sint_spawn_ids)
  have least: "- 1 \<le> sint i" if "i \<in> set ?ids" for i
  proof -
    have "sint i \<in> set (map sint ?ids)" using that by simp
    then show ?thesis unfolding sints by (auto split: if_splits)
  qed
  have "inj_on (add_identifier base) (set ?ids)"
  proof (rule inj_onI)
    fix i j
    assume ij: "i \<in> set ?ids" "j \<in> set ?ids" "add_identifier base i = add_identifier base j"
    consider "0 \<le> sint i" "0 \<le> sint j" | "sint i = - 1" "sint j = - 1" | "sint i = - 1" "0 \<le> sint j" | "0 \<le> sint i" "sint j = - 1"
      using least [OF ij(1)] least [OF ij(2)] by linarith
    then show "i = j"
    proof cases
      case 2
      then show ?thesis using signed_word_eqI [where ?'a = int, of i j] by simp
    qed (use ij(3) add_identifier_inject add_identifier_longer [of i base] add_identifier_longer [of j base] in
      \<open>auto simp: add_identifier_def\<close>)
  qed
  then have distinct: "distinct (map (add_identifier base) ?ids)"
    using distinct_spawn_ids by (simp add: distinct_map)
  have "hex_encode cr (public_key acc) \<noteq> []" using hex_laws_D(2) [OF assms(1), of "public_key acc"] assms(2) by auto
  then have "add_multiclient_prefix [make_address_string cr (public_key acc) base] i =
      [make_address_string cr (public_key acc) (add_identifier base i)]" for i
    using add_identifier_address [of i cr "public_key acc" base]
    by (cases "0 \<le> sint i") (auto simp: add_multiclient_prefix_def add_identifier_def)
  then show ?thesis using m sints distinct by (simp add: comp_def)
qed

theorem sub_client_names_witness:
  "\<exists>m. multi_new Debug demo (demo_acc 5) ''me'' 2 True = Ok m \<and>
    map (\<lambda>t. sint (fst t)) (mu_tasks m) = [- 1, 0, 1] \<and> distinct (map (\<lambda>t. fst (snd t)) (mu_tasks m))"
proof -
  obtain m where new: "multi_new Debug demo (demo_acc 5) ''me'' 2 True = Ok m"
    by (simp add: multi_new_def add_s_def overflow_def in_signed_range_def)
  moreover have "[- 1..1] = [- 1, 0, 1 :: int]" by code_simp
  ultimately show ?thesis using sub_client_names [OF demo_laws(1) _ new] by (simp add: demo_acc_def)
qed

end
