(* ===== verification/Spec2Isabelle.thy ===== *)
theory Spec2Isabelle
  imports NKN_Prelude Sequence Serialization Rust_Std External Crypto Address SigChain Errors Connection Session SessionTasks EntryPoints Wire Transaction Wallet Rpc Nanopay ClaimerTasks Client ClientTasks MultiClient
begin

text \<open>
  A model of the NKN client library for Rust (\<^verbatim>\<open>src/src/*.rs\<close>) and the properties that make it
  correct, or show where it is not.

  \<^bold>\<open>The program.\<close> A client (\<^verbatim>\<open>client.rs\<close>) has an account (\<^verbatim>\<open>account.rs\<close>) in a wallet (\<^verbatim>\<open>wallet.rs\<close>), finds
  a node by JSON-RPC (\<^verbatim>\<open>rpc.rs\<close>), connects to it by WebSocket, answers its challenge, and sends and
  receives messages under an address (\<^verbatim>\<open>utils.rs\<close>), encrypted with a key shared with the peer
  (\<^verbatim>\<open>crypto.rs\<close>) and signed as the first element of a signature chain (\<^verbatim>\<open>sigchain.rs\<close>,
  \<^verbatim>\<open>serialization.rs\<close>). A multi-client (\<^verbatim>\<open>multiclient.rs\<close>) runs several clients under one key. On top of
  messages, a session (\<^verbatim>\<open>session.rs\<close>) carries a reliable stream of packets over several connections
  (\<^verbatim>\<open>connection.rs\<close>) with sequence numbers (\<^verbatim>\<open>utils.rs\<close>) and windows. Transactions (\<^verbatim>\<open>tx.rs\<close>,
  \<^verbatim>\<open>payload.rs\<close>, \<^verbatim>\<open>signature.rs\<close>) are built, signed and sent to nodes; NanoPay (\<^verbatim>\<open>nanopay.rs\<close>) is a payment
  channel made of them.

  \<^bold>\<open>Conventions.\<close> Every fallible or panicking function returns an \<open>outcome\<close> (\<open>Ok\<close>, \<open>Err\<close>, \<open>Panic\<close>);
  the operator \<^verbatim>\<open>?\<close> is \<open>and_then\<close>. Integers keep their width as words, and arithmetic takes the build
  profile: \<open>Debug\<close> panics on overflow, \<open>Release\<close> wraps (\<open>NKN_Prelude\<close>). \<^verbatim>\<open>f64\<close> is \<open>real\<close> with a rounding
  function as an argument. State behind mutexes and locks is a record passed and returned; what
  leaves a component (a call of \<^verbatim>\<open>send_with\<close>, a frame, a value on a channel) is a list of effects; time,
  randomness and replies from outside are arguments. \<^verbatim>\<open>HashMap\<close>s are maps, or association lists in
  their iteration order where the code iterates. A background task is one round of its loop, or a
  step relation where tasks interleave. A function that may wait for ever returns an \<open>option\<close>, \<open>None\<close>
  for waiting; the loops of \<^verbatim>\<open>receive_with\<close> and \<^verbatim>\<open>read\<close>, which end only for some states, are partial
  functions to \<open>option\<close>, and that they return is proved, not assumed. No definition uses fuel.

  \<^bold>\<open>Theories.\<close>
  \<^item> \<open>NKN_Prelude\<close>, \<open>Rust_Std\<close>: outcomes, checked arithmetic, the contract of steps and invariants
    (locale \<open>step_invariant\<close>) and its extension to a simulation of an abstract specification (locale
    \<open>simulation\<close>); strings, UTF-8, splitting and decimal printing.
  \<^item> \<open>External\<close>: the third-party crates as a record of functions, with their documented behaviour as
    named laws, and an instance that satisfies all of them, for the witnesses. \<open>Wire\<close> does the same for
    the protobuf codecs.
  \<^item> \<open>Sequence\<close> (\<^verbatim>\<open>next_seq\<close>, \<^verbatim>\<open>seq_in_between\<close>, \<^verbatim>\<open>compare_seq\<close>, the ordering of \<^verbatim>\<open>SeqElem\<close>): the cyclic
    group, the circular interval, the order within a window.
  \<^item> \<open>Serialization\<close>, \<open>SigChain\<close>: readers undo writers above \<^verbatim>\<open>0xFD\<close> (locales \<open>prefix_code\<close>, \<open>codec\<close>,
    \<open>buf_provider\<close>); the signed bytes determine what they were made from.
  \<^item> \<open>Crypto\<close>, \<open>Address\<close>, \<open>Wallet\<close>, \<open>Transaction\<close>, \<open>Errors\<close>: keys and accounts; addresses and the cache of
    shared keys; the encrypted wallet and its JSON; transactions and the trait \<^verbatim>\<open>SignableData\<close> as the
    locale \<open>signable\<close>; error codes.
  \<^item> \<open>Connection\<close>, \<open>Session\<close>: the operations of both and the rounds of their tasks. \<open>conn_step\<close> and
    \<open>session_step\<close> are everything that can happen to one; the invariants over them give what holds in
    every state that is reached.
  \<^item> \<open>SessionTasks\<close> (\<^verbatim>\<open>start_session\<close>, \<^verbatim>\<open>start_conn\<close>): the tasks of a session as state machines around its
    mutex, a queue whose head holds the lock; \<open>tasks_step\<close> interleaves them in any way with other users
    of the session. The locale \<open>kept_lock\<close> is the contract of such a lock that one of its users keeps.
  \<^item> \<open>EntryPoints\<close>: the example binary of \<^verbatim>\<open>main.rs\<close>, and the greeting of \<^verbatim>\<open>lib.rs\<close> with its freeing, over
    the memory shared with C.
  \<^item> \<open>Rpc\<close>: a call as concurrent tasks with a shared result (\<open>rpc_step\<close>); its result and its end.
  \<^item> \<open>Nanopay\<close>: payer and claimer and the accounting of both. \<open>ClaimerTasks\<close>: the claimer's user and its
    background task as state machines whose phases are their \<^verbatim>\<open>await\<close>s, interleaved by \<open>claim_sys_step\<close>,
    and the ledger that this system refines (\<open>ledger_move\<close>, an instance of \<open>simulation\<close>).
  \<^item> \<open>Client\<close>: encryption, signing, batching, the handlers of incoming messages, the retry loop, and
    \<open>client_step\<close> with its invariant. \<open>ClientTasks\<close>: the tasks of one connection with the bounded channels
    between them and the user (\<open>conn_move\<close>), with histories of what went through. \<open>MultiClient\<close>: the tasks of the sub-clients as a state machine
    around the lock they share.
  \<^item> This theory: delivery of a message from one client to another, which composes \<open>Client\<close> with
    \<open>Address\<close>, \<open>Crypto\<close> and \<open>SigChain\<close>.

  \<^bold>\<open>What the theorems show.\<close> The message path of a client is right: what is sent is signed, fits the
  limit, opens at the receiver and is delivered, and the channels of a connection lose and reorder nothing;
  a user who leaves a message there stops the connection, though, and closing does not end it. The
  address, wallet, transaction and serialization round trips hold; the RPC call returns the first success and ends; sequence arithmetic is what the
  windows need. The session layer is not: by invariants over all reachable states, received data is
  never stored, acknowledgements are never sent or take no effect, closing panics, and a session whose
  tasks were started never sends a packet. Replies of a
  client's messages, sends of a multi-client and claims of a NanoPay receiver never succeed; with a
  verification in place of the missing one the claimer keeps its ledger, up to a replay that counts
  twice, and its background task can drop an accepted transaction or send it too late. Each of
  these is a theorem about the code as it is.

  \<^bold>\<open>Not modelled.\<close> The scheduler of \<^verbatim>\<open>tokio\<close>, for which any interleaving of the tasks stands, sockets and
  HTTP, the bytes of JSON and protobuf, which are parameters, log output,
  and the poisoning of a mutex by a panic where nothing depends on it. A connection of a client is followed
  until the client connects again. Accessors that return a field are the fields of the records.
\<close>

section \<open>From one client to another\<close>

text \<open>A client's own address needs no lookup.\<close>

lemma process_own_address:
  assumes "hex_laws cr" and "length pk = 32"
  shows "process_dests lookup [make_address_string cr pk ident] = Ok [make_address_string cr pk ident]"
proof -
  let ?a = "make_address_string cr pk ident"
  have "length (last (split_on (CHR ''.'') ?a)) = 64"
    using split_make_address [OF assms(1), of pk ident] hex_laws_D(2) [OF assms(1), of pk] assms(2) by simp
  then have "process_dest lookup ?a = Ok (Some ?a)" using join_split [of "CHR ''.''" ?a] by (simp add: process_dest_def)
  then show ?thesis by (simp add: process_dests_def List.map_filter_def)
qed

text \<open>What is made for one destination, encrypted or in the clear, opens there to the payload.\<close>

lemma create_payloads_opens:
  assumes laws: "hex_laws cr" "box_laws cr" "exchange_laws cr" "codec_laws cc"
    and accs: "wf_account cr a" "curve_key cr a ska" "wf_account cr b" "curve_key cr b skb"
    and "length (rand_nonce rnd) = 24" and "cache_right cr ska {public_key b} cache"
    and "cache_right cr skb {public_key a} cache_b"
  shows "\<exists>q cache'. create_payloads cr cc rnd [make_address_string cr (public_key b) ident] pl enc ska cache = (Ok [q], cache') \<and>
    (\<forall>src_ident prev. fst (open_payload cr cc skb \<lparr>im_src = make_address_string cr (public_key a) src_ident,
       im_payload = q, im_prev_hash = prev\<rparr> cache_b) = Ok (enc, pl))"
proof (cases enc)
  case True
  obtain q cache' where q: "encrypt_payload cr cc rnd pl [make_address_string cr (public_key b) ident] ska cache =
      (Ok [q], cache')" "opens_for cr cc pl a b q"
    using encrypt_payload_single [OF laws accs(1-3) assms(9,10)] by blast
  then show ?thesis using True accs(4) assms(11) by (auto simp: create_payloads_def opens_for_def)
next
  case False
  then show ?thesis using laws(4) by (simp add: create_payloads_def open_payload_def codec_laws_def)
qed

lemma handle_inbound_delivers:
  assumes "fst (open_payload cr cc sk im (cl_keys s)) = Ok (enc, pl)" and "pp_type pl = 0" and "pp_reply_to_id pl = []"
    and "\<not> cl_closed s"
  shows "\<exists>s' receipt. handle_inbound cr bc cc privkey sk s im = (Ok (), s', receipt @ [MessageTx
    \<lparr>m_src = im_src im, m_data = pp_data pl, m_type = 0, m_encrypted = enc, m_message_id = pp_message_id pl,
     m_no_reply = pp_no_reply pl\<rparr>])"
  using handle_inbound_message [OF assms(4,1,3), of "pp_data pl" bc privkey] assms(2) by (fastforce simp: payload_data_def)

section \<open>Properties\<close>


lemma demo_single_key: "cache_right demo sk {pk} (cl_keys demo_client)"
  by (simp add: cache_right_def demo_client_def)

lemma length_enc_fields: "length (enc_fields fs) = sum_list (map (\<lambda>f. 2 * length f + 1) fs)"
proof -
  have "length (enc_len n) = n + 1" for n by (induction n) simp_all
  then show ?thesis by (induction fs) (simp_all add: enc_fields.simps)
qed

lemma demo_size_ok:
  assumes "fst (create_payloads demo demo_client_codec \<lparr>rand_key = [], rand_nonce = replicate 24 2, rand_key_nonces = []\<rparr>
      [make_address_string demo (replicate 32 6) ''bob''] (send_data_payload [104, 105] default_message_config) True
      (replicate 32 5) Map.empty) = Ok [q]"
  shows "length q + length (make_address_string demo (replicate 32 6) ''bob'') + SIGNATURE_LEN \<le> MAX_CLIENT_MESSAGE_SIZE"
proof -
  have dest: "length (make_address_string demo (replicate 32 6) ''bob'') = 68"
    using hex_laws_D(2) [OF demo_laws(1)] by (simp add: make_address_string_def)
  have sealed: "length (seal_precomputed demo m nonce k) = length m + 16" "length (box_precompute demo pk sk) = 32" for m nonce k pk sk
    by (simp_all add: demo_def)
  obtain key where "q = enc_pb_message demo_client_codec \<lparr>pm_payload = seal_precomputed demo
      (enc_msg_payload demo_client_codec (send_data_payload [104, 105] default_message_config)) (replicate 24 2) key,
      pm_encrypted = True, pm_nonce = replicate 24 2, pm_encrypted_key = []\<rparr>"
    using assms parse_make_address [OF demo_laws(1), of "replicate 32 6" "''bob''"]
    by (auto simp: create_payloads_def encrypt_payload_def get_or_compute_shared_key_def Let_def sealed
      encrypt_eq [OF demo_laws(4)] split: outcome.splits)
  then have "length q \<le> 400"
    by (simp add: demo_client_codec_def length_enc_fields sealed flag_def send_data_payload_def default_message_config_def be_put_def)
  then show ?thesis using dest by simp
qed


end
